(* ===== verification/Prelude.thy ===== *)
theory Prelude imports Main "HOL-Library.Word" begin

text \<open>
  Shared vocabulary of the development: machine words, the outcome of a Rust
  computation (value, error value, or a control transfer that never comes back),
  sequencing of fallible and of stateful computations, slices with their bounds
  checks, little- and big-endian byte strings, and the aligned buffers of
  \<^verbatim>\<open>opal/src/util.rs\<close>.

  The firmware is built by the script \<^verbatim>\<open>flash\<close> with \<^verbatim>\<open>cargo build --release\<close>
  for \<^verbatim>\<open>x86_64-unknown-uefi\<close>: integer arithmetic wraps, shift amounts are masked,
  \<^verbatim>\<open>debug_assertions\<close> is off, the machine is little-endian and \<^verbatim>\<open>usize\<close> has 64 bits.
\<close>

unbundle bit_operations_syntax

type_synonym u8 = "8 word"
type_synonym u16 = "16 word"
type_synonym u32 = "32 word"
type_synonym u64 = "64 word"

named_theorems ok_iff \<open>when a composed computation returns a value\<close>
named_theorems run_simps \<open>running stateful computations step by step\<close>
named_theorems wire_simps \<open>lengths and contents of encoded bytes\<close>

section \<open>Outcomes\<close>

text \<open>
  \<open>Ok\<close> and \<open>Err\<close> are Rust's \<^verbatim>\<open>Result\<close>. \<open>Halt\<close> is everything after which no
  further code of the program runs, destructors included: a panic (the UEFI panic
  handler does not unwind), a reset of the machine, or a loop that has used up the
  fuel of the model, which stands for a loop that is still running.
\<close>

datatype reset_type = COLD | SHUTDOWN

datatype halt = Panicked | ResetTo reset_type | OutOfFuel

datatype ('e, 'a) outcome = Ok 'a | Err 'e | Halt halt

abbreviation Panic :: "('e, 'a) outcome" where
  "Panic \<equiv> Halt Panicked"

abbreviation returns :: "('e, 'a) outcome \<Rightarrow> bool" where
  "returns r \<equiv> (\<forall>h. r \<noteq> Halt h)"

fun obind :: "('e, 'a) outcome \<Rightarrow> ('a \<Rightarrow> ('e, 'b) outcome) \<Rightarrow> ('e, 'b) outcome" where
  "obind (Ok a) f = f a"
| "obind (Err e) f = Err e"
| "obind (Halt h) f = Halt h"

lemma obind_cong [fundef_cong]:
  "m = m' \<Longrightarrow> (\<And>a. m' = Ok a \<Longrightarrow> f a = f' a) \<Longrightarrow> obind m f = obind m' f'"
  by (cases m') auto

lemma obind_Ok_iff [ok_iff]: "obind m f = Ok b \<longleftrightarrow> (\<exists>a. m = Ok a \<and> f a = Ok b)"
  by (cases m) auto

lemma obind_assoc: "obind (obind m f) g = obind m (\<lambda>a. obind (f a) g)"
  by (cases m) auto

lemma obind_Ok_right [simp]: "obind m Ok = m"
  by (cases m) auto

lemma obind_split:
  "P (obind m f) \<longleftrightarrow>
     (\<forall>a. m = Ok a \<longrightarrow> P (f a)) \<and> (\<forall>e. m = Err e \<longrightarrow> P (Err e)) \<and> (\<forall>h. m = Halt h \<longrightarrow> P (Halt h))"
  by (cases m) auto

fun map_err :: "('e \<Rightarrow> 'f) \<Rightarrow> ('e, 'a) outcome \<Rightarrow> ('f, 'a) outcome" where
  "map_err g (Ok a) = Ok a"
| "map_err g (Err e) = Err (g e)"
| "map_err g (Halt h) = Halt h"

lemma map_err_Ok_iff [ok_iff]: "map_err g m = Ok a \<longleftrightarrow> m = Ok a"
  by (cases m) auto

lemma map_err_Halt_iff [simp]: "map_err g m = Halt h \<longleftrightarrow> m = Halt h"
  by (cases m) auto

section \<open>Stateful computations\<close>

text \<open>
  A method that takes \<^verbatim>\<open>&mut self\<close> is a function from the state to an outcome and the
  new state. \<open>pbind\<close> is the \<^verbatim>\<open>?\<close> operator: an error or a halt skips the rest.
\<close>

type_synonym ('s, 'e, 'a) prog = "'s \<Rightarrow> ('e, 'a) outcome \<times> 's"

definition pure :: "('e, 'a) outcome \<Rightarrow> ('s, 'e, 'a) prog" where
  "pure r s = (r, s)"

definition pbind :: "('s, 'e, 'a) prog \<Rightarrow> ('a \<Rightarrow> ('s, 'e, 'b) prog) \<Rightarrow> ('s, 'e, 'b) prog" where
  "pbind m f s = (case m s of
      (Ok a, s') \<Rightarrow> f a s'
    | (Err e, s') \<Rightarrow> (Err e, s')
    | (Halt h, s') \<Rightarrow> (Halt h, s'))"

definition pmap_err :: "('e \<Rightarrow> 'f) \<Rightarrow> ('s, 'e, 'a) prog \<Rightarrow> ('s, 'f, 'a) prog" where
  "pmap_err g m s = (case m s of (r, s') \<Rightarrow> (map_err g r, s'))"

text \<open>Running a computation on a part of the state, as a call through a field does.\<close>

definition zoom :: "('s \<Rightarrow> 't) \<Rightarrow> ('t \<Rightarrow> 's \<Rightarrow> 's) \<Rightarrow> ('t, 'e, 'a) prog \<Rightarrow> ('s, 'e, 'a) prog" where
  "zoom get put m s = (case m (get s) of (r, t) \<Rightarrow> (r, put t s))"

lemma pure_run [run_simps]: "pure r s = (r, s)"
  by (simp add: pure_def)

lemma pbind_run [run_simps]:
  "m s = (Ok a, s') \<Longrightarrow> pbind m f s = f a s'"
  "m s = (Err e, s') \<Longrightarrow> pbind m f s = (Err e, s')"
  "m s = (Halt h, s') \<Longrightarrow> pbind m f s = (Halt h, s')"
  by (simp_all add: pbind_def)

lemma pbind_pure [simp]:
  "pbind (pure (Ok a)) f = f a"
  "pbind (pure (Err e)) f = pure (Err e)"
  "pbind (pure (Halt h)) f = pure (Halt h)"
  by (simp_all add: fun_eq_iff pbind_def pure_def)

lemma pbind_cong_run:
  "(\<And>a t. m s = (Ok a, t) \<Longrightarrow> f a t = g a t) \<Longrightarrow> pbind m f s = pbind m g s"
  by (auto simp: pbind_def split: prod.splits outcome.splits)

lemma pbind_assoc: "pbind (pbind m f) g = pbind m (\<lambda>a. pbind (f a) g)"
  by (auto simp: fun_eq_iff pbind_def split: prod.splits outcome.splits)

lemma pbind_Ok_iff [ok_iff]:
  "pbind m f s = (Ok b, t) \<longleftrightarrow> (\<exists>a s'. m s = (Ok a, s') \<and> f a s' = (Ok b, t))"
  by (auto simp: pbind_def split: prod.splits outcome.splits)

lemma pbind_cases:
  assumes "pbind m f s = (r, t)"
  obtains (Ok) a s' where "m s = (Ok a, s')" "f a s' = (r, t)"
    | (Err) e where "m s = (Err e, t)" "r = Err e"
    | (Halt) h where "m s = (Halt h, t)" "r = Halt h"
  using assms by (auto simp: pbind_def split: prod.splits outcome.splits)

lemma pure_Ok_iff [ok_iff]: "pure r s = (Ok a, t) \<longleftrightarrow> r = Ok a \<and> t = s"
  by (auto simp: pure_def)

lemma pmap_err_Ok_iff [ok_iff]: "pmap_err g m s = (Ok a, t) \<longleftrightarrow> m s = (Ok a, t)"
  by (auto simp: pmap_err_def ok_iff split: prod.splits)

lemma zoom_Ok_iff [ok_iff]:
  "zoom get put m s = (Ok a, s') \<longleftrightarrow> (\<exists>t. m (get s) = (Ok a, t) \<and> s' = put t s)"
  by (auto simp: zoom_def split: prod.splits)

text \<open>
  Invariants of the state that a computation keeps on every exit, errors and halts
  included.
\<close>

definition keeps :: "('s \<Rightarrow> 's \<Rightarrow> bool) \<Rightarrow> ('s, 'e, 'a) prog \<Rightarrow> bool" where
  "keeps R m \<longleftrightarrow> (\<forall>s. R s (snd (m s)))"

lemma keepsD: "keeps R m \<Longrightarrow> m s = (r, t) \<Longrightarrow> R s t"
  by (metis keeps_def snd_conv)

lemma keeps_pure: "reflp R \<Longrightarrow> keeps R (pure r)"
  by (auto simp: keeps_def pure_def elim: reflpE)

lemma keeps_pbind:
  assumes "transp R" "keeps R m" "\<And>a. keeps R (f a)"
  shows "keeps R (pbind m f)"
  unfolding keeps_def
proof
  fix s
  obtain r t where "pbind m f s = (r, t)" by fastforce
  then show "R s (snd (pbind m f s))"
  proof (cases rule: pbind_cases)
    case (Ok a s')
    then have "R s s'" "R s' t" using assms(2,3) by (auto dest: keepsD)
    then show ?thesis using assms(1) \<open>pbind m f s = (r, t)\<close> by (auto dest: transpD)
  qed (use assms(2) \<open>pbind m f s = (r, t)\<close> in \<open>auto dest: keepsD\<close>)
qed

lemma keeps_pmap_err: "keeps R m \<Longrightarrow> keeps R (pmap_err g m)"
  by (simp add: keeps_def pmap_err_def split: prod.splits) (metis snd_conv)

section \<open>Slices\<close>

text \<open>Indexing and slicing panic out of bounds.\<close>

definition index :: "'a list \<Rightarrow> nat \<Rightarrow> ('e, 'a) outcome" where
  "index xs i = (if i < length xs then Ok (xs ! i) else Panic)"

definition slice :: "'a list \<Rightarrow> nat \<Rightarrow> nat \<Rightarrow> ('e, 'a list) outcome" where
  "slice xs a b = (if a \<le> b \<and> b \<le> length xs then Ok (take (b - a) (drop a xs)) else Panic)"

text \<open>\<^verbatim>\<open>slice::get\<close> returns an option instead.\<close>

definition get :: "'a list \<Rightarrow> nat \<Rightarrow> 'a option" where
  "get xs i = (if i < length xs then Some (xs ! i) else None)"

lemma index_Ok_iff [ok_iff]: "index xs i = Ok x \<longleftrightarrow> i < length xs \<and> xs ! i = x"
  by (auto simp: index_def)

lemma replicate_small: "replicate 3 x = [x, x, x]" "replicate 4 x = [x, x, x, x]"
  by (simp_all add: numeral_eq_Suc)

lemma slice_Ok_iff [ok_iff]:
  "slice xs a b = Ok ys \<longleftrightarrow> a \<le> b \<and> b \<le> length xs \<and> ys = take (b - a) (drop a xs)"
  by (auto simp: slice_def)

lemma index_append_left: "i < length xs \<Longrightarrow> index (xs @ ys) i = index xs i"
  by (simp add: index_def nth_append)

text \<open>Writing a byte string over the front of a buffer (\<^verbatim>\<open>ptr::write\<close>, DMA, \<^verbatim>\<open>copy_from_slice\<close>).\<close>

definition overwrite :: "'a list \<Rightarrow> nat \<Rightarrow> 'a list \<Rightarrow> 'a list" where
  "overwrite buf i xs = take i buf @ xs @ drop (i + length xs) buf"

lemma length_overwrite [simp]:
  "i + length xs \<le> length buf \<Longrightarrow> length (overwrite buf i xs) = length buf"
  by (simp add: overwrite_def)

section \<open>Byte strings of integers\<close>

fun le_bytes :: "nat \<Rightarrow> nat \<Rightarrow> u8 list" where
  "le_bytes 0 n = []"
| "le_bytes (Suc k) n = word_of_nat n # le_bytes k (n div 256)"

fun le_nat :: "u8 list \<Rightarrow> nat" where
  "le_nat [] = 0"
| "le_nat (b # bs) = unat b + 256 * le_nat bs"

definition be_bytes :: "nat \<Rightarrow> nat \<Rightarrow> u8 list" where
  "be_bytes k n = rev (le_bytes k n)"

definition be_nat :: "u8 list \<Rightarrow> nat" where
  "be_nat bs = le_nat (rev bs)"

lemma length_le_bytes [simp, wire_simps]: "length (le_bytes k n) = k"
  by (induction k arbitrary: n) auto

lemma length_be_bytes [simp, wire_simps]: "length (be_bytes k n) = k"
  by (simp add: be_bytes_def)

lemma le_bytes_numeral [simp]:
  "le_bytes (numeral k) n = word_of_nat n # le_bytes (pred_numeral k) (n div 256)"
  using le_bytes.simps(2) [of "pred_numeral k" n] by (simp only: numeral_eq_Suc [of k, symmetric])

lemma unat_byte_of_nat: "unat (word_of_nat n :: u8) = n mod 256"
  by (simp add: unsigned_of_nat take_bit_eq_mod)

lemma unat_byte_bound: "unat (b :: u8) < 256"
  using unsigned_less [of b] by simp

lemma le_nat_le_bytes: "le_nat (le_bytes k n) = n mod 256 ^ k"
proof (induction k arbitrary: n)
  case (Suc k)
  have "n mod (256 * 256 ^ k) = n mod 256 + 256 * (n div 256 mod 256 ^ k)"
    by (simp add: mod_mult2_eq)
  with Suc show ?case by (simp add: unat_byte_of_nat)
qed simp

lemma le_nat_bound: "le_nat bs < 256 ^ length bs"
proof (induction bs)
  case (Cons b bs)
  then have "256 * Suc (le_nat bs) \<le> 256 * 256 ^ length bs"
    by (intro mult_le_mono2) (rule Suc_leI)
  then show ?case using unat_byte_bound [of b] by simp
qed simp

lemma le_bytes_le_nat: "length bs = k \<Longrightarrow> le_bytes k (le_nat bs) = bs"
proof (induction bs arbitrary: k)
  case (Cons b bs)
  have "(unat b + 256 * le_nat bs) div 256 = le_nat bs"
    using unat_byte_bound [of b] by simp
  moreover have "(word_of_nat (unat b + 256 * le_nat bs) :: u8) = b"
  proof -
    have "unat (word_of_nat (unat b + 256 * le_nat bs) :: u8) = unat b"
      using unat_byte_bound [of b] unfolding unat_byte_of_nat by simp
    then show ?thesis by (simp only: word_unat_eq_iff)
  qed
  ultimately show ?case using Cons by auto
qed simp

lemma le_bytes_mod: "le_bytes k (n mod 256 ^ k) = le_bytes k n"
  by (metis le_bytes_le_nat le_nat_le_bytes length_le_bytes)

lemma be_nat_be_bytes: "be_nat (be_bytes k n) = n mod 256 ^ k"
  by (simp add: be_nat_def be_bytes_def le_nat_le_bytes)

lemma be_nat_bound: "be_nat bs < 256 ^ length bs"
  using le_nat_bound [of "rev bs"] by (simp add: be_nat_def)

lemma le_nat_append: "le_nat (xs @ ys) = le_nat xs + 256 ^ length xs * le_nat ys"
  by (induction xs) (auto simp: algebra_simps)

lemma be_nat_Cons: "be_nat (b # bs) = unat b * 256 ^ length bs + be_nat bs"
  by (simp add: be_nat_def le_nat_append)

text \<open>The two bytes of a 16 bit word.\<close>

lemma com_id_bytes: "unat (ucast (drop_bit 8 w) :: u8) * 256 + unat (ucast (w :: u16) :: u8) = unat w"
proof -
  have "unat w < 2 ^ 16" using unsigned_less [of w] by simp
  moreover have "unat (drop_bit 8 w) = unat w div 256" by (simp add: drop_bit_eq_div unat_div)
  ultimately have "unat (ucast (drop_bit 8 w) :: u8) = unat w div 256"
    by (simp only: unsigned_ucast_eq take_bit_eq_mod) simp
  moreover have "unat (ucast w :: u8) = unat w mod 256"
    by (simp add: unsigned_ucast_eq take_bit_eq_mod)
  ultimately show ?thesis by simp
qed

text \<open>Swapping the bytes of a word: \<^verbatim>\<open>to_be\<close> and \<^verbatim>\<open>from_be\<close> on a little-endian machine.\<close>

definition swap32 :: "u32 \<Rightarrow> u32" where
  "swap32 w = word_of_nat (be_nat (le_bytes 4 (unat w)))"

lemma unat32_bound: "unat (w :: u32) < 256 ^ 4"
  using unsigned_less [of w] by simp

lemma unat_u32_of_nat: "unat (word_of_nat n :: u32) = n mod 256 ^ 4"
  by (simp add: unsigned_of_nat take_bit_eq_mod)

lemma unat_of_nat_small: "n < 2 ^ LENGTH('a) \<Longrightarrow> unat (word_of_nat n :: 'a::len word) = n"
  by (simp add: unsigned_of_nat take_bit_nat_eq_self)

lemma unat_u64_of_nat: "n < 2 ^ 64 \<Longrightarrow> unat (word_of_nat n :: u64) = n"
  by (simp add: unsigned_of_nat take_bit_nat_eq_self)

lemma unat_add_small:
  assumes "unat (a :: u64) + n < 2 ^ 64"
  shows "unat (a + word_of_nat n) = unat a + n"
  using assms unat_u64_of_nat [of n] unat_add_lem [of a "word_of_nat n"] by simp

lemma le_bytes_swap32: "le_bytes 4 (unat (swap32 w)) = be_bytes 4 (unat w)"
proof -
  have "unat (swap32 w) = be_nat (le_bytes 4 (unat w))"
    using be_nat_bound [of "le_bytes 4 (unat w)"]
    unfolding swap32_def unat_u32_of_nat by (simp only: length_le_bytes mod_less)
  then show ?thesis
    by (simp only: be_bytes_def be_nat_def le_bytes_le_nat length_rev length_le_bytes)
qed

lemma swap32_swap32 [simp]: "swap32 (swap32 w) = w"
proof -
  have "be_nat (le_bytes 4 (unat (swap32 w))) = unat w mod 256 ^ 4"
    by (simp only: le_bytes_swap32 be_nat_be_bytes)
  then show ?thesis
    using unat32_bound [of w] unfolding swap32_def [of "swap32 w"] by simp
qed

lemma swap32_0 [simp]: "swap32 0 = 0"
  by (simp add: swap32_def be_nat_def)

lemma swap32_eq_0_iff [simp]: "swap32 w = 0 \<longleftrightarrow> w = 0"
  by (metis swap32_0 swap32_swap32)

text \<open>Assembling an integer from disjoint bit fields.\<close>

lemma push_bit_or_nat:
  assumes "b < 2 ^ n"
  shows "push_bit n a OR b = a * 2 ^ n + (b :: nat)"
proof -
  have b: "take_bit n b = b" using assms by (simp add: take_bit_nat_eq_self)
  have "push_bit n a AND take_bit n b = 0"
    by (rule bit_eqI) (auto simp: bit_simps)
  then show ?thesis
    using disjunctive_add_eq_or [of "push_bit n a" b] by (simp add: b push_bit_eq_mult)
qed

lemma unat_push_byte:
  assumes "k \<le> 56"
  shows "unat (push_bit k (ucast (b :: u8)) :: u64) = push_bit k (unat b)"
proof -
  have "unat b * 2 ^ k < 2 ^ 8 * 2 ^ k"
    using unat_byte_bound [of b] by simp
  also have "\<dots> \<le> 2 ^ 64" using power_increasing [OF assms, of "2 :: nat"] by simp
  finally have "push_bit k (unat b) < 2 ^ 64" by (simp add: push_bit_eq_mult)
  then show ?thesis
    using unat_byte_bound [of b]
    by (simp add: unsigned_push_bit_eq unsigned_ucast_eq take_bit_nat_eq_self)
qed

section \<open>Signed offsets\<close>

lemma sint64_bounds: "- (2 ^ 63) \<le> sint (w :: u64)" "sint (w :: u64) < 2 ^ 63"
  using sint_greater_eq [of w] sint_less [of w] by simp_all

lemma unat_add_word:
  "unat (a :: u64) + unat b < 2 ^ 64 \<Longrightarrow> unat (a + b) = unat a + unat b"
  using unat_add_lem [of a b] by simp

lemma sint_small:
  assumes "unat (w :: u64) < 2 ^ 63"
  shows "sint w = int (unat w)"
proof -
  have "int (unat w) < int (2 ^ 63)" using assms by (simp only: of_nat_less_iff)
  then have "uint w < 2 ^ 63" by simp
  then have "signed_take_bit 63 (uint w) = uint w"
    by (intro signed_take_bit_int_eq_self) (use uint_ge_0 [of w] in linarith)+
  then show ?thesis by (simp add: sint_uint)
qed

text \<open>
  Adding a signed offset to a position that fits a signed word: a result that is not
  negative is the sum, without wrap-around.
\<close>

lemma sint_add_offset:
  assumes "unat (a :: u64) < 2 ^ 63" "0 \<le> sint (a + b)"
  shows "sint (a + b) = int (unat a) + sint b"
proof -
  define x where "x = int (unat a)"
  have "int (unat a) < int (2 ^ 63)" using assms(1) by (simp only: of_nat_less_iff)
  then have x: "0 \<le> x" "x < 2 ^ 63" by (simp_all add: x_def)
  let ?v = "x + sint b" and ?s = "sint (a + b)"
  have "take_bit 64 ?s = take_bit 64 (uint a + uint b)"
    using uint_sint [of "a + b"] by (simp add: uint_word_ariths(1) take_bit_eq_mod)
  also have "\<dots> = take_bit 64 ?v"
    using uint_sint [of b] by (simp add: x_def take_bit_eq_mod mod_simps)
  finally have "?s mod 2 ^ 64 = ?v mod 2 ^ 64" by (simp only: take_bit_eq_mod)
  moreover have "?s mod 2 ^ 64 = ?s" using assms(2) sint64_bounds [of "a + b"] by simp
  moreover have "?v mod 2 ^ 64 = (if 0 \<le> ?v then ?v else ?v + 2 ^ 64)"
  proof (cases "0 \<le> ?v")
    case True
    then show ?thesis using x sint64_bounds [of b] by simp
  next
    case False
    have "(?v + 2 ^ 64) mod 2 ^ 64 = ?v + 2 ^ 64"
      using False x sint64_bounds [of b] by (intro mod_pos_pos_trivial) simp_all
    then show ?thesis using False by simp
  qed
  ultimately show ?thesis
    using x sint64_bounds [of b] sint64_bounds [of "a + b"] unfolding x_def [symmetric]
    by (simp split: if_splits)
qed

section \<open>Aligned buffers\<close>

text \<open>
  \<^verbatim>\<open>Layout::from_size_align(len, align).unwrap()\<close> panics unless the alignment is a power
  of two and the rounded size fits \<^verbatim>\<open>isize\<close>. The allocation itself is taken to succeed.
\<close>

definition is_power_of_two :: "nat \<Rightarrow> bool" where
  "is_power_of_two n \<longleftrightarrow> n \<noteq> 0 \<and> n AND (n - 1) = 0"

definition layout_ok :: "nat \<Rightarrow> nat \<Rightarrow> bool" where
  "layout_ok len align \<longleftrightarrow> is_power_of_two align \<and> len + align \<le> 2 ^ 63"

definition alloc_aligned :: "nat \<Rightarrow> nat \<Rightarrow> ('e, u8 list) outcome" where
  "alloc_aligned len align = (if layout_ok len align then Ok (replicate len 0) else Panic)"

lemma alloc_aligned_Ok_iff [ok_iff]:
  "alloc_aligned len align = Ok buf \<longleftrightarrow> layout_ok len align \<and> buf = replicate len 0"
  by (auto simp: alloc_aligned_def)

lemma alloc_aligned_not_Err [simp]: "alloc_aligned len align \<noteq> Err e"
  by (simp add: alloc_aligned_def)

end
