(* ===== verification/Opal_Consts.thy ===== *)
theory Opal_Consts imports Prelude begin

text \<open>
  The token values and object identifiers of \<^verbatim>\<open>opal/src/defs.rs\<close>: the structs
  \<^verbatim>\<open>SimpleToken\<close> and \<^verbatim>\<open>BS8\<close> (their debug name exists only with
  \<^verbatim>\<open>debug_assertions\<close>), every constant of the modules \<^verbatim>\<open>method\<close>, \<^verbatim>\<open>uid\<close>, \<^verbatim>\<open>token\<close>,
  \<^verbatim>\<open>tiny_atom\<close> and \<^verbatim>\<open>short_atom\<close>, and the enums \<^verbatim>\<open>LockingState\<close>, \<^verbatim>\<open>StatusCode\<close>
  and \<^verbatim>\<open>OpalError\<close>. A constant keeps its name, prefixed by its module.
\<close>

named_theorems opal_consts \<open>definitions of the protocol's constants\<close>

record simple_token =
  token :: u8

record bs8 =
  bytes :: "u8 list"

text \<open>The macros \<^verbatim>\<open>simple_tokens!\<close> and \<^verbatim>\<open>bytestrings!\<close>: a byte, and \<^verbatim>\<open>u64::to_be_bytes\<close>.\<close>

definition simple_tokens :: "u8 \<Rightarrow> simple_token" where
  "simple_tokens v = \<lparr>token = v\<rparr>"

definition bytestrings :: "u64 \<Rightarrow> bs8" where
  "bytestrings u = \<lparr>bytes = be_bytes 8 (unat u)\<rparr>"

text \<open>\<^verbatim>\<open>SimpleToken::new\<close> and \<^verbatim>\<open>BS8::new\<close> without the debug name.\<close>

definition simple_token_new :: "u8 \<Rightarrow> simple_token" where
  "simple_token_new t = \<lparr>token = t\<rparr>"

definition bs8_new :: "u8 list \<Rightarrow> bs8" where
  "bs8_new bs = \<lparr>bytes = bs\<rparr>"

lemma token_simple_tokens [simp]: "token (simple_tokens v) = v"
  by (simp add: simple_tokens_def)

lemma length_bytestrings [simp]: "length (bytes (bytestrings u)) = 8"
  by (simp add: bytestrings_def del: le_bytes_numeral)

section \<open>Constants\<close>

definition method_PROPERTIES :: bs8 where [opal_consts]: "method_PROPERTIES = bytestrings 0xFF01"
definition method_STARTSESSION :: bs8 where [opal_consts]: "method_STARTSESSION = bytestrings 0xFF02"
definition method_REVERT :: bs8 where [opal_consts]: "method_REVERT = bytestrings 0x600000202"
definition method_ACTIVATE :: bs8 where [opal_consts]: "method_ACTIVATE = bytestrings 0x600000203"
definition method_EGET :: bs8 where [opal_consts]: "method_EGET = bytestrings 0x600000006"
definition method_ESET :: bs8 where [opal_consts]: "method_ESET = bytestrings 0x600000007"
definition method_NEXT :: bs8 where [opal_consts]: "method_NEXT = bytestrings 0x600000008"
definition method_EAUTHENTICATE :: bs8 where [opal_consts]: "method_EAUTHENTICATE = bytestrings 0x60000000C"
definition method_GETACL :: bs8 where [opal_consts]: "method_GETACL = bytestrings 0x60000000D"
definition method_GENKEY :: bs8 where [opal_consts]: "method_GENKEY = bytestrings 0x600000010"
definition method_REVERTSP :: bs8 where [opal_consts]: "method_REVERTSP = bytestrings 0x600000011"
definition method_GET :: bs8 where [opal_consts]: "method_GET = bytestrings 0x600000016"
definition method_SET :: bs8 where [opal_consts]: "method_SET = bytestrings 0x600000017"
definition method_AUTHENTICATE :: bs8 where [opal_consts]: "method_AUTHENTICATE = bytestrings 0x60000001C"
definition method_RANDOM :: bs8 where [opal_consts]: "method_RANDOM = bytestrings 0x600000601"
definition method_ERASE :: bs8 where [opal_consts]: "method_ERASE = bytestrings 0x600000803"
definition uid_OPAL_SMUID :: bs8 where [opal_consts]: "uid_OPAL_SMUID = bytestrings 0xFF"
definition uid_OPAL_THISSP :: bs8 where [opal_consts]: "uid_OPAL_THISSP = bytestrings 0x1"
definition uid_OPAL_ADMINSP :: bs8 where [opal_consts]: "uid_OPAL_ADMINSP = bytestrings 0x20500000001"
definition uid_OPAL_LOCKINGSP :: bs8 where [opal_consts]: "uid_OPAL_LOCKINGSP = bytestrings 0x20500000002"
definition uid_ENTERPRISE_LOCKINGSP :: bs8 where [opal_consts]: "uid_ENTERPRISE_LOCKINGSP = bytestrings 0x20500010001"
definition uid_OPAL_ANYBODY :: bs8 where [opal_consts]: "uid_OPAL_ANYBODY = bytestrings 0x900000001"
definition uid_OPAL_SID :: bs8 where [opal_consts]: "uid_OPAL_SID = bytestrings 0x900000006"
definition uid_OPAL_ADMIN1 :: bs8 where [opal_consts]: "uid_OPAL_ADMIN1 = bytestrings 0x900010001"
definition uid_OPAL_USER1 :: bs8 where [opal_consts]: "uid_OPAL_USER1 = bytestrings 0x900030001"
definition uid_OPAL_USER2 :: bs8 where [opal_consts]: "uid_OPAL_USER2 = bytestrings 0x900030002"
definition uid_OPAL_PSID :: bs8 where [opal_consts]: "uid_OPAL_PSID = bytestrings 0x90001FF01"
definition uid_ENTERPRISE_BANDMASTER0 :: bs8 where [opal_consts]: "uid_ENTERPRISE_BANDMASTER0 = bytestrings 0x900008001"
definition uid_ENTERPRISE_ERASEMASTER :: bs8 where [opal_consts]: "uid_ENTERPRISE_ERASEMASTER = bytestrings 0x900008401"
definition uid_OPAL_LOCKINGRANGE_GLOBAL :: bs8 where [opal_consts]: "uid_OPAL_LOCKINGRANGE_GLOBAL = bytestrings 0x80200000001"
definition uid_OPAL_LOCKINGRANGE_ACE_RDLOCKED :: bs8 where [opal_consts]: "uid_OPAL_LOCKINGRANGE_ACE_RDLOCKED = bytestrings 0x80003E001"
definition uid_OPAL_LOCKINGRANGE_ACE_WRLOCKED :: bs8 where [opal_consts]: "uid_OPAL_LOCKINGRANGE_ACE_WRLOCKED = bytestrings 0x80003E801"
definition uid_OPAL_LOCKINGRANGE_GLOBAL_ACE_RDLOCKED :: bs8 where [opal_consts]: "uid_OPAL_LOCKINGRANGE_GLOBAL_ACE_RDLOCKED = bytestrings 0x80003E000"
definition uid_OPAL_LOCKINGRANGE_GLOBAL_ACE_WRLOCKED :: bs8 where [opal_consts]: "uid_OPAL_LOCKINGRANGE_GLOBAL_ACE_WRLOCKED = bytestrings 0x80003E800"
definition uid_OPAL_MBRCONTROL_SET_DONE_TO_DOR :: bs8 where [opal_consts]: "uid_OPAL_MBRCONTROL_SET_DONE_TO_DOR = bytestrings 0x80003F801"
definition uid_OPAL_MBRCONTROL :: bs8 where [opal_consts]: "uid_OPAL_MBRCONTROL = bytestrings 0x80300000001"
definition uid_OPAL_MBR :: bs8 where [opal_consts]: "uid_OPAL_MBR = bytestrings 0x80400000000"
definition uid_OPAL_AUTHORITY_TABLE :: bs8 where [opal_consts]: "uid_OPAL_AUTHORITY_TABLE = bytestrings 0x900000000"
definition uid_OPAL_C_PIN_TABLE :: bs8 where [opal_consts]: "uid_OPAL_C_PIN_TABLE = bytestrings 0xB00000000"
definition uid_OPAL_LOCKING_INFO_TABLE :: bs8 where [opal_consts]: "uid_OPAL_LOCKING_INFO_TABLE = bytestrings 0x80100000001"
definition uid_ENTERPRISE_LOCKING_INFO_TABLE :: bs8 where [opal_consts]: "uid_ENTERPRISE_LOCKING_INFO_TABLE = bytestrings 0x80100000000"
definition uid_OPAL_C_PIN_MSID :: bs8 where [opal_consts]: "uid_OPAL_C_PIN_MSID = bytestrings 0xB00008402"
definition uid_OPAL_C_PIN_SID :: bs8 where [opal_consts]: "uid_OPAL_C_PIN_SID = bytestrings 0xB00000001"
definition uid_OPAL_C_PIN_ADMIN1 :: bs8 where [opal_consts]: "uid_OPAL_C_PIN_ADMIN1 = bytestrings 0xB00010001"
definition uid_OPAL_HALF_UID_AUTHORITY_OBJ_REF :: bs8 where [opal_consts]: "uid_OPAL_HALF_UID_AUTHORITY_OBJ_REF = bytestrings 0xC05FFFFFFFF"
definition uid_OPAL_HALF_UID_BOOLEAN_ACE :: bs8 where [opal_consts]: "uid_OPAL_HALF_UID_BOOLEAN_ACE = bytestrings 0x40EFFFFFFFF"
definition uid_OPAL_UID_HEXFF :: bs8 where [opal_consts]: "uid_OPAL_UID_HEXFF = bytestrings 0xFFFFFFFFFFFFFFFF"
definition token_OPAL_TRUE :: simple_token where [opal_consts]: "token_OPAL_TRUE = simple_tokens 0x01"
definition token_OPAL_FALSE :: simple_token where [opal_consts]: "token_OPAL_FALSE = simple_tokens 0x00"
definition token_OPAL_BOOLEAN_EXPR :: simple_token where [opal_consts]: "token_OPAL_BOOLEAN_EXPR = simple_tokens 0x03"
definition token_TABLE :: simple_token where [opal_consts]: "token_TABLE = simple_tokens 0x00"
definition token_STARTROW :: simple_token where [opal_consts]: "token_STARTROW = simple_tokens 0x01"
definition token_ENDROW :: simple_token where [opal_consts]: "token_ENDROW = simple_tokens 0x02"
definition token_STARTCOLUMN :: simple_token where [opal_consts]: "token_STARTCOLUMN = simple_tokens 0x03"
definition token_ENDCOLUMN :: simple_token where [opal_consts]: "token_ENDCOLUMN = simple_tokens 0x04"
definition token_VALUES :: simple_token where [opal_consts]: "token_VALUES = simple_tokens 0x01"
definition token_PIN :: simple_token where [opal_consts]: "token_PIN = simple_tokens 0x03"
definition token_RANGESTART :: simple_token where [opal_consts]: "token_RANGESTART = simple_tokens 0x03"
definition token_RANGELENGTH :: simple_token where [opal_consts]: "token_RANGELENGTH = simple_tokens 0x04"
definition token_READLOCKENABLED :: simple_token where [opal_consts]: "token_READLOCKENABLED = simple_tokens 0x05"
definition token_WRITELOCKENABLED :: simple_token where [opal_consts]: "token_WRITELOCKENABLED = simple_tokens 0x06"
definition token_READLOCKED :: simple_token where [opal_consts]: "token_READLOCKED = simple_tokens 0x07"
definition token_WRITELOCKED :: simple_token where [opal_consts]: "token_WRITELOCKED = simple_tokens 0x08"
definition token_ACTIVEKEY :: simple_token where [opal_consts]: "token_ACTIVEKEY = simple_tokens 0x0A"
definition token_MAXRANGES :: simple_token where [opal_consts]: "token_MAXRANGES = simple_tokens 0x04"
definition token_MBRENABLE :: simple_token where [opal_consts]: "token_MBRENABLE = simple_tokens 0x01"
definition token_MBRDONE :: simple_token where [opal_consts]: "token_MBRDONE = simple_tokens 0x02"
definition token_HOSTPROPERTIES :: simple_token where [opal_consts]: "token_HOSTPROPERTIES = simple_tokens 0x00"
definition token_DTA_TOKENID_BYTESTRING :: simple_token where [opal_consts]: "token_DTA_TOKENID_BYTESTRING = simple_tokens 0xE0"
definition token_DTA_TOKENID_SINT :: simple_token where [opal_consts]: "token_DTA_TOKENID_SINT = simple_tokens 0xE1"
definition token_DTA_TOKENID_UINT :: simple_token where [opal_consts]: "token_DTA_TOKENID_UINT = simple_tokens 0xE2"
definition token_DTA_TOKENID_TOKEN :: simple_token where [opal_consts]: "token_DTA_TOKENID_TOKEN = simple_tokens 0xE3"
definition token_STARTLIST :: simple_token where [opal_consts]: "token_STARTLIST = simple_tokens 0xF0"
definition token_ENDLIST :: simple_token where [opal_consts]: "token_ENDLIST = simple_tokens 0xF1"
definition token_STARTNAME :: simple_token where [opal_consts]: "token_STARTNAME = simple_tokens 0xF2"
definition token_ENDNAME :: simple_token where [opal_consts]: "token_ENDNAME = simple_tokens 0xF3"
definition token_CALL :: simple_token where [opal_consts]: "token_CALL = simple_tokens 0xF8"
definition token_ENDOFDATA :: simple_token where [opal_consts]: "token_ENDOFDATA = simple_tokens 0xF9"
definition token_ENDOFSESSION :: simple_token where [opal_consts]: "token_ENDOFSESSION = simple_tokens 0xFA"
definition token_STARTTRANSACTON :: simple_token where [opal_consts]: "token_STARTTRANSACTON = simple_tokens 0xFB"
definition token_ENDTRANSACTON :: simple_token where [opal_consts]: "token_ENDTRANSACTON = simple_tokens 0xFC"
definition token_EMPTYATOM :: simple_token where [opal_consts]: "token_EMPTYATOM = simple_tokens 0xFF"
definition token_WHERE :: simple_token where [opal_consts]: "token_WHERE = simple_tokens 0x00"
definition tiny_UINT_00 :: simple_token where [opal_consts]: "tiny_UINT_00 = simple_tokens 0x00"
definition tiny_UINT_01 :: simple_token where [opal_consts]: "tiny_UINT_01 = simple_tokens 0x01"
definition tiny_UINT_02 :: simple_token where [opal_consts]: "tiny_UINT_02 = simple_tokens 0x02"
definition tiny_UINT_03 :: simple_token where [opal_consts]: "tiny_UINT_03 = simple_tokens 0x03"
definition tiny_UINT_04 :: simple_token where [opal_consts]: "tiny_UINT_04 = simple_tokens 0x04"
definition tiny_UINT_05 :: simple_token where [opal_consts]: "tiny_UINT_05 = simple_tokens 0x05"
definition tiny_UINT_06 :: simple_token where [opal_consts]: "tiny_UINT_06 = simple_tokens 0x06"
definition tiny_UINT_07 :: simple_token where [opal_consts]: "tiny_UINT_07 = simple_tokens 0x07"
definition tiny_UINT_08 :: simple_token where [opal_consts]: "tiny_UINT_08 = simple_tokens 0x08"
definition tiny_UINT_09 :: simple_token where [opal_consts]: "tiny_UINT_09 = simple_tokens 0x09"
definition tiny_UINT_10 :: simple_token where [opal_consts]: "tiny_UINT_10 = simple_tokens 0x0A"
definition tiny_UINT_11 :: simple_token where [opal_consts]: "tiny_UINT_11 = simple_tokens 0x0B"
definition tiny_UINT_12 :: simple_token where [opal_consts]: "tiny_UINT_12 = simple_tokens 0x0C"
definition tiny_UINT_13 :: simple_token where [opal_consts]: "tiny_UINT_13 = simple_tokens 0x0D"
definition tiny_UINT_14 :: simple_token where [opal_consts]: "tiny_UINT_14 = simple_tokens 0x0E"
definition tiny_UINT_15 :: simple_token where [opal_consts]: "tiny_UINT_15 = simple_tokens 0x0F"
definition short_UINT_3 :: simple_token where [opal_consts]: "short_UINT_3 = simple_tokens 0x83"
definition short_BYTESTRING4 :: simple_token where [opal_consts]: "short_BYTESTRING4 = simple_tokens 0xA4"
definition short_BYTESTRING8 :: simple_token where [opal_consts]: "short_BYTESTRING8 = simple_tokens 0xA8"

section \<open>Enums\<close>

datatype locking_state = ReadWrite | ReadOnly | Locked | ArchiveLocked | ArchiveUnlocked

fun locking_state_u8 :: "locking_state \<Rightarrow> u8" where
  "locking_state_u8 ReadWrite = 0x01"
| "locking_state_u8 ReadOnly = 0x02"
| "locking_state_u8 Locked = 0x03"
| "locking_state_u8 ArchiveLocked = 0x04"
| "locking_state_u8 ArchiveUnlocked = 0x05"

text \<open>
  \<^verbatim>\<open>newtype_enum!\<close> makes \<^verbatim>\<open>StatusCode\<close> a wrapper of a byte with named values, so every
  byte is a status code.
\<close>

datatype status_code = StatusCode u8

definition SUCCESS :: status_code where "SUCCESS = StatusCode 0x00"
definition NOT_AUTHORIZED :: status_code where "NOT_AUTHORIZED = StatusCode 0x01"
definition SP_BUSY :: status_code where "SP_BUSY = StatusCode 0x03"
definition SP_FAILED :: status_code where "SP_FAILED = StatusCode 0x04"
definition SP_DISABLED :: status_code where "SP_DISABLED = StatusCode 0x05"
definition SP_FROZEN :: status_code where "SP_FROZEN = StatusCode 0x06"
definition NO_SESSIONS_AVAILABLE :: status_code where "NO_SESSIONS_AVAILABLE = StatusCode 0x07"
definition UNIQUENESS_CONFLICT :: status_code where "UNIQUENESS_CONFLICT = StatusCode 0x08"
definition INSUFFICIENT_SPACE :: status_code where "INSUFFICIENT_SPACE = StatusCode 0x09"
definition INSUFFICIENT_ROWS :: status_code where "INSUFFICIENT_ROWS = StatusCode 0x0A"
definition INVALID_FUNCTION :: status_code where "INVALID_FUNCTION = StatusCode 0x0B"
definition INVALID_PARAMETER :: status_code where "INVALID_PARAMETER = StatusCode 0x0C"
definition INVALID_REFERENCE :: status_code where "INVALID_REFERENCE = StatusCode 0x0D"
definition TPER_MALFUNCTION :: status_code where "TPER_MALFUNCTION = StatusCode 0x0F"
definition TRANSACTION_FAILURE :: status_code where "TRANSACTION_FAILURE = StatusCode 0x10"
definition RESPONSE_OVERFLOW :: status_code where "RESPONSE_OVERFLOW = StatusCode 0x11"
definition AUTHORITY_LOCKED_OUT :: status_code where "AUTHORITY_LOCKED_OUT = StatusCode 0x12"
definition FAIL :: status_code where "FAIL = StatusCode 0x3F"

datatype opal_error = Status status_code | NoMethodStatus

text \<open>\<^verbatim>\<open>impl From<bool> for SimpleToken\<close>.\<close>

definition simple_token_of_bool :: "bool \<Rightarrow> simple_token" where
  "simple_token_of_bool b = (if b then token_OPAL_TRUE else token_OPAL_FALSE)"

end
