(* ===== verification/Tokens.thy ===== *)
theory Tokens imports Opal_Consts begin

text \<open>
  The token writer of \<^verbatim>\<open>opal/src/defs.rs\<close>: the implementations of the trait \<^verbatim>\<open>Token\<close>
  as one datatype with a constructor per implementing type, \<open>write_token\<close> and
  \<^verbatim>\<open>write_bare\<close> over it, and the macros \<^verbatim>\<open>tokens!\<close>, \<^verbatim>\<open>token_list!\<close> and
  \<^verbatim>\<open>token_name!\<close>. (\<^verbatim>\<open>write\<close> is a word
  of Isabelle's own language, hence the longer name \<open>write_token\<close>.)
\<close>

section \<open>The writers\<close>

datatype token_stream = TokenStream "u8 list option"

definition token_stream_empty :: token_stream where
  "token_stream_empty = TokenStream None"

datatype tok =
    Simple simple_token
  | Bs8 bs8
  | Stream token_stream
  | U64 u64
  | Bytes "u8 list"
  | Locking locking_state
  | Name tok tok
  | List toks
and toks = TokensNil | TokensCons tok toks

definition write_simple :: "simple_token \<Rightarrow> u8 list \<Rightarrow> u8 list" where
  "write_simple t buffer = buffer @ [token t]"

definition write_bs8 :: "bs8 \<Rightarrow> u8 list \<Rightarrow> u8 list" where
  "write_bs8 b buffer = write_simple short_BYTESTRING8 buffer @ bytes b"

fun write_stream :: "token_stream \<Rightarrow> u8 list \<Rightarrow> u8 list" where
  "write_stream (TokenStream (Some x)) buffer = buffer @ x"
| "write_stream (TokenStream None) buffer = buffer"

text \<open>\<^verbatim>\<open>while startat > -1 { buffer.push(..); startat -= 1; }\<close>\<close>

function write_u64_loop :: "u64 \<Rightarrow> int \<Rightarrow> u8 list \<Rightarrow> u8 list" where
  "write_u64_loop v startat buffer =
     (if startat > -1
      then write_u64_loop v (startat - 1) (buffer @ [ucast (drop_bit (nat (startat * 8)) v AND 0xFF)])
      else buffer)"
  by pat_completeness auto
termination
  by (relation "measure (\<lambda>(v, startat, buffer). nat (startat + 1))") auto

declare write_u64_loop.simps [simp del]

definition write_u64 :: "u64 \<Rightarrow> u8 list \<Rightarrow> u8 list" where
  "write_u64 v buffer =
     (if v < 64 then buffer @ [ucast v AND 0b00111111]
      else if v < 0x100 then write_u64_loop v 0 (buffer @ [0x81])
      else if v < 0x10000 then write_u64_loop v 1 (buffer @ [0x82])
      else if v < 0x100000000 then write_u64_loop v 3 (buffer @ [0x84])
      else write_u64_loop v 7 (buffer @ [0x88]))"

text \<open>
  \<^verbatim>\<open>self.len()\<close> is a 64-bit number; \<open>len64\<close> is its machine word, so that the bit
  operations below are the code's.
\<close>

definition write_bytes :: "u8 list \<Rightarrow> u8 list \<Rightarrow> ('e, u8 list) outcome" where
  "write_bytes bs buffer =
     (let len64 = (word_of_nat (length bs) :: u64) in
      if bs = [] then Ok (buffer @ [0xA1] @ [0x00] @ bs)
      else if length bs < 16 then Ok (buffer @ [ucast (len64 OR 0xA0)] @ bs)
      else if length bs < 2048 then
        Ok (buffer @ [0xD0 OR ucast (drop_bit 8 len64 AND 0x07)] @ [ucast (len64 AND 0xff)] @ bs)
      else Panic)"

definition write_locking_state :: "locking_state \<Rightarrow> u8 list \<Rightarrow> u8 list" where
  "write_locking_state s buffer = buffer @ [locking_state_u8 s]"

fun write_token :: "tok \<Rightarrow> u8 list \<Rightarrow> ('e, u8 list) outcome"
  and write_bare :: "toks \<Rightarrow> u8 list \<Rightarrow> ('e, u8 list) outcome" where
  "write_token (Simple t) buffer = Ok (write_simple t buffer)"
| "write_token (Bs8 b) buffer = Ok (write_bs8 b buffer)"
| "write_token (Stream s) buffer = Ok (write_stream s buffer)"
| "write_token (U64 v) buffer = Ok (write_u64 v buffer)"
| "write_token (Bytes bs) buffer = write_bytes bs buffer"
| "write_token (Locking s) buffer = Ok (write_locking_state s buffer)"
| "write_token (Name k v) buffer =
     obind (write_token k (write_simple token_STARTNAME buffer)) (\<lambda>buffer.
     obind (write_token v buffer) (\<lambda>buffer.
     Ok (write_simple token_ENDNAME buffer)))"
| "write_token (List TokensNil) buffer =
     Ok (write_simple token_ENDLIST (write_simple token_STARTLIST buffer))"
| "write_token (List (TokensCons t r)) buffer =
     obind (write_bare r (write_simple token_STARTLIST buffer)) (\<lambda>buffer.
     obind (write_token t buffer) (\<lambda>buffer.
     Ok (write_simple token_ENDLIST buffer)))"
| "write_bare TokensNil buffer = Ok buffer"
| "write_bare (TokensCons t r) buffer =
     obind (write_bare r buffer) (\<lambda>buffer. write_token t buffer)"

text \<open>\<^verbatim>\<open>Token::to_token_stream\<close>, \<^verbatim>\<open>TokenList::to_bare_token_stream\<close>, \<^verbatim>\<open>TokensPush::push\<close>.\<close>

definition to_token_stream :: "tok \<Rightarrow> ('e, token_stream) outcome" where
  "to_token_stream t = obind (write_token t []) (\<lambda>res. Ok (TokenStream (Some res)))"

definition to_bare_token_stream :: "toks \<Rightarrow> ('e, token_stream) outcome" where
  "to_bare_token_stream ts = obind (write_bare ts []) (\<lambda>res. Ok (TokenStream (Some res)))"

definition tokens_push :: "toks \<Rightarrow> tok \<Rightarrow> toks" where
  "tokens_push ts t = TokensCons t ts"

text \<open>The macros, on the list of their arguments.\<close>

definition token_list :: "tok list \<Rightarrow> ('e, token_stream) outcome" where
  "token_list ts = to_token_stream (List (foldl tokens_push TokensNil ts))"

definition token_name :: "tok \<Rightarrow> tok \<Rightarrow> ('e, token_stream) outcome" where
  "token_name k v = to_token_stream (Name k v)"

fun tokens :: "tok list \<Rightarrow> ('e, token_stream) outcome" where
  "tokens [] = Ok token_stream_empty"
| "tokens [t] = to_token_stream t"
| "tokens ts = to_bare_token_stream (foldl tokens_push TokensNil ts)"

end
