(* ===== verification/Atoms.thy ===== *)
theory Atoms imports Tokens begin

text \<open>
  An abstract specification of the wire format: \<open>decode_atom\<close> is the atom grammar of
  the storage protocol (tiny, short, medium and long atoms, control tokens),
  \<open>carries\<close> says which atoms a byte string spells, and \<open>says\<close> which atoms a token
  stands for. The writers of \<^verbatim>\<open>opal/src/defs.rs\<close> refine it: whatever a token stands
  for is what its bytes spell.
\<close>

datatype atom = Uint nat | Bstr "u8 list" | Ctl u8

definition sized :: "nat \<Rightarrow> 'a \<Rightarrow> u8 list \<Rightarrow> 'a option" where
  "sized n a r = (if length r = n then Some a else None)"

text \<open>
  Signed atoms are outside the grammar: the program never writes one, and the reader
  refuses them.
\<close>

definition decode_atom :: "u8 list \<Rightarrow> atom option" where
  "decode_atom c = (case c of [] \<Rightarrow> None | h # r \<Rightarrow>
     (if h AND 0x80 = 0 then
        (if h AND 0x40 = 0 then sized 0 (Uint (unat (h AND 0x3f))) r else None)
      else if h AND 0x40 = 0 then
        (if h AND 0x20 \<noteq> 0 then sized (unat (h AND 0x0f)) (Bstr r) r
         else if h AND 0x10 = 0 then sized (unat (h AND 0x0f)) (Uint (be_nat r)) r
         else None)
      else if h AND 0x20 = 0 then
        (case r of [] \<Rightarrow> None | l # r' \<Rightarrow>
           if h AND 0x10 \<noteq> 0 then sized (unat (h AND 0x07) * 256 + unat l) (Bstr r') r' else None)
      else if h AND 0x10 = 0 then
        (case r of l2 # l1 # l0 # r' \<Rightarrow>
           if h AND 0x02 \<noteq> 0 then sized (be_nat [l2, l1, l0]) (Bstr r') r' else None
         | _ \<Rightarrow> None)
      else sized 0 (Ctl h) r))"

lemma sized_Some_iff [simp]: "sized n a r = Some b \<longleftrightarrow> length r = n \<and> b = a"
  by (auto simp: sized_def)

lemma decode_atom_Nil [simp]: "decode_atom [] = None"
  by (simp add: decode_atom_def)

definition carries :: "u8 list \<Rightarrow> atom list \<Rightarrow> bool" where
  "carries bs as \<longleftrightarrow> (\<exists>cs. bs = concat cs \<and> map decode_atom cs = map Some as)"

lemma carries_Nil [simp, intro]: "carries [] []"
  by (auto simp: carries_def)

lemma carries_append: "carries xs as \<Longrightarrow> carries ys bs \<Longrightarrow> carries (xs @ ys) (as @ bs)"
  unfolding carries_def by (metis concat_append map_append)

lemma carries_atom: "decode_atom c = Some a \<Longrightarrow> carries c [a]"
  unfolding carries_def by (rule exI [of _ "[c]"]) simp

lemma carries_Cons: "decode_atom [b] = Some a \<Longrightarrow> carries bs as \<Longrightarrow> carries (b # bs) (a # as)"
  using carries_append [OF carries_atom] by fastforce

lemma carries_ConsE:
  assumes "carries bs (a # as)"
  obtains c rest where "bs = c @ rest" "decode_atom c = Some a" "carries rest as"
proof -
  from assms obtain c cs where "bs = concat (c # cs)" "decode_atom c = Some a"
    "map decode_atom cs = map Some as"
    unfolding carries_def by (auto simp: map_eq_Cons_conv)
  then show ?thesis by (intro that [of c "concat cs"]) (auto simp: carries_def)
qed

lemma carries_Nil_iff [simp]: "carries bs [] \<longleftrightarrow> bs = []"
  by (auto simp: carries_def)

section \<open>What a token stands for\<close>

fun stream_says :: "token_stream \<Rightarrow> atom list \<Rightarrow> bool" where
  "stream_says (TokenStream None) as \<longleftrightarrow> as = []"
| "stream_says (TokenStream (Some bs)) as \<longleftrightarrow> carries bs as"

text \<open>The empty byte string is written as the one-byte string \<open>[0]\<close>, the code's null token.\<close>

inductive says :: "tok \<Rightarrow> atom list \<Rightarrow> bool"
  and says_bare :: "toks \<Rightarrow> atom list \<Rightarrow> bool" where
  Simple: "decode_atom [token t] = Some a \<Longrightarrow> says (Simple t) [a]"
| Bs8: "length (bytes b) = 8 \<Longrightarrow> says (Bs8 b) [Bstr (bytes b)]"
| Stream: "stream_says s as \<Longrightarrow> says (Stream s) as"
| U64: "says (U64 v) [Uint (unat v)]"
| Null: "says (Bytes []) [Bstr [0]]"
| Bytes: "bs \<noteq> [] \<Longrightarrow> length bs < 2048 \<Longrightarrow> says (Bytes bs) [Bstr bs]"
| Locking: "says (Locking s) [Uint (unat (locking_state_u8 s))]"
| Name: "says k as \<Longrightarrow> says v bs \<Longrightarrow> says (Name k v) (Ctl 0xF2 # as @ bs @ [Ctl 0xF3])"
| List: "says_bare ts as \<Longrightarrow> says (List ts) (Ctl 0xF0 # as @ [Ctl 0xF1])"
| Nil: "says_bare TokensNil []"
| Cons: "says_bare r as \<Longrightarrow> says t bs \<Longrightarrow> says_bare (TokensCons t r) (as @ bs)"

section \<open>Integers\<close>

lemma unat_low_byte: "unat (ucast (w AND 0xFF) :: u8) = unat (w :: u64) mod 256"
proof -
  have "w AND 0xFF = take_bit 8 w"
    by (simp add: take_bit_eq_mask mask_eq_exp_minus_1)
  then have "(ucast (w AND 0xFF) :: u8) = ucast w"
    by (intro bit_word_eqI) (simp add: bit_simps)
  then show ?thesis by (simp add: unsigned_ucast_eq take_bit_eq_mod)
qed

lemma u64_byte:
  "ucast (drop_bit (8 * k) v AND 0xFF) = (word_of_nat (unat (v :: u64) div 256 ^ k) :: u8)"
proof -
  have "unat (drop_bit (8 * k) v) = unat v div 256 ^ k"
    by (simp only: unat_drop_bit_eq) (simp add: drop_bit_eq_div power_mult)
  then have "unat (ucast (drop_bit (8 * k) v AND 0xFF) :: u8) = unat v div 256 ^ k mod 256"
    by (simp only: unat_low_byte)
  then show ?thesis
    unfolding word_unat_eq_iff unat_byte_of_nat .
qed

lemma le_bytes_snoc: "le_bytes (Suc k) n = le_bytes k n @ [word_of_nat (n div 256 ^ k)]"
  by (induction k arbitrary: n) (simp_all add: div_mult2_eq)

lemma be_bytes_Suc: "be_bytes (Suc k) n = word_of_nat (n div 256 ^ k) # be_bytes k n"
  by (simp add: be_bytes_def le_bytes_snoc del: le_bytes.simps)

lemma write_u64_loop_eq:
  "write_u64_loop v (int n - 1) buffer = buffer @ be_bytes n (unat v)"
proof (induction n arbitrary: buffer)
  case 0
  then show ?case by (simp add: write_u64_loop.simps be_bytes_def)
next
  case (Suc n)
  have "nat (int n * 8) = 8 * n" by simp
  then have "write_u64_loop v (int n) buffer =
      write_u64_loop v (int n - 1) (buffer @ [word_of_nat (unat v div 256 ^ n)])"
    by (subst write_u64_loop.simps) (simp add: u64_byte)
  then show ?case by (simp add: Suc be_bytes_Suc)
qed

lemma write_u64_loop_numeral:
  "write_u64_loop v 0 buffer = buffer @ be_bytes 1 (unat v)"
  "write_u64_loop v 1 buffer = buffer @ be_bytes 2 (unat v)"
  "write_u64_loop v 3 buffer = buffer @ be_bytes 4 (unat v)"
  "write_u64_loop v 7 buffer = buffer @ be_bytes 8 (unat v)"
  using write_u64_loop_eq [of v 1 buffer] write_u64_loop_eq [of v 2 buffer]
    write_u64_loop_eq [of v 4 buffer] write_u64_loop_eq [of v 8 buffer]
  by (simp_all del: le_bytes_numeral)

lemma write_u64_tiny: "v < 64 \<Longrightarrow> unat (ucast v AND 0b00111111 :: u8) = unat (v :: u64)"
proof -
  assume "v < 64"
  then have lt: "unat v < 64" by (simp add: word_less_nat_alt)
  have "(ucast v AND 0b00111111 :: u8) = take_bit 6 (ucast v)"
    by (simp add: take_bit_eq_mask mask_eq_exp_minus_1)
  then show ?thesis using lt
    by (simp add: unsigned_take_bit_eq unsigned_ucast_eq take_bit_nat_eq_self)
qed

lemma decode_uint:
  assumes "length r = n" "n \<in> {1, 2, 4, 8}"
  shows "decode_atom ((0x80 OR word_of_nat n) # r) = Some (Uint (be_nat r))"
  using assms by (auto simp: decode_atom_def)

lemma unat64_bound: "unat (v :: u64) < 2 ^ 64"
  using unsigned_less [of v] by simp

lemma unat_u64_mod:
  "v < 0x100 \<Longrightarrow> unat (v :: u64) mod 256 ^ 1 = unat v"
  "v < 0x10000 \<Longrightarrow> unat v mod 256 ^ 2 = unat v"
  "v < 0x100000000 \<Longrightarrow> unat v mod 256 ^ 4 = unat v"
  "unat v mod 256 ^ 8 = unat v"
  using unat64_bound [of v] by (auto simp: word_less_nat_alt)

definition u64_atom :: "u64 \<Rightarrow> u8 list" where
  "u64_atom v =
     (if v < 64 then [ucast v AND 0b00111111]
      else if v < 0x100 then 0x81 # be_bytes 1 (unat v)
      else if v < 0x10000 then 0x82 # be_bytes 2 (unat v)
      else if v < 0x100000000 then 0x84 # be_bytes 4 (unat v)
      else 0x88 # be_bytes 8 (unat v))"

lemma write_u64_eq: "write_u64 v buffer = buffer @ u64_atom v"
  by (simp add: write_u64_def u64_atom_def write_u64_loop_numeral del: le_bytes_numeral)

lemma decode_u64_atom: "decode_atom (u64_atom v) = Some (Uint (unat v))"
proof (cases "v < 64")
  case True
  let ?c = "ucast v AND 0b00111111 :: u8"
  have "decode_atom [?c] = Some (Uint (unat v))"
    using write_u64_tiny [OF True] by (simp add: decode_atom_def and.assoc)
  with True show ?thesis by (simp add: u64_atom_def)
next
  case False
  define n where "n = (if v < 0x100 then 1 else if v < 0x10000 then 2 else if v < 0x100000000 then 4 else 8 :: nat)"
  have "u64_atom v = (0x80 OR word_of_nat n) # be_bytes n (unat v)"
    using False by (simp add: u64_atom_def n_def del: le_bytes_numeral)
  moreover have "be_nat (be_bytes n (unat v)) = unat v"
    unfolding be_nat_be_bytes n_def using unat_u64_mod [of v] by (simp split: if_splits)
  moreover have "n \<in> {1, 2, 4, 8}" by (simp add: n_def)
  ultimately show ?thesis using decode_uint [of "be_bytes n (unat v)" n] by simp
qed

section \<open>Byte strings\<close>

lemma short_length_byte:
  assumes "n < 16"
  shows "ucast ((word_of_nat n :: u64) OR 0xA0) = (0xA0 + word_of_nat n :: u8)"
proof -
  have "n \<in> set [0..<16]" using assms by simp
  then show ?thesis by (simp add: upt_rec numeral_eq_Suc) auto
qed

lemma medium_length_bytes:
  assumes "n < 2048"
  shows "ucast (drop_bit 8 (word_of_nat n :: u64) AND 0x07) = (word_of_nat (n div 256) :: u8)"
    and "ucast ((word_of_nat n :: u64) AND 0xff) = (word_of_nat n :: u8)"
proof -
  have n: "unat (word_of_nat n :: u64) = n" using assms by (simp add: unat_u64_of_nat)
  have "unat (drop_bit 8 (word_of_nat n :: u64) AND 0x07) = n div 256 mod 8"
  proof -
    have "drop_bit 8 (word_of_nat n :: u64) AND 0x07 = take_bit 3 (drop_bit 8 (word_of_nat n))"
      by (simp add: take_bit_eq_mask mask_eq_exp_minus_1)
    then show ?thesis using n
      by (simp only: unsigned_take_bit_eq unat_drop_bit_eq) (simp add: take_bit_eq_mod drop_bit_eq_div)
  qed
  then have "unat (ucast (drop_bit 8 (word_of_nat n :: u64) AND 0x07) :: u8) = n div 256"
    using assms by (simp add: unsigned_ucast_eq take_bit_eq_mod)
  then show "ucast (drop_bit 8 (word_of_nat n :: u64) AND 0x07) = (word_of_nat (n div 256) :: u8)"
    using assms unfolding word_unat_eq_iff unat_byte_of_nat by simp
  show "ucast ((word_of_nat n :: u64) AND 0xff) = (word_of_nat n :: u8)"
    unfolding word_unat_eq_iff unat_byte_of_nat unat_low_byte n ..
qed

lemma decode_short_bytes:
  assumes "length r = n" "0 < n" "n < 16"
  shows "decode_atom ((0xA0 + word_of_nat n) # r) = Some (Bstr r)"
proof -
  have "n \<in> set [0..<16]" using assms by simp
  with assms show ?thesis
    by (simp add: upt_rec numeral_eq_Suc) (auto simp: decode_atom_def)
qed

lemma decode_medium_bytes:
  assumes "length r = n" "n < 2048"
  shows "decode_atom ((0xD0 OR word_of_nat (n div 256)) # word_of_nat n # r) = Some (Bstr r)"
proof -
  define k where "k = n div 256"
  have "k < 8" using assms k_def by simp
  then have "k \<in> {0, 1, 2, 3, 4, 5, 6, 7}" by auto
  then have "(0xD0 OR word_of_nat k :: u8) AND 0x80 \<noteq> 0" "(0xD0 OR word_of_nat k :: u8) AND 0x40 \<noteq> 0"
    "(0xD0 OR word_of_nat k :: u8) AND 0x20 = 0" "(0xD0 OR word_of_nat k :: u8) AND 0x10 \<noteq> 0"
    "unat ((0xD0 OR word_of_nat k :: u8) AND 0x07) = k"
    by auto
  moreover have "k * 256 + n mod 256 = n" by (simp add: k_def)
  ultimately show ?thesis using assms
    by (simp add: decode_atom_def unat_byte_of_nat flip: k_def)
qed

definition bytes_atom :: "u8 list \<Rightarrow> u8 list" where
  "bytes_atom bs =
     (let n = length bs in
      if bs = [] then [0xA1, 0x00]
      else if n < 16 then (0xA0 + word_of_nat n) # bs
      else (0xD0 OR word_of_nat (n div 256)) # word_of_nat n # bs)"

lemma write_bytes_eq:
  "write_bytes bs buffer = (if length bs < 2048 then Ok (buffer @ bytes_atom bs) else Panic)"
proof -
  consider "bs = []" | "bs \<noteq> []" "length bs < 16" | "16 \<le> length bs" "length bs < 2048"
    | "2048 \<le> length bs" by fastforce
  then show ?thesis
    by cases (auto simp: write_bytes_def bytes_atom_def Let_def short_length_byte medium_length_bytes)
qed

lemma decode_bytes_atom:
  assumes "length bs < 2048"
  shows "decode_atom (bytes_atom bs) = Some (Bstr (if bs = [] then [0] else bs))"
proof -
  consider "bs = []" | "bs \<noteq> []" "length bs < 16" | "16 \<le> length bs" by fastforce
  then show ?thesis
  proof cases
    case 1
    then show ?thesis by (simp add: bytes_atom_def decode_atom_def)
  next
    case 2
    then show ?thesis using decode_short_bytes [of bs "length bs"] by (simp add: bytes_atom_def)
  next
    case 3
    then show ?thesis using assms decode_medium_bytes [of bs "length bs"]
      by (auto simp: bytes_atom_def Let_def)
  qed
qed

section \<open>Every token\<close>

lemma decode_bs8: "length bs = 8 \<Longrightarrow> decode_atom (0xA8 # bs) = Some (Bstr bs)"
  by (simp add: decode_atom_def)

lemma decode_ctl [simp]:
  "decode_atom [0xF0] = Some (Ctl 0xF0)" "decode_atom [0xF1] = Some (Ctl 0xF1)"
  "decode_atom [0xF2] = Some (Ctl 0xF2)" "decode_atom [0xF3] = Some (Ctl 0xF3)"
  "decode_atom [0xF8] = Some (Ctl 0xF8)" "decode_atom [0xF9] = Some (Ctl 0xF9)"
  "decode_atom [0xFA] = Some (Ctl 0xFA)" "decode_atom [0xFF] = Some (Ctl 0xFF)"
  by (simp_all add: decode_atom_def)

lemma decode_locking_state:
  "decode_atom [locking_state_u8 s] = Some (Uint (unat (locking_state_u8 s)))"
  by (cases s) (simp_all add: decode_atom_def)

lemma carries_wrap:
  assumes "decode_atom [o1] = Some a" "carries bs as" "decode_atom [o2] = Some b"
  shows "carries (o1 # bs @ [o2]) (a # as @ [b])"
  by (intro carries_Cons carries_append carries_atom assms)

text \<open>
  What the writers do, in closed form: they append the bytes of their token, or panic
  when a byte string in it is too long.
\<close>

fun stream_bytes :: "token_stream \<Rightarrow> u8 list" where
  "stream_bytes (TokenStream None) = []"
| "stream_bytes (TokenStream (Some bs)) = bs"

primrec token_bytes :: "tok \<Rightarrow> u8 list" and toks_bytes :: "toks \<Rightarrow> u8 list" where
  "token_bytes (Simple t) = [token t]"
| "token_bytes (Bs8 b) = 0xA8 # bytes b"
| "token_bytes (Stream s) = stream_bytes s"
| "token_bytes (U64 v) = u64_atom v"
| "token_bytes (Bytes bs) = bytes_atom bs"
| "token_bytes (Locking s) = [locking_state_u8 s]"
| "token_bytes (Name k v) = 0xF2 # token_bytes k @ token_bytes v @ [0xF3]"
| "token_bytes (List ts) = 0xF0 # toks_bytes ts @ [0xF1]"
| "toks_bytes TokensNil = []"
| "toks_bytes (TokensCons t r) = toks_bytes r @ token_bytes t"

primrec fits :: "tok \<Rightarrow> bool" and fits_all :: "toks \<Rightarrow> bool" where
  "fits (Simple t) = True"
| "fits (Bs8 b) = True"
| "fits (Stream s) = True"
| "fits (U64 v) = True"
| "fits (Bytes bs) = (length bs < 2048)"
| "fits (Locking s) = True"
| "fits (Name k v) = (fits k \<and> fits v)"
| "fits (List ts) = fits_all ts"
| "fits_all TokensNil = True"
| "fits_all (TokensCons t r) = (fits_all r \<and> fits t)"

lemma write_stream_eq: "write_stream s buffer = buffer @ stream_bytes s"
  by (cases s rule: stream_bytes.cases) auto

lemma write_List:
  "write_token (List ts) buffer =
     obind (write_bare ts (write_simple token_STARTLIST buffer)) (\<lambda>b. Ok (write_simple token_ENDLIST b))"
  by (cases ts) (simp_all add: obind_assoc)

lemma write_token_eq:
  "(write_token t buffer :: ('e, u8 list) outcome) =
     (if fits t then Ok (buffer @ token_bytes t) else Panic)"
  "(write_bare ts buffer :: ('e, u8 list) outcome) =
     (if fits_all ts then Ok (buffer @ toks_bytes ts) else Panic)"
  by (induction t and ts arbitrary: buffer and buffer)
    (auto simp: write_List write_simple_def write_bs8_def write_stream_eq write_u64_eq
      write_bytes_eq write_locking_state_def opal_consts simp del: write_token.simps(8, 9))

lemma says_fits: "says t as \<Longrightarrow> fits t" "says_bare ts bs \<Longrightarrow> fits_all ts"
  by (induction rule: says_says_bare.inducts) auto

lemma stream_says_carries: "stream_says s as \<Longrightarrow> carries (stream_bytes s) as"
  by (cases "(s, as)" rule: stream_says.cases) auto

lemma says_carries:
  "says t as \<Longrightarrow> carries (token_bytes t) as" "says_bare ts bs \<Longrightarrow> carries (toks_bytes ts) bs"
proof (induction rule: says_says_bare.inducts)
  case (Name k as v bs)
  then show ?case
    using carries_wrap [of "0xF2" _ "token_bytes k @ token_bytes v" "as @ bs" "0xF3"]
    by (auto intro: carries_append)
next
  case Null
  show ?case using decode_bytes_atom [of "[]"] by (simp add: carries_atom)
qed (auto intro!: carries_atom carries_wrap carries_append stream_says_carries decode_bs8
    decode_u64_atom decode_locking_state simp: decode_bytes_atom)

section \<open>The macros\<close>

lemma toks_push [simp]:
  "toks_bytes (foldl tokens_push acc ts) = toks_bytes acc @ concat (map token_bytes ts)"
  "fits_all (foldl tokens_push acc ts) \<longleftrightarrow> fits_all acc \<and> list_all fits ts"
  by (induction ts arbitrary: acc) (auto simp: tokens_push_def)

lemma token_list_eq:
  "token_list ts = (if list_all fits ts
     then Ok (TokenStream (Some (0xF0 # concat (map token_bytes ts) @ [0xF1]))) else Panic)"
  by (simp add: token_list_def to_token_stream_def write_token_eq)

lemma token_name_eq:
  "token_name k v = (if fits k \<and> fits v
     then Ok (TokenStream (Some (0xF2 # token_bytes k @ token_bytes v @ [0xF3]))) else Panic)"
  by (simp add: token_name_def to_token_stream_def write_token_eq)

lemma tokens_eq:
  "tokens ts = (if \<not> list_all fits ts then Panic
     else if ts = [] then Ok (TokenStream None) else Ok (TokenStream (Some (concat (map token_bytes ts)))))"
  by (cases ts rule: tokens.cases)
    (auto simp: token_stream_empty_def to_token_stream_def to_bare_token_stream_def
      write_token_eq tokens_push_def)

lemmas macro_simps = token_list_eq token_name_eq tokens_eq write_token_eq

lemma list_says_carries:
  "list_all2 says ts ass \<Longrightarrow> carries (concat (map token_bytes ts)) (concat ass)"
  by (induction rule: list_all2_induct) (auto intro: carries_append says_carries)

lemma list_says_fits: "list_all2 says ts ass \<Longrightarrow> list_all fits ts"
  by (induction rule: list_all2_induct) (auto dest: says_fits)

section \<open>Properties\<close>

text \<open>
  C16: what a token writes decodes back to the atoms it stands for: the writer appends a
  sequence of atoms, and decoding them one by one returns the token's meaning, lists and
  names bracketed by their control tokens.
\<close>

theorem write_token_decodes:
  assumes "says t as"
  shows "\<exists>bs. (write_token t buffer :: ('e, _) outcome) = Ok (buffer @ bs) \<and> carries bs as"
  using says_fits(1) [OF assms] says_carries(1) [OF assms] by (auto simp: write_token_eq)

theorem write_token_decodes_witness:
  "\<exists>bs. (write_token (Name (Simple token_VALUES) (List (TokensCons (U64 300) TokensNil))) [] :: (unit, _) outcome) = Ok ([] @ bs) \<and>
    carries bs [Ctl 0xF2, Uint 1, Ctl 0xF0, Uint 300, Ctl 0xF1, Ctl 0xF3]"
proof -
  have "says (Simple token_VALUES) [Uint 1]"
    by (rule says_says_bare.Simple) (simp add: opal_consts decode_atom_def)
  moreover have "says_bare (TokensCons (U64 300) TokensNil) ([] @ [Uint (unat (300 :: u64))])"
    by (intro says_says_bare.Cons says_says_bare.Nil says_says_bare.U64)
  then have "says_bare (TokensCons (U64 300) TokensNil) [Uint 300]" by simp
  then have "says (List (TokensCons (U64 300) TokensNil)) (Ctl 0xF0 # [Uint 300] @ [Ctl 0xF1])"
    by (rule says_says_bare.List)
  ultimately have "says (Name (Simple token_VALUES) (List (TokensCons (U64 300) TokensNil)))
      (Ctl 0xF2 # [Uint 1] @ (Ctl 0xF0 # [Uint 300] @ [Ctl 0xF1]) @ [Ctl 0xF3])"
    by (rule says_says_bare.Name)
  from write_token_decodes [OF this, of "[]"] show ?thesis by simp
qed

text \<open>
  Every 64-bit number is written as one atom that decodes to the number, whichever of
  the five widths the code chooses.
\<close>

theorem write_u64_roundtrip: "decode_atom (write_u64 v []) = Some (Uint (unat v))"
  by (simp add: write_u64_eq decode_u64_atom)

text \<open>
  C36: a byte string is written if and only if it is shorter than 2048 bytes; from 2048 bytes on the
  writer panics (its message speaks of strings over 2048 bytes). A string that is not empty is
  written as one atom that decodes to the string. The empty string is written as what the code calls
  the null token, two bytes that decode to the string of one zero byte.
\<close>

theorem write_bytes_total:
  "(write_bytes bs buffer :: ('e, _) outcome) = (if length bs < 2048 then Ok (buffer @ bytes_atom bs) else Panic) \<and>
   (bs \<noteq> [] \<and> length bs < 2048 \<longrightarrow> decode_atom (bytes_atom bs) = Some (Bstr bs)) \<and>
   bytes_atom [] = [0xA1, 0x00] \<and> decode_atom [0xA1, 0x00] = Some (Bstr [0])"
  using decode_bytes_atom [of bs] decode_bytes_atom [of "[]"]
  by (auto simp: write_bytes_eq bytes_atom_def [of "[]"])

theorem write_bytes_total_witness:
  "decode_atom (bytes_atom (replicate 32 7)) = Some (Bstr (replicate 32 7))"
  using write_bytes_total [where 'e = unit, of "replicate 32 7" "[]"] by simp

end
