(* ===== verification/Command.thy ===== *)
theory Command imports Atoms begin

text \<open>
  Packets and their builder: the \<^verbatim>\<open>repr(C)\<close> headers of \<^verbatim>\<open>opal/src/defs.rs\<close> with their
  layout in memory, and \<^verbatim>\<open>OpalCommandBuilder\<close> and \<^verbatim>\<open>OpalCommand\<close> of
  \<^verbatim>\<open>opal/src/command.rs\<close>. The lemmas give the lengths a built command announces, the
  atoms its payload spells, and the round trip of a header through memory.
\<close>

section \<open>Headers\<close>

record com_packet_header =
  cp_reserved :: u32
  cp_extended_com_id :: "u8 list"
  cp_outstanding_data :: u32
  cp_min_transfer :: u32
  cp_length :: u32

record packet_header =
  pkt_tsn :: u32
  pkt_hsn :: u32
  pkt_seq_number :: u32
  pkt_reserved :: u16
  pkt_ack_type :: u16
  pkt_acknowledgement :: u32
  pkt_length :: u32

record subpacket_header =
  sub_reserved :: "u8 list"
  sub_kind :: u16
  sub_length :: u32

record opal_header =
  cp :: com_packet_header
  pkt :: packet_header
  subpkt :: subpacket_header

text \<open>\<^verbatim>\<open>#[derive(Default)]\<close>: all zeroes.\<close>

definition com_packet_header_default :: com_packet_header where
  "com_packet_header_default =
     \<lparr>cp_reserved = 0, cp_extended_com_id = [0, 0, 0, 0], cp_outstanding_data = 0,
      cp_min_transfer = 0, cp_length = 0\<rparr>"

definition packet_header_default :: packet_header where
  "packet_header_default =
     \<lparr>pkt_tsn = 0, pkt_hsn = 0, pkt_seq_number = 0, pkt_reserved = 0, pkt_ack_type = 0,
      pkt_acknowledgement = 0, pkt_length = 0\<rparr>"

definition subpacket_header_default :: subpacket_header where
  "subpacket_header_default = \<lparr>sub_reserved = [0, 0, 0, 0, 0, 0], sub_kind = 0, sub_length = 0\<rparr>"

definition opal_header_default :: opal_header where
  "opal_header_default =
     \<lparr>cp = com_packet_header_default, pkt = packet_header_default, subpkt = subpacket_header_default\<rparr>"

text \<open>\<^verbatim>\<open>size_of\<close> of the three structs; \<^verbatim>\<open>OpalHeader\<close> is their sum, no padding arises.\<close>

abbreviation (input) size_of_com_packet_header :: nat where "size_of_com_packet_header \<equiv> 20"
abbreviation (input) size_of_packet_header :: nat where "size_of_packet_header \<equiv> 24"
abbreviation (input) size_of_subpacket_header :: nat where "size_of_subpacket_header \<equiv> 12"
abbreviation (input) size_of_opal_header :: nat where "size_of_opal_header \<equiv> 56"

text \<open>
  The layout in memory on a little-endian machine: what \<^verbatim>\<open>ptr::write\<close> stores and what
  \<^verbatim>\<open>ptr::read\<close> loads.
\<close>

abbreviation le32 :: "u32 \<Rightarrow> u8 list" where "le32 w \<equiv> le_bytes 4 (unat w)"
abbreviation le16 :: "u16 \<Rightarrow> u8 list" where "le16 w \<equiv> le_bytes 2 (unat w)"

definition cp_bytes :: "com_packet_header \<Rightarrow> u8 list" where
  "cp_bytes h = le32 (cp_reserved h) @ cp_extended_com_id h @ le32 (cp_outstanding_data h)
     @ le32 (cp_min_transfer h) @ le32 (cp_length h)"

definition pkt_bytes :: "packet_header \<Rightarrow> u8 list" where
  "pkt_bytes h = le32 (pkt_tsn h) @ le32 (pkt_hsn h) @ le32 (pkt_seq_number h)
     @ le16 (pkt_reserved h) @ le16 (pkt_ack_type h) @ le32 (pkt_acknowledgement h)
     @ le32 (pkt_length h)"

definition sub_bytes :: "subpacket_header \<Rightarrow> u8 list" where
  "sub_bytes h = sub_reserved h @ le16 (sub_kind h) @ le32 (sub_length h)"

definition header_bytes :: "opal_header \<Rightarrow> u8 list" where
  "header_bytes h = cp_bytes (cp h) @ pkt_bytes (pkt h) @ sub_bytes (subpkt h)"

definition read32 :: "u8 list \<Rightarrow> nat \<Rightarrow> u32" where
  "read32 b i = word_of_nat (le_nat (take 4 (drop i b)))"

definition read16 :: "u8 list \<Rightarrow> nat \<Rightarrow> u16" where
  "read16 b i = word_of_nat (le_nat (take 2 (drop i b)))"

definition read_header :: "u8 list \<Rightarrow> opal_header" where
  "read_header b =
     \<lparr>cp = \<lparr>cp_reserved = read32 b 0, cp_extended_com_id = take 4 (drop 4 b),
        cp_outstanding_data = read32 b 8, cp_min_transfer = read32 b 12, cp_length = read32 b 16\<rparr>,
      pkt = \<lparr>pkt_tsn = read32 b 20, pkt_hsn = read32 b 24, pkt_seq_number = read32 b 28,
        pkt_reserved = read16 b 32, pkt_ack_type = read16 b 34, pkt_acknowledgement = read32 b 36,
        pkt_length = read32 b 40\<rparr>,
      subpkt = \<lparr>sub_reserved = take 6 (drop 44 b), sub_kind = read16 b 50, sub_length = read32 b 52\<rparr>\<rparr>"

definition header_wf :: "opal_header \<Rightarrow> bool" where
  "header_wf h \<longleftrightarrow> length (cp_extended_com_id (cp h)) = 4 \<and> length (sub_reserved (subpkt h)) = 6"

lemma length_header_bytes [wire_simps]: "header_wf h \<Longrightarrow> length (header_bytes h) = 56"
  by (simp add: header_wf_def header_bytes_def cp_bytes_def pkt_bytes_def sub_bytes_def
      del: le_bytes_numeral)

section \<open>The builder\<close>

record opal_command_builder =
  builder_payload :: "u8 list"

record opal_command =
  header :: opal_header
  payload :: "u8 list"
  eod :: bool

definition builder_empty :: opal_command_builder where
  "builder_empty = \<lparr>builder_payload = []\<rparr>"

text \<open>\<^verbatim>\<open>tokens![token::CALL, invoking_uid, method].0.unwrap()\<close>\<close>

definition builder_new :: "bs8 \<Rightarrow> bs8 \<Rightarrow> ('e, opal_command_builder) outcome" where
  "builder_new invoking_uid method =
     obind (tokens [Simple token_CALL, Bs8 invoking_uid, Bs8 method]) (\<lambda>s.
     case s of TokenStream (Some p) \<Rightarrow> Ok \<lparr>builder_payload = p\<rparr> | TokenStream None \<Rightarrow> Panic)"

fun builder_add :: "opal_command_builder \<Rightarrow> token_stream \<Rightarrow> opal_command_builder" where
  "builder_add b (TokenStream (Some p)) = b\<lparr>builder_payload := builder_payload b @ p\<rparr>"
| "builder_add b (TokenStream None) = b"

text \<open>\<^verbatim>\<open>while self.payload.len() % 4 != 0 { self.payload.push(0); }\<close>\<close>

function pad4 :: "u8 list \<Rightarrow> u8 list" where
  "pad4 p = (if length p mod 4 \<noteq> 0 then pad4 (p @ [0]) else p)"
  by pat_completeness auto
termination
  by (relation "measure (\<lambda>p. (3 * length p) mod 4)") (auto, presburger)

declare pad4.simps [simp del]

definition build_eod :: "opal_command_builder \<Rightarrow> bool \<Rightarrow> ('e, opal_command) outcome" where
  "build_eod b with_eod =
     obind (if with_eod then
         obind (token_list [Simple tiny_UINT_00, Simple tiny_UINT_00, Simple tiny_UINT_00]) (\<lambda>l.
         obind (tokens [Simple token_ENDOFDATA, Stream l]) (\<lambda>s.
         write_token (Stream s) (builder_payload b)))
       else Ok (builder_payload b)) (\<lambda>p.
     let sub_len = (word_of_nat (length p) :: u32);
         p' = pad4 p;
         pkt_len = (word_of_nat (length p' + size_of_subpacket_header) :: u32);
         cp_len = (word_of_nat (length p' + size_of_subpacket_header + size_of_packet_header) :: u32);
         h = opal_header_default
     in Ok \<lparr>header = \<lparr>cp = (cp h)\<lparr>cp_length := cp_len\<rparr>, pkt = (pkt h)\<lparr>pkt_length := pkt_len\<rparr>,
              subpkt = (subpkt h)\<lparr>sub_length := sub_len\<rparr>\<rparr>,
            payload = p', eod = with_eod\<rparr>)"

definition build :: "opal_command_builder \<Rightarrow> ('e, opal_command) outcome" where
  "build b = build_eod b True"

definition build_no_end_of_data :: "opal_command_builder \<Rightarrow> ('e, opal_command) outcome" where
  "build_no_end_of_data b = build_eod b False"

definition set_session :: "u16 \<Rightarrow> u32 \<Rightarrow> u32 \<Rightarrow> opal_command \<Rightarrow> opal_command" where
  "set_session com_id tsn hsn c =
     c\<lparr>header := (header c)
        \<lparr>cp := (cp (header c))\<lparr>cp_extended_com_id :=
             [ucast (drop_bit 8 (com_id AND 0xff00)), ucast (com_id AND 0x00ff), 0, 0]\<rparr>,
         pkt := (pkt (header c))\<lparr>pkt_tsn := swap32 tsn, pkt_hsn := swap32 hsn\<rparr>\<rparr>\<rparr>"

section \<open>Reading a header back\<close>

lemma read32_at:
  "take 4 (drop i b) = le32 w \<Longrightarrow> read32 b i = w"
proof -
  assume "take 4 (drop i b) = le32 w"
  then have "le_nat (take 4 (drop i b)) = unat w"
    using unat32_bound [of w] by (simp only: le_nat_le_bytes mod_less)
  then show ?thesis by (simp only: read32_def of_nat_unat ucast_id)
qed

lemma read16_at:
  "take 2 (drop i b) = le16 w \<Longrightarrow> read16 b i = w"
proof -
  assume "take 2 (drop i b) = le16 w"
  moreover have "unat w < 256 ^ 2" using unsigned_less [of w] by simp
  ultimately have "le_nat (take 2 (drop i b)) = unat w"
    by (simp only: le_nat_le_bytes mod_less)
  then show ?thesis by (simp only: read16_def of_nat_unat ucast_id)
qed

lemma read_header_header_bytes:
  assumes "header_wf h"
  shows "read_header (header_bytes h @ rest) = h"
proof -
  let ?b = "header_bytes h @ rest"
  note defs = header_bytes_def cp_bytes_def pkt_bytes_def sub_bytes_def
  have len: "length (cp_extended_com_id (cp h)) = 4" "length (sub_reserved (subpkt h)) = 6"
    using assms by (auto simp: header_wf_def)
  have "read32 ?b 0 = cp_reserved (cp h)" "read32 ?b 8 = cp_outstanding_data (cp h)"
    "read32 ?b 12 = cp_min_transfer (cp h)" "read32 ?b 16 = cp_length (cp h)"
    "read32 ?b 20 = pkt_tsn (pkt h)" "read32 ?b 24 = pkt_hsn (pkt h)"
    "read32 ?b 28 = pkt_seq_number (pkt h)" "read32 ?b 36 = pkt_acknowledgement (pkt h)"
    "read32 ?b 40 = pkt_length (pkt h)" "read32 ?b 52 = sub_length (subpkt h)"
    by (rule read32_at; simp add: defs len del: le_bytes_numeral)+
  moreover have "read16 ?b 32 = pkt_reserved (pkt h)" "read16 ?b 34 = pkt_ack_type (pkt h)"
    "read16 ?b 50 = sub_kind (subpkt h)"
    by (rule read16_at; simp add: defs len del: le_bytes_numeral)+
  moreover have "take 4 (drop 4 ?b) = cp_extended_com_id (cp h)"
    "take 6 (drop 44 ?b) = sub_reserved (subpkt h)"
    by (simp_all add: defs len del: le_bytes_numeral)
  ultimately show ?thesis by (simp add: read_header_def)
qed

section \<open>What the builder builds\<close>

lemma pad4_eq: "pad4 p = p @ replicate ((3 * length p) mod 4) 0"
proof (induction p rule: pad4.induct)
  case (1 p)
  show ?case
  proof (cases "length p mod 4 = 0")
    case True
    then have "(3 * length p) mod 4 = 0" by presburger
    with True show ?thesis by (simp add: pad4.simps)
  next
    case False
    then have "(3 * length p) mod 4 = Suc ((3 * length (p @ [0])) mod 4)"
      by simp presburger
    with 1 [OF False] False show ?thesis by (subst pad4.simps) simp
  qed
qed

lemma length_pad4: "length (pad4 p) = (length p + 3) div 4 * 4"
proof -
  obtain q r where n: "length p = 4 * q + r" and "r < 4"
    by (metis mult_div_mod_eq mod_less_divisor zero_less_numeral)
  have "3 * (4 * q + r) = 3 * r + 4 * (3 * q)" "4 * q + r + 3 = (r + 3) + 4 * q" by simp_all
  then have e: "(3 * (4 * q + r)) mod 4 = (3 * r) mod 4" "(4 * q + r + 3) div 4 = (r + 3) div 4 + q"
    by (metis mod_mult_self2, metis div_mult_self2 zero_neq_numeral add.commute)
  consider "r = 0" | "r = 1" | "r = 2" | "r = 3" using \<open>r < 4\<close> by linarith
  then show ?thesis
    unfolding pad4_eq length_append length_replicate n e by cases simp_all
qed

lemma builder_new_eq:
  "builder_new u m = Ok \<lparr>builder_payload = 0xF8 # 0xA8 # bytes u @ 0xA8 # bytes m\<rparr>"
  by (simp add: builder_new_def macro_simps opal_consts)

lemma builder_add_eq:
  "builder_add b s = b\<lparr>builder_payload := builder_payload b @ stream_bytes s\<rparr>"
  by (cases s rule: stream_bytes.cases) auto

text \<open>The trailer of a method call: end of data and a status list of three zeroes.\<close>

definition eod_trailer :: "u8 list" where
  "eod_trailer = [0xF9, 0xF0, 0, 0, 0, 0xF1]"

definition packet_of :: "u8 list \<Rightarrow> bool \<Rightarrow> opal_command" where
  "packet_of p e =
     \<lparr>header = \<lparr>cp = com_packet_header_default\<lparr>cp_length := word_of_nat (length (pad4 p) + 36)\<rparr>,
        pkt = packet_header_default\<lparr>pkt_length := word_of_nat (length (pad4 p) + 12)\<rparr>,
        subpkt = subpacket_header_default\<lparr>sub_length := word_of_nat (length p)\<rparr>\<rparr>,
      payload = pad4 p, eod = e\<rparr>"

lemma build_eod_eq:
  "build_eod b e = Ok (packet_of (builder_payload b @ (if e then eod_trailer else [])) e)"
  by (simp add: build_eod_def macro_simps opal_consts eod_trailer_def packet_of_def Let_def
      opal_header_default_def add.commute)

lemma eod_trailer_carries: "carries eod_trailer [Ctl 0xF9, Ctl 0xF0, Uint 0, Uint 0, Uint 0, Ctl 0xF1]"
  unfolding eod_trailer_def by (intro carries_Cons carries_Nil) (simp_all add: decode_atom_def)

lemma packet_of_wf [simp]: "header_wf (header (set_session c t h (packet_of p e)))"
  by (simp add: header_wf_def set_session_def packet_of_def subpacket_header_default_def)

lemma packet_of_sel [simp]: "payload (packet_of p e) = pad4 p" "eod (packet_of p e) = e"
  by (simp_all add: packet_of_def)

lemma set_session_sel [simp]:
  "payload (set_session c t h x) = payload x" "eod (set_session c t h x) = eod x"
  by (simp_all add: set_session_def)

section \<open>Properties\<close>

text \<open>
  A header written to memory and read back is the same header, whatever follows it.
\<close>

theorem header_roundtrip:
  assumes "header_wf h"
  shows "length (header_bytes h) = 56 \<and> read_header (header_bytes h @ rest) = h"
  using assms by (simp add: length_header_bytes read_header_header_bytes)

theorem header_roundtrip_witness:
  "read_header (header_bytes (opal_header_default\<lparr>cp := com_packet_header_default\<lparr>cp_length := 99\<rparr>\<rparr>) @ [1, 2]) =
     opal_header_default\<lparr>cp := com_packet_header_default\<lparr>cp_length := 99\<rparr>\<rparr>"
  using header_roundtrip [of "opal_header_default\<lparr>cp := com_packet_header_default\<lparr>cp_length := 99\<rparr>\<rparr>" "[1, 2]"]
  by (simp add: header_wf_def opal_header_default_def com_packet_header_default_def subpacket_header_default_def)

text \<open>
  The lengths a built command announces: the subpacket counts the payload before it is
  padded, the payload is padded with zeroes to a multiple of four, the packet counts the padded
  payload and the subpacket header, the ComPacket the packet header as well. A method call ends
  in its trailer. The numbers are exact for every payload that fits 32 bits.
\<close>

theorem build_lengths:
  assumes "build_eod b e = (Ok c :: ('e, _) outcome)" and "length (builder_payload b) < 2 ^ 31"
  shows "let p = builder_payload b @ (if e then eod_trailer else []) in
    eod c = e \<and> unat (sub_length (subpkt (header c))) = length p \<and>
    length (payload c) mod 4 = 0 \<and> length (payload c) < length p + 4 \<and> take (length p) (payload c) = p \<and>
    unat (pkt_length (pkt (header c))) = length (payload c) + 12 \<and>
    unat (cp_length (cp (header c))) = length (payload c) + 36"
proof -
  let ?p = "builder_payload b @ (if e then eod_trailer else [])"
  have c: "c = packet_of ?p e" using assms(1) by (simp add: build_eod_eq)
  have len: "length (pad4 ?p) < length ?p + 4" "length (pad4 ?p) mod 4 = 0" "take (length ?p) (pad4 ?p) = ?p"
    by (simp_all only: length_pad4 mod_mult_self2_is_0) (simp_all add: pad4_eq)
  moreover have "length ?p < 2 ^ 31 + 6" using assms(2) by (simp add: eod_trailer_def)
  then have small: "length ?p < 256 ^ 4" "length (pad4 ?p) + 12 < 256 ^ 4" "length (pad4 ?p) + 36 < 256 ^ 4"
    using len(1) by simp_all
  then have "unat (word_of_nat (length ?p) :: u32) = length ?p"
    "unat (word_of_nat (length (pad4 ?p) + 12) :: u32) = length (pad4 ?p) + 12"
    "unat (word_of_nat (length (pad4 ?p) + 36) :: u32) = length (pad4 ?p) + 36"
    by (simp_all only: unat_u32_of_nat mod_less)
  ultimately show ?thesis by (simp add: c packet_of_def Let_def del: of_nat_add)
qed

theorem build_lengths_witness:
  "length (payload (packet_of (replicate 5 1 @ eod_trailer) True)) mod 4 = 0"
  using build_lengths [where 'e = unit, of "\<lparr>builder_payload = replicate 5 1\<rparr>" True "packet_of (replicate 5 1 @ eod_trailer) True"]
  by (simp add: build_eod_eq Let_def)

end
