(* ===== verification/Response.thy ===== *)
theory Response imports Command begin

text \<open>
  Reading a packet: \<^verbatim>\<open>OpalResponse\<close> of \<^verbatim>\<open>opal/src/command.rs\<close>. The response's bytes come
  from the drive, and the code checks none of its lengths: indexing out of the buffer and
  unsupported atoms are panics of the model. \<open>parse\<close> refines the atom grammar: on bytes
  that spell atoms it returns exactly these atoms, empty ones left out.
\<close>

record opal_response =
  response_header :: opal_header
  response_tokens :: "u8 list list"

definition token_len_at :: "u8 list \<Rightarrow> nat \<Rightarrow> ('e, nat) outcome" where
  "token_len_at bs pos =
     obind (index bs pos) (\<lambda>h.
     if h AND 0x80 = 0 then Ok 1
     else if h AND 0x40 = 0 then Ok ((unat h AND 0x0F) + 1)
     else if h AND 0x20 = 0 then
       obind (index bs (pos + 1)) (\<lambda>l.
       Ok ((push_bit 8 (unat h AND 0x07) OR unat l) + 2))
     else if h AND 0x10 = 0 then
       obind (index bs (pos + 1)) (\<lambda>l2.
       obind (index bs (pos + 2)) (\<lambda>l1.
       obind (index bs (pos + 3)) (\<lambda>l0.
       Ok ((push_bit 16 (unat l2) OR push_bit 8 (unat l1) OR unat l0) + 4))))
     else Ok 1)"

lemma token_len_at_pos: "token_len_at bs pos = Ok n \<Longrightarrow> 0 < n"
  by (auto simp: token_len_at_def ok_iff split: if_splits)

function parse_loop :: "u8 list \<Rightarrow> nat \<Rightarrow> nat \<Rightarrow> u8 list list \<Rightarrow> ('e, u8 list list) outcome" where
  "parse_loop bs len pos acc =
     (if pos < len then
        obind (token_len_at bs pos) (\<lambda>token_len.
        obind (index bs pos) (\<lambda>h.
        obind (if token_len \<noteq> 1 \<or> h \<noteq> 0xFF
               then obind (slice bs pos (pos + token_len)) (\<lambda>t. Ok (acc @ [t]))
               else Ok acc) (\<lambda>acc.
        parse_loop bs len (pos + token_len) acc)))
      else Ok acc)"
  by pat_completeness auto
termination
  by (relation "measure (\<lambda>(bs, len, pos, acc). len - pos)") (auto dest: token_len_at_pos)

declare parse_loop.simps [simp del]

definition parse :: "opal_header \<Rightarrow> u8 list \<Rightarrow> ('e, opal_response) outcome" where
  "parse h bs =
     (let offset = size_of_opal_header;
          len = unat (sub_length (subpkt h)) + offset
      in obind (parse_loop bs len offset []) (\<lambda>ts.
         Ok \<lparr>response_header = h, response_tokens = ts\<rparr>))"

definition response_len :: "opal_response \<Rightarrow> nat" where
  "response_len r = length (response_tokens r)"

definition response_is_empty :: "opal_response \<Rightarrow> bool" where
  "response_is_empty r = (response_tokens r = [])"

definition response_is :: "opal_response \<Rightarrow> nat \<Rightarrow> simple_token \<Rightarrow> bool" where
  "response_is r i t = (get (response_tokens r) i = Some [token t])"

text \<open>
  \<^verbatim>\<open>for b in 0..token.len() { i -= 1; whatever |= (token[i] as u64) << (8 * b); }\<close>:
  the shift amount is masked to six bits.
\<close>

fun uint_loop :: "u8 list \<Rightarrow> nat list \<Rightarrow> nat \<Rightarrow> u64 \<Rightarrow> u64" where
  "uint_loop tok [] i whatever = whatever"
| "uint_loop tok (b # bs) i whatever =
     uint_loop tok bs (i - 1) (whatever OR push_bit ((8 * b) mod 64) (ucast (tok ! (i - 1))))"

definition get_uint :: "opal_response \<Rightarrow> nat \<Rightarrow> ('e, u64) outcome" where
  "get_uint r i =
     obind (index (response_tokens r) i) (\<lambda>tok.
     obind (index tok 0) (\<lambda>h.
     if h AND 0x80 = 0 then
       (if h AND 0x40 = 0 then Ok (ucast (h AND 0x3f)) else Panic)
     else if h AND 0x40 = 0 then
       (if h AND 0x10 = 0 then
          (if length tok > 9 then Panic
           else Ok (uint_loop tok [0..<length tok] (length tok) 0))
        else Panic)
     else Panic))"

section \<open>Reading atoms\<close>

lemma index_shift:
  "index (pre @ bs) (length pre + i) = index bs i" "index (pre @ bs) (length pre) = index bs 0"
  by (simp_all add: index_def nth_append)

lemma slice_mid: "slice (pre @ c @ post) (length pre) (length pre + length c) = Ok c"
  by (simp add: slice_def)

lemma token_len_shift: "token_len_at (pre @ bs) (length pre) = token_len_at bs 0"
  by (simp only: token_len_at_def index_shift add_0_left)

lemma token_len_atom:
  assumes "decode_atom c = Some a"
  shows "token_len_at (c @ post) 0 = Ok (length c)"
proof -
  obtain h r where c: "c = h # r" using assms by (cases c) auto
  have bits: "unat (h AND 0x0f) = unat h AND 0x0f" "unat (h AND 0x07) = unat h AND 0x07"
    by (simp_all add: unsigned_and_eq)
  consider (short) "h AND 0x80 = 0 \<or> h AND 0x40 = 0"
    | (medium) "h AND 0x80 \<noteq> 0" "h AND 0x40 \<noteq> 0" "h AND 0x20 = 0"
    | (long) "h AND 0x80 \<noteq> 0" "h AND 0x40 \<noteq> 0" "h AND 0x20 \<noteq> 0" "h AND 0x10 = 0"
    | (ctl) "h AND 0x80 \<noteq> 0" "h AND 0x40 \<noteq> 0" "h AND 0x20 \<noteq> 0" "h AND 0x10 \<noteq> 0"
    by blast
  then show ?thesis
  proof cases
    case medium
    then obtain l r' where r: "r = l # r'" "length r' = unat (h AND 0x07) * 256 + unat l"
      using assms c by (auto simp: decode_atom_def split: list.splits if_splits)
    have "push_bit 8 (unat h AND 7) OR unat l = (unat h AND 7) * 256 + unat l"
      using push_bit_or_nat [of "unat l" 8 "unat h AND 7"] unat_byte_bound [of l] by simp
    with medium c r bits show ?thesis by (simp add: token_len_at_def index_def)
  next
    case long
    then obtain l2 l1 l0 r' where r: "r = l2 # l1 # l0 # r'" "length r' = be_nat [l2, l1, l0]"
      using assms c by (auto simp: decode_atom_def split: list.splits if_splits)
    have "push_bit 16 (unat l2) OR push_bit 8 (unat l1) OR unat l0 = be_nat [l2, l1, l0]"
    proof -
      have "push_bit 8 (unat l1) OR unat l0 = unat l1 * 256 + unat l0"
        using push_bit_or_nat [of "unat l0" 8] unat_byte_bound [of l0] by simp
      moreover have "unat l1 * 256 + unat l0 < 2 ^ 16"
        using unat_byte_bound [of l0] unat_byte_bound [of l1] by simp
      ultimately show ?thesis
        using push_bit_or_nat [of "unat l1 * 256 + unat l0" 16 "unat l2"]
        by (simp add: be_nat_def)
    qed
    with long c r show ?thesis by (simp add: token_len_at_def index_def)
  qed (use assms c bits in \<open>auto simp: decode_atom_def token_len_at_def index_def split: if_splits\<close>)
qed

definition nonempty :: "u8 list \<Rightarrow> bool" where
  "nonempty c \<longleftrightarrow> c \<noteq> [0xFF]"

lemma parse_loop_step:
  assumes "decode_atom c = Some a"
  shows "(parse_loop (pre @ c @ post) (length pre + length c + n) (length pre) acc :: ('e, _) outcome) =
    parse_loop (pre @ c @ post) (length pre + length c + n) (length pre + length c)
      (if nonempty c then acc @ [c] else acc)"
proof -
  obtain h r where c: "c = h # r" using assms by (cases c) auto
  have "token_len_at (pre @ c @ post) (length pre) = (Ok (length c) :: ('e, _) outcome)"
    using token_len_atom [OF assms, of post] by (simp add: token_len_shift)
  moreover have "index (pre @ c @ post) (length pre) = (Ok h :: ('e, _) outcome)"
    by (simp add: c index_def)
  moreover have "slice (pre @ c @ post) (length pre) (length pre + length c) = (Ok c :: ('e, _) outcome)"
    by (rule slice_mid)
  moreover have "(length c \<noteq> 1 \<or> h \<noteq> 0xFF) = nonempty c" "0 < length c"
    by (auto simp: c nonempty_def)
  ultimately show ?thesis
    by (subst (1) parse_loop.simps) simp
qed

lemma parse_loop_atoms:
  assumes "map decode_atom cs = map Some as"
  shows "(parse_loop (pre @ concat cs @ post) (length pre + length (concat cs)) (length pre) acc
    :: ('e, _) outcome) = Ok (acc @ filter nonempty cs)"
  using assms
proof (induction cs arbitrary: as pre acc)
  case Nil
  then show ?case by (simp add: parse_loop.simps)
next
  case (Cons c cs)
  then obtain a as' where c: "decode_atom c = Some a" "map decode_atom cs = map Some as'"
    by (cases as) auto
  show ?case
    using parse_loop_step [where 'e = 'e, OF c(1), of pre "concat cs @ post" "length (concat cs)" acc]
      Cons.IH [OF c(2), of "pre @ c" "if nonempty c then acc @ [c] else acc"]
    by (simp add: add.assoc)
qed

text \<open>The empty atom is the only atom the reader drops.\<close>

lemma nonempty_decode: "decode_atom c = Some a \<Longrightarrow> nonempty c \<longleftrightarrow> a \<noteq> Ctl 0xFF"
proof
  assume d: "decode_atom c = Some a" and n: "nonempty c"
  show "a \<noteq> Ctl 0xFF"
  proof
    assume "a = Ctl 0xFF"
    with d have "c = [0xFF]"
      by (auto simp: decode_atom_def split: list.splits if_splits)
    with n show False by (simp add: nonempty_def)
  qed
qed (auto simp: nonempty_def)

lemma filter_nonempty_decode:
  "map decode_atom cs = map Some as \<Longrightarrow>
     map decode_atom (filter nonempty cs) = map Some (filter (\<lambda>a. a \<noteq> Ctl 0xFF) as)"
proof (induction cs arbitrary: as)
  case (Cons c cs)
  then obtain a as' where "as = a # as'" "decode_atom c = Some a" "map decode_atom cs = map Some as'"
    by (cases as) auto
  with Cons.IH [of as'] nonempty_decode [of c a] show ?case by auto
qed simp

text \<open>A response says the atoms its tokens decode to.\<close>

definition response_says :: "opal_response \<Rightarrow> atom list \<Rightarrow> bool" where
  "response_says r as \<longleftrightarrow> map decode_atom (response_tokens r) = map Some as"

lemma parse_carries:
  assumes "carries bs as" "length hb = 56" "unat (sub_length (subpkt h)) = length bs"
  shows "\<exists>r. (parse h (hb @ bs @ rest) :: ('e, _) outcome) = Ok r \<and> response_header r = h \<and>
    response_says r (filter (\<lambda>a. a \<noteq> Ctl 0xFF) as)"
proof -
  obtain cs where cs: "bs = concat cs" "map decode_atom cs = map Some as"
    using assms(1) by (auto simp: carries_def)
  have "parse_loop (hb @ bs @ rest) (length bs + 56) 56 [] = (Ok (filter nonempty cs) :: ('e, _) outcome)"
    using parse_loop_atoms [where 'e = 'e, OF cs(2), of hb rest "[]"] assms(2) cs(1)
    by (simp add: add.commute)
  then show ?thesis
    using filter_nonempty_decode [OF cs(2)] assms(3)
    by (simp add: parse_def Let_def response_says_def)
qed

lemma token_len_not_Err [simp]: "token_len_at bs pos \<noteq> Err e"
  by (simp add: token_len_at_def index_def)

lemma parse_loop_not_Err [simp]: "parse_loop bs len pos acc \<noteq> Err e"
proof (induction "len - pos" arbitrary: pos acc rule: less_induct)
  case less
  have step: "pos < len \<Longrightarrow> 0 < n \<Longrightarrow> parse_loop bs len (pos + n) acc' \<noteq> Err e" for n acc'
    by (rule less) auto
  from step [of "Suc 0"] step show ?case
    by (subst parse_loop.simps)
      (auto simp: index_def slice_def split: obind_split dest: token_len_at_pos)
qed

lemma parse_not_Err [simp]: "parse h bs \<noteq> Err e"
  by (simp add: parse_def Let_def split: obind_split)

section \<open>Reading integers\<close>

lemma le_nat_take_Suc:
  "k < length xs \<Longrightarrow> le_nat (take (Suc k) xs) = le_nat (take k xs) + 256 ^ k * unat (xs ! k)"
  by (simp add: take_Suc_conv_app_nth le_nat_append)

lemma uint_loop_eq:
  assumes "n = length tok" "k \<le> n" "n \<le> 8" "unat w = le_nat (take k (rev tok))"
  shows "unat (uint_loop tok [k..<n] (n - k) w) = be_nat tok"
  using assms(2-4)
proof (induction "n - k" arbitrary: k w)
  case 0
  then show ?case using assms(1) by (simp add: be_nat_def)
next
  case (Suc m)
  then have k: "k < n" "k \<le> 7" by simp_all
  let ?w = "w OR push_bit (8 * k) (ucast (rev tok ! k))"
  have byte: "tok ! (n - Suc k) = rev tok ! k"
    using k assms(1) by (simp add: rev_nth)
  have "unat w < 2 ^ (8 * k)"
    using le_nat_bound [of "take k (rev tok)"] k assms(1) Suc.prems(3)
    by (simp add: power_mult)
  then have "unat ?w = unat (rev tok ! k) * 2 ^ (8 * k) + unat w"
    using k by (simp add: unsigned_or_eq unat_push_byte) (subst or.commute, simp add: push_bit_or_nat)
  then have "unat ?w = le_nat (take (Suc k) (rev tok))"
    using k assms(1) Suc.prems(3) by (simp add: le_nat_take_Suc power_mult)
  moreover have "m = n - Suc k" "Suc k \<le> n" using Suc.hyps(2) k by simp_all
  ultimately have "unat (uint_loop tok [Suc k..<n] (n - Suc k) ?w) = be_nat tok"
    using Suc.hyps(1) Suc.prems(2) by blast
  then show ?case using k by (simp add: upt_conv_Cons byte)
qed

text \<open>
  Of a short unsigned atom with at most seven bytes the loop returns the big-endian number
  of all its bytes, the atom's own header byte included.
\<close>

lemma get_uint_short:
  assumes "response_tokens r ! i = h # bs" "i < length (response_tokens r)" "length bs \<le> 7"
    and "h AND 0x80 \<noteq> 0" "h AND 0x40 = 0" "h AND 0x10 = 0"
  shows "\<exists>w. get_uint r i = Ok w \<and> unat w = unat h * 256 ^ length bs + be_nat bs"
  using assms uint_loop_eq [of "length (h # bs)" "h # bs" 0 0]
  by (simp add: get_uint_def index_def be_nat_Cons)

lemma get_uint_tiny:
  assumes "response_tokens r ! i = [h]" "i < length (response_tokens r)"
    and "h AND 0x80 = 0" "h AND 0x40 = 0"
  shows "get_uint r i = Ok (ucast (h AND 0x3f))"
  using assms by (simp add: get_uint_def index_def)

section \<open>Properties\<close>

text \<open>
  C17: the response parser inverts the atom encoding: on a packet whose subpacket spells a
  list of atoms it returns exactly these atoms in order, the empty atom left out, whatever
  follows the subpacket in the buffer.
\<close>

theorem parse_spells:
  assumes "carries bs as" "length hb = 56" "unat (sub_length (subpkt h)) = length bs"
  shows "\<exists>r. (parse h (hb @ bs @ rest) :: ('e, _) outcome) = Ok r \<and> response_header r = h \<and>
    response_says r (filter (\<lambda>a. a \<noteq> Ctl 0xFF) as)"
  using parse_carries [OF assms, of rest] .

theorem parse_spells_witness:
  "\<exists>r. (parse (opal_header_default\<lparr>subpkt := subpacket_header_default\<lparr>sub_length := 3\<rparr>\<rparr>)
      (replicate 56 0 @ [0xF0, 0xFF, 5] @ [9]) :: (unit, _) outcome) = Ok r \<and> response_says r [Ctl 0xF0, Uint 5]"
proof -
  have "carries [0xF0, 0xFF, 5] [Ctl 0xF0, Ctl 0xFF, Uint 5]"
    by (intro carries_Cons carries_Nil) (simp_all add: decode_atom_def)
  from parse_spells [where 'e = unit, OF this, of "replicate 56 0"
      "opal_header_default\<lparr>subpkt := subpacket_header_default\<lparr>sub_length := 3\<rparr>\<rparr>" "[9]"]
  show ?thesis by (auto simp: opal_header_default_def)
qed

text \<open>
  A number in a short atom of four bytes, the form in which drives send session numbers,
  survives the cast to 32 bits that its users apply.
\<close>

theorem get_uint_four_bytes:
  assumes "i < length (response_tokens r)" "response_tokens r ! i = h # bs" "length bs = 4"
    and "h AND 0x80 \<noteq> 0" "h AND 0x40 = 0" "h AND 0x10 = 0"
  shows "\<exists>w. (get_uint r i :: ('e, _) outcome) = Ok w \<and> unat (ucast w :: u32) = be_nat bs"
proof -
  obtain w where w: "(get_uint r i :: ('e, _) outcome) = Ok w" "unat w = unat h * 256 ^ 4 + be_nat bs"
    using get_uint_short [OF assms(2,1) _ assms(4-6)] assms(3) by auto
  have "be_nat bs < 256 ^ 4" using be_nat_bound [of bs] assms(3) by simp
  have "unat (ucast w :: u32) = unat w mod 256 ^ 4"
    by (simp add: unsigned_ucast_eq take_bit_eq_mod)
  then have "unat (ucast w :: u32) = be_nat bs"
    using w(2) \<open>be_nat bs < 256 ^ 4\<close> by (simp only: mod_mult_self3 mod_less)
  with w(1) show ?thesis by blast
qed

theorem get_uint_four_bytes_witness:
  "\<exists>w. (get_uint \<lparr>response_header = opal_header_default, response_tokens = [[0x84, 0, 0, 1, 2]]\<rparr> 0 :: (unit, _) outcome) = Ok w \<and>
    unat (ucast w :: u32) = 258"
  using get_uint_four_bytes [where 'e = unit, of 0 "\<lparr>response_header = opal_header_default, response_tokens = [[0x84, 0, 0, 1, 2]]\<rparr>" "0x84" "[0, 0, 1, 2]"]
  by (simp add: be_nat_def)

text \<open>
  In general the value read from a short atom is not its number: the loop also takes in the
  atom's header byte, as its most significant byte.
\<close>

theorem get_uint_takes_header:
  assumes "i < length (response_tokens r)" "response_tokens r ! i = h # bs" "length bs \<le> 7"
    and "h AND 0x80 \<noteq> 0" "h AND 0x40 = 0" "h AND 0x10 = 0"
  shows "\<exists>w. (get_uint r i :: ('e, _) outcome) = Ok w \<and> unat w = unat h * 256 ^ length bs + be_nat bs \<and> unat w \<noteq> be_nat bs"
proof -
  have "h \<noteq> 0" using assms(4) by auto
  then have "0 < unat h" by (intro gr0I) (simp add: unsigned_eq_0_iff)
  then show ?thesis using get_uint_short [OF assms(2,1,3-6)] by fastforce
qed

theorem get_uint_takes_header_witness:
  "\<exists>w. (get_uint \<lparr>response_header = opal_header_default, response_tokens = [[0x81, 105]]\<rparr> 0 :: (unit, _) outcome) = Ok w \<and> unat w = 33129"
  using get_uint_takes_header [where 'e = unit, of 0 "\<lparr>response_header = opal_header_default, response_tokens = [[0x81, 105]]\<rparr>" "0x81" "[105]"]
  by (auto simp: be_nat_def)

end
