(* ===== verification/Secure_Io.thy ===== *)
theory Secure_Io imports Response begin

text \<open>
  The drive behind a security protocol: \<^verbatim>\<open>opal/src/io.rs\<close> and the error type of
  \<^verbatim>\<open>opal/src/lib.rs\<close>. The trait \<^verbatim>\<open>SecureProtocol\<close> is a record of its methods over an
  abstract device state; \<open>recv_info\<close> is level 0 discovery and \<open>secure_device_new\<close> the
  constructor that picks the communication id. The specification side is a list of
  feature descriptors: on a buffer that encodes one, discovery is the fold of the
  descriptors' meaning.
\<close>

section \<open>The trait\<close>

record ('d, 'err) secure_protocol =
  secure_send :: "u8 \<Rightarrow> u16 \<Rightarrow> u8 list \<Rightarrow> ('d, 'err, unit) prog"
  secure_recv :: "u8 \<Rightarrow> u16 \<Rightarrow> u8 list \<Rightarrow> ('d, 'err, u8 list) prog"
  reconnect_controller :: "('d, 'err, unit) prog"
  align :: "'d \<Rightarrow> nat"
  serial_num :: "'d \<Rightarrow> u8 list"

text \<open>
  What the clients of the trait rely on: \<^verbatim>\<open>secure_recv\<close> fills the slice it is given, whose
  length it cannot change, and no method changes the alignment or the serial number,
  which the implementations fix when the device is opened.
\<close>

locale protocol_laws =
  fixes P :: "('d, 'err) secure_protocol"
  assumes recv_length: "secure_recv P pr cid buf d = (Ok buf', d') \<Longrightarrow> length buf' = length buf"
    and align_send: "secure_send P pr cid buf d = (r, d') \<Longrightarrow> align P d' = align P d"
    and align_recv: "secure_recv P pr cid buf d = (r', d') \<Longrightarrow> align P d' = align P d"
    and align_reconnect: "reconnect_controller P d = (r, d') \<Longrightarrow> align P d' = align P d"
    and serial_send: "secure_send P pr cid buf d = (r, d') \<Longrightarrow> serial_num P d' = serial_num P d"
    and serial_recv: "secure_recv P pr cid buf d = (r', d') \<Longrightarrow> serial_num P d' = serial_num P d"
    and serial_reconnect: "reconnect_controller P d = (r, d') \<Longrightarrow> serial_num P d' = serial_num P d"

datatype 'e error =
    Io 'e
  | Unsupported
  | IncompatibleVersion
  | Pbkdf
  | RawKeyInvalidLength
  | Opal opal_error

section \<open>Discovery data\<close>

datatype feature_codes = FeatureCodes u16

definition LOCKING :: feature_codes where "LOCKING = FeatureCodes 0x0002"
definition ENTERPRISE :: feature_codes where "ENTERPRISE = FeatureCodes 0x0100"
definition OPAL_V2 :: feature_codes where "OPAL_V2 = FeatureCodes 0x0203"

lemmas feature_code_defs = LOCKING_def ENTERPRISE_def OPAL_V2_def

text \<open>\<^verbatim>\<open>bitflags!\<close>: \<^verbatim>\<open>from_bits\<close> refuses a byte with a bit that no flag names.\<close>

datatype locking_flags = LockingFlags (flag_bits: u8)

definition LOCKING_SUPPORTED :: locking_flags where "LOCKING_SUPPORTED = LockingFlags 0x01"
definition LOCKING_ENABLED :: locking_flags where "LOCKING_ENABLED = LockingFlags 0x02"
definition LOCKED :: locking_flags where "LOCKED = LockingFlags 0x04"
definition MEDIA_ENCRYPTION :: locking_flags where "MEDIA_ENCRYPTION = LockingFlags 0x08"
definition MBR_ENABLED :: locking_flags where "MBR_ENABLED = LockingFlags 0x10"
definition MBR_DONE :: locking_flags where "MBR_DONE = LockingFlags 0x20"

definition all_flags :: u8 where
  "all_flags = flag_bits LOCKING_SUPPORTED OR flag_bits LOCKING_ENABLED OR flag_bits LOCKED
     OR flag_bits MEDIA_ENCRYPTION OR flag_bits MBR_ENABLED OR flag_bits MBR_DONE"

definition from_bits :: "u8 \<Rightarrow> locking_flags option" where
  "from_bits b = (if b AND NOT all_flags = 0 then Some (LockingFlags b) else None)"

definition flags_contain :: "locking_flags \<Rightarrow> locking_flags \<Rightarrow> bool" where
  "flags_contain l other = (flag_bits l AND flag_bits other = flag_bits other)"

record com_id_info =
  base_com_id :: u16
  num_com_ids :: u16

record secure_device_info =
  locking :: "locking_flags option"
  opal_v2 :: "com_id_info option"
  enterprise :: "com_id_info option"

section \<open>Level 0 discovery\<close>

definition be16 :: "u8 \<Rightarrow> u8 \<Rightarrow> u16" where
  "be16 hi lo = (push_bit 8 (ucast hi) OR ucast lo)"

definition get_com_id :: "u8 list \<Rightarrow> nat \<Rightarrow> ('e, com_id_info) outcome" where
  "get_com_id buffer offset =
     obind (index buffer offset) (\<lambda>b0.
     obind (index buffer (offset + 1)) (\<lambda>b1.
     obind (index buffer (offset + 2)) (\<lambda>b2.
     obind (index buffer (offset + 3)) (\<lambda>b3.
     Ok \<lparr>base_com_id = be16 b0 b1, num_com_ids = be16 b2 b3\<rparr>))))"

text \<open>One \<^verbatim>\<open>match\<close> of the loop: \<open>None\<close> is the \<^verbatim>\<open>break\<close> of the locking branch.\<close>

definition match_feature ::
  "u8 list \<Rightarrow> nat \<Rightarrow> feature_codes \<Rightarrow> secure_device_info \<Rightarrow> ('e, secure_device_info option) outcome" where
  "match_feature buffer offset code info =
     (if code = LOCKING then
        (case get buffer (offset + 4) of
           Some bits \<Rightarrow> Ok (Some (info\<lparr>locking := from_bits bits\<rparr>))
         | None \<Rightarrow> Ok None)
      else if code = ENTERPRISE then
        obind (get_com_id buffer (offset + 4)) (\<lambda>c. Ok (Some (info\<lparr>enterprise := Some c\<rparr>)))
      else if code = OPAL_V2 then
        obind (get_com_id buffer (offset + 4)) (\<lambda>c. Ok (Some (info\<lparr>opal_v2 := Some c\<rparr>)))
      else Ok (Some info))"

function discovery_loop ::
  "u8 list \<Rightarrow> nat \<Rightarrow> secure_device_info \<Rightarrow> ('e, secure_device_info) outcome" where
  "discovery_loop buffer offset info =
     (if offset < length buffer - 1 then
        obind (index buffer offset) (\<lambda>b0.
        obind (index buffer (offset + 1)) (\<lambda>b1.
        obind (match_feature buffer offset (FeatureCodes (be16 b0 b1)) info) (\<lambda>m.
        case m of None \<Rightarrow> Ok info
        | Some info' \<Rightarrow>
            (case get buffer (offset + 3) of None \<Rightarrow> Ok info'
             | Some len \<Rightarrow> discovery_loop buffer (offset + (unat len + 4)) info'))))
      else Ok info)"
  by pat_completeness auto
termination
  by (relation "measure (\<lambda>(buffer, offset, info). length buffer - offset)") auto

declare discovery_loop.simps [simp del]

definition no_info :: secure_device_info where
  "no_info = \<lparr>locking = None, opal_v2 = None, enterprise = None\<rparr>"

definition recv_info :: "('d, 'err) secure_protocol \<Rightarrow> ('d, 'err error, secure_device_info) prog" where
  "recv_info P d =
     pbind (pure (alloc_aligned 1024 (align P d))) (\<lambda>buffer.
     pbind (pmap_err Io (secure_recv P 1 1 buffer)) (\<lambda>buffer.
     pbind (pure (slice buffer 4 8)) (\<lambda>version.
     if version \<noteq> [0, 0, 0, 1] then pure (Err IncompatibleVersion)
     else pure (discovery_loop buffer 48 no_info)))) d"

section \<open>The device\<close>

record 'd secure_device =
  device :: 'd
  com_id :: u16
  is_eprise :: bool
  was_locked :: bool

definition locked_flag :: "secure_device_info \<Rightarrow> bool" where
  "locked_flag info = (case locking info of None \<Rightarrow> False | Some l \<Rightarrow> flags_contain l LOCKED)"

definition secure_device_new :: "('d, 'err) secure_protocol \<Rightarrow> ('d, 'err error, 'd secure_device) prog" where
  "secure_device_new P =
     pbind (recv_info P) (\<lambda>info d.
     (case (case enterprise info of Some x \<Rightarrow> Some x | None \<Rightarrow> opal_v2 info) of
        None \<Rightarrow> (Err Unsupported, d)
      | Some c \<Rightarrow>
          (Ok \<lparr>device = d, com_id = base_com_id c, is_eprise = (enterprise info \<noteq> None),
             was_locked = locked_flag info\<rparr>, d)))"

abbreviation on_device :: "('d, 'err, 'a) prog \<Rightarrow> ('d secure_device, 'err, 'a) prog" where
  "on_device m \<equiv> zoom device (\<lambda>d s. s\<lparr>device := d\<rparr>) m"

definition dev_reconnect_controller :: "('d, 'err) secure_protocol \<Rightarrow> ('d secure_device, 'err error, unit) prog" where
  "dev_reconnect_controller P = pmap_err Io (on_device (reconnect_controller P))"

definition recv_locked :: "('d, 'err) secure_protocol \<Rightarrow> ('d secure_device, 'err error, bool) prog" where
  "recv_locked P = pbind (on_device (recv_info P)) (\<lambda>info. pure (Ok (locked_flag info)))"

end
