(* ===== verification/Uefi.thy ===== *)
theory Uefi imports Secure_Io begin

text \<open>
  What the low-level code uses of the firmware: status codes, the two boot services that
  reconnect a controller, and the allocators of \<^verbatim>\<open>src/util.rs\<close>. The services themselves are
  parameters: functions on the state \<open>'d\<close> of the machine.
\<close>

section \<open>Status codes\<close>

datatype status = UefiStatus (status_code: u64)

definition STATUS_SUCCESS :: status where "STATUS_SUCCESS = UefiStatus 0"
definition STATUS_NOT_FOUND :: status where "STATUS_NOT_FOUND = UefiStatus 0x800000000000000E"
definition STATUS_INVALID_PARAMETER :: status where "STATUS_INVALID_PARAMETER = UefiStatus 0x8000000000000002"
definition STATUS_BUFFER_TOO_SMALL :: status where "STATUS_BUFFER_TOO_SMALL = UefiStatus 0x8000000000000005"

lemmas status_defs = STATUS_SUCCESS_def STATUS_NOT_FOUND_def STATUS_INVALID_PARAMETER_def STATUS_BUFFER_TOO_SMALL_def

text \<open>\<^verbatim>\<open>StatusExt::to_result_with_val\<close> of the crate \<^verbatim>\<open>uefi\<close>: everything but success is an error.\<close>

definition to_result :: "status \<Rightarrow> 'a \<Rightarrow> (status, 'a) outcome" where
  "to_result s v = (if s = STATUS_SUCCESS then Ok v else Err s)"

lemma to_result_iff [simp]:
  "to_result s v = Ok w \<longleftrightarrow> s = STATUS_SUCCESS \<and> w = v" "to_result s v = Err t \<longleftrightarrow> s \<noteq> STATUS_SUCCESS \<and> t = s"
  "to_result s v \<noteq> Halt h"
  by (auto simp: to_result_def)

datatype uefi_error = UefiError status

text \<open>A device path is the string of its bytes; a handle is a number.\<close>

type_synonym device_path = "u8 list"

section \<open>Boot services\<close>

record 'd boot_services =
  disconnect_controller :: "nat \<Rightarrow> 'd \<Rightarrow> status \<times> 'd"
  connect_controller :: "nat \<Rightarrow> 'd \<Rightarrow> status \<times> 'd"

text \<open>A firmware call as a computation.\<close>

definition call_status :: "('d \<Rightarrow> status \<times> 'd) \<Rightarrow> ('d, status, unit) prog" where
  "call_status f d = (case f d of (s, d') \<Rightarrow> (to_result s (), d'))"

text \<open>Both implementations of \<^verbatim>\<open>SecureProtocol\<close> reconnect a controller in the same two steps.\<close>

definition uefi_reconnect :: "'d boot_services \<Rightarrow> nat \<Rightarrow> ('d, uefi_error, unit) prog" where
  "uefi_reconnect bs h =
     pbind (pmap_err UefiError (call_status (disconnect_controller bs h))) (\<lambda>_.
     pmap_err UefiError (call_status (connect_controller bs h)))"

text \<open>Boot services beside a log that leave it alone, and services that always succeed.\<close>

definition logged_services :: "'d boot_services \<Rightarrow> ('d \<times> 'l) boot_services" where
  "logged_services bs =
     \<lparr>disconnect_controller = (\<lambda>h (d, l). case disconnect_controller bs h d of (s, d') \<Rightarrow> (s, d', l)),
      connect_controller = (\<lambda>h (d, l). case connect_controller bs h d of (s, d') \<Rightarrow> (s, d', l))\<rparr>"

definition calm_services :: "'d boot_services" where
  "calm_services = \<lparr>disconnect_controller = (\<lambda>h d. (STATUS_SUCCESS, d)), connect_controller = (\<lambda>h d. (STATUS_SUCCESS, d))\<rparr>"

lemma uefi_reconnect_log: "snd (snd (uefi_reconnect (logged_services bs) h d)) = snd d"
  by (cases d) (auto simp: uefi_reconnect_def call_status_def logged_services_def pbind_def
      pmap_err_def split: prod.splits outcome.splits)

section \<open>Buffers\<close>

text \<open>\<^verbatim>\<open>alloc_init_aligned\<close> zeroes its memory as \<^verbatim>\<open>alloc_aligned\<close> of the crate \<^verbatim>\<open>opal\<close> does.\<close>

definition alloc_init_aligned :: "nat \<Rightarrow> nat \<Rightarrow> ('e, u8 list) outcome" where
  "alloc_init_aligned len al = (if layout_ok len al then Ok (replicate len 0) else Panic)"

text \<open>\<open>alloc_aligned_t\<close> places a value whose type has the given size.\<close>

definition alloc_aligned_t :: "nat \<Rightarrow> 'a \<Rightarrow> nat \<Rightarrow> ('e, 'a) outcome" where
  "alloc_aligned_t sz t al = (if layout_ok sz al then Ok t else Panic)"

text \<open>What uninitialised memory holds is a parameter \<open>mem\<close>, cut or padded to the length.\<close>

definition alloc_uninit_aligned :: "u8 list \<Rightarrow> nat \<Rightarrow> nat \<Rightarrow> ('e, u8 list) outcome" where
  "alloc_uninit_aligned mem len al =
     (if layout_ok len al then Ok (take len (mem @ replicate len 0)) else Panic)"

text \<open>
  The bytes a device transfers land at the front of a buffer; what does not fit is not
  transferred, and the rest of the buffer keeps its contents.
\<close>

definition landed :: "u8 list \<Rightarrow> u8 list \<Rightarrow> u8 list" where
  "landed buf out = take (length buf) out @ drop (length out) buf"

lemma length_landed [simp]: "length (landed buf out) = length buf"
  by (simp add: landed_def)

lemma length_alloc_uninit: "alloc_uninit_aligned mem len al = Ok b \<Longrightarrow> length b = len"
  by (auto simp: alloc_uninit_aligned_def split: if_splits)

lemma layout_align_0 [simp]: "\<not> layout_ok n 0"
  by (simp add: layout_ok_def is_power_of_two_def)

end
