(* ===== verification/Discovery.thy ===== *)
theory Discovery imports Secure_Io begin

text \<open>
  What level 0 discovery computes. A discovery response is specified as a list of feature
  descriptors; the loop over the raw buffer is the fold of their meanings, whatever
  follows them up to the end of the buffer as long as it is zero. The section on flags
  says when a drive counts as locked.
\<close>

datatype feature = Feature (feature_code: u16) (feature_version: u8) (feature_data: "u8 list")

definition feature_bytes :: "feature \<Rightarrow> u8 list" where
  "feature_bytes f = [ucast (drop_bit 8 (feature_code f)), ucast (feature_code f), feature_version f,
     word_of_nat (length (feature_data f))] @ feature_data f"

definition data_com_id :: "u8 list \<Rightarrow> com_id_info" where
  "data_com_id d = \<lparr>base_com_id = be16 (d ! 0) (d ! 1), num_com_ids = be16 (d ! 2) (d ! 3)\<rparr>"

definition apply_feature :: "feature \<Rightarrow> secure_device_info \<Rightarrow> secure_device_info" where
  "apply_feature f info =
     (let code = FeatureCodes (feature_code f); d = feature_data f in
      if code = LOCKING then info\<lparr>locking := from_bits (d ! 0)\<rparr>
      else if code = ENTERPRISE then info\<lparr>enterprise := Some (data_com_id d)\<rparr>
      else if code = OPAL_V2 then info\<lparr>opal_v2 := Some (data_com_id d)\<rparr>
      else info)"

text \<open>The data a descriptor must have for its reader: one byte of flags, or four of ids.\<close>

definition feature_wf :: "feature \<Rightarrow> bool" where
  "feature_wf f \<longleftrightarrow> length (feature_data f) < 256 \<and>
     (FeatureCodes (feature_code f) = LOCKING \<longrightarrow> feature_data f \<noteq> []) \<and>
     (FeatureCodes (feature_code f) \<in> {ENTERPRISE, OPAL_V2} \<longrightarrow> 4 \<le> length (feature_data f))"

lemma be16_split: "be16 (ucast (drop_bit 8 c)) (ucast c) = c"
  unfolding be16_def by (intro bit_word_eqI) (auto simp: bit_simps)

lemma feature_length: "feature_wf f \<Longrightarrow> unat (word_of_nat (length (feature_data f)) :: u8) = length (feature_data f)"
  by (simp add: feature_wf_def unat_byte_of_nat)

lemma discovery_step:
  assumes "feature_wf f"
  shows "(discovery_loop (pre @ feature_bytes f @ post) (length pre) info :: ('e, _) outcome) =
    discovery_loop (pre @ feature_bytes f @ post) (length pre + length (feature_bytes f)) (apply_feature f info)"
proof -
  let ?d = "feature_data f" and ?buf = "pre @ feature_bytes f @ post"
  have lf: "length (feature_bytes f) = 4 + length ?d" by (simp add: feature_bytes_def)
  have at: "i < 4 + length ?d \<Longrightarrow> ?buf ! (length pre + i) = feature_bytes f ! i" for i
    by (simp add: nth_append lf)
  have len: "length ?buf = length pre + (4 + length ?d) + length post"
    by (simp add: feature_bytes_def)
  have d: "i < length ?d \<Longrightarrow> feature_bytes f ! (4 + i) = ?d ! i" for i
    by (simp add: feature_bytes_def)
  have data: "i < length ?d \<Longrightarrow> ?buf ! (length pre + (4 + i)) = ?d ! i" for i
    using at [of "4 + i"] d [of i] by simp
  have head: "index ?buf (length pre) = (Ok (ucast (drop_bit 8 (feature_code f))) :: ('e, _) outcome)"
    "index ?buf (length pre + 1) = (Ok (ucast (feature_code f)) :: ('e, _) outcome)"
    "get ?buf (length pre + 3) = Some (word_of_nat (length ?d))"
    using at [of 0] at [of 1] at [of 3] by (simp_all add: feature_bytes_def index_def get_def)
  have flags: "get ?buf (length pre + 4) = Some (?d ! 0)" if "?d \<noteq> []"
    using that data [of 0] by (auto simp add: get_def lf)
  have at_data: "i < length ?d \<Longrightarrow> index ?buf (length pre + 4 + i) = (Ok (?d ! i) :: ('e, _) outcome)" for i
    using data [of i] by (simp add: index_def lf add.assoc)
  have ids: "get_com_id ?buf (length pre + 4) = (Ok (data_com_id ?d) :: ('e, _) outcome)"
    if "4 \<le> length ?d"
  proof -
    have "0 < length ?d" "1 < length ?d" "2 < length ?d" "3 < length ?d" using that by linarith+
    then show ?thesis
      by (simp only: get_com_id_def at_data at_data [of 0, unfolded add_0_right] obind.simps data_com_id_def)
  qed
  have "match_feature ?buf (length pre) (FeatureCodes (feature_code f)) info =
      (Ok (Some (apply_feature f info)) :: ('e, _) outcome)"
    using assms flags ids by (auto simp: match_feature_def apply_feature_def Let_def feature_wf_def)
  moreover have "length (feature_bytes f) = unat (word_of_nat (length ?d) :: u8) + 4"
    using feature_length [OF assms] by (simp add: feature_bytes_def)
  moreover have "length pre < length ?buf - 1" by (simp add: lf)
  ultimately show ?thesis
    by (subst (1) discovery_loop.simps) (simp only: head be16_split obind.simps option.case if_True)
qed

lemma discovery_features:
  assumes "list_all feature_wf fs"
  shows "(discovery_loop (pre @ concat (map feature_bytes fs) @ post) (length pre) info :: ('e, _) outcome) =
    discovery_loop (pre @ concat (map feature_bytes fs) @ post)
      (length pre + length (concat (map feature_bytes fs))) (fold apply_feature fs info)"
  using assms
proof (induction fs arbitrary: pre info)
  case (Cons f fs)
  then show ?case
    using discovery_step [where 'e = 'e, of f pre "concat (map feature_bytes fs) @ post" info]
      Cons.IH [of "pre @ feature_bytes f" "apply_feature f info"]
    by (simp add: add.assoc)
qed simp

text \<open>Zero bytes up to the end of the buffer are descriptors of a feature nobody reads.\<close>

lemma discovery_zeroes:
  assumes "\<forall>i. offset \<le> i \<longrightarrow> i < length buffer \<longrightarrow> buffer ! i = 0"
  shows "(discovery_loop buffer offset info :: ('e, _) outcome) = Ok info"
  using assms
proof (induction "length buffer - offset" arbitrary: offset rule: less_induct)
  case less
  have "be16 0 0 = 0" by (simp add: be16_def)
  then have "match_feature buffer offset (FeatureCodes (be16 0 0)) info = (Ok (Some info) :: ('e, _) outcome)"
    by (simp add: match_feature_def feature_code_defs)
  moreover have "discovery_loop buffer (offset + 4) info = (Ok info :: ('e, _) outcome)" if "offset + 3 < length buffer"
    using that less by simp
  ultimately show ?case using less(2)
    by (subst discovery_loop.simps) (auto simp: index_def get_def)
qed

lemma discovery_response:
  assumes "list_all feature_wf fs" "length pre = 48"
  shows "(discovery_loop (pre @ concat (map feature_bytes fs) @ replicate k 0) 48 no_info :: ('e, _) outcome) =
    Ok (fold apply_feature fs no_info)"
proof -
  let ?buf = "pre @ concat (map feature_bytes fs) @ replicate k 0"
  have "discovery_loop ?buf (48 + length (concat (map feature_bytes fs))) info = (Ok info :: ('e, _) outcome)" for info
    using assms(2) by (intro discovery_zeroes) (auto simp: nth_append)
  then show ?thesis
    using discovery_features [where 'e = 'e, OF assms(1), of pre "replicate k 0" no_info] assms(2) by simp
qed

section \<open>The lock flag\<close>

lemma from_bits_known: "from_bits b = (if b AND 0xC0 = 0 then Some (LockingFlags b) else None)"
proof -
  have "NOT all_flags = (0xC0 :: u8)"
    by (simp add: all_flags_def LOCKING_SUPPORTED_def LOCKING_ENABLED_def LOCKED_def
        MEDIA_ENCRYPTION_def MBR_ENABLED_def MBR_DONE_def)
  then show ?thesis by (simp add: from_bits_def)
qed

lemma locked_flag_iff:
  "locking info = from_bits b \<Longrightarrow> locked_flag info \<longleftrightarrow> b AND 0xC0 = 0 \<and> b AND 0x04 = 0x04"
  by (simp add: locked_flag_def from_bits_known flags_contain_def LOCKED_def)

section \<open>Properties\<close>

text \<open>
  C15: opening a drive. When level 0 discovery returns a version 1 response that lists
  well-formed feature descriptors, zeroes up to the end, the device is the one the descriptors
  describe: the communication id of the enterprise feature, else of Opal 2, else the drive is
  unsupported; it counts as locked as the locking descriptor says.
\<close>

theorem device_from_features:
  assumes "layout_ok 1024 (align P d)"
    and "secure_recv P 1 1 (replicate 1024 0) d = (Ok (pre @ concat (map feature_bytes fs) @ replicate k 0), d')"
    and "length pre = 48" "take 4 (drop 4 pre) = [0, 0, 0, 1]" "list_all feature_wf fs"
  shows "secure_device_new P d =
    (let info = fold apply_feature fs no_info in
     case (case enterprise info of Some c \<Rightarrow> Some c | None \<Rightarrow> opal_v2 info) of
       None \<Rightarrow> (Err Unsupported, d')
     | Some c \<Rightarrow> (Ok \<lparr>device = d', com_id = base_com_id c, is_eprise = (enterprise info \<noteq> None),
         was_locked = locked_flag info\<rparr>, d'))"
proof -
  let ?buf = "pre @ concat (map feature_bytes fs) @ replicate k 0"
  have "slice ?buf 4 8 = (Ok [0, 0, 0, 1] :: ('b error, _) outcome)"
    using assms(3,4) by (simp add: slice_def)
  then have "recv_info P d = (Ok (fold apply_feature fs no_info), d')"
    using assms(1,2) discovery_response [where 'e = "'b error", OF assms(5,3), of k]
    by (simp add: recv_info_def alloc_aligned_def pbind_def pmap_err_def pure_def)
  then show ?thesis
    by (simp add: secure_device_new_def pbind_def Let_def split: option.splits)
qed

definition opal_fixture :: "u8 list" where
  "opal_fixture = replicate 7 0 @ [1] @ replicate 40 0 @
     concat (map feature_bytes [Feature 0x0002 0x10 [0x07], Feature 0x0203 0x10 [0x10, 0x04, 0x00, 0x01]]) @ replicate 959 0"

theorem device_from_features_witness:
  "secure_device_new \<lparr>secure_send = (\<lambda>pr cid buf d. (Ok (), d)), secure_recv = (\<lambda>pr cid buf d. (Ok opal_fixture, d)),
       reconnect_controller = (\<lambda>d. (Ok (), d)), align = (\<lambda>d. 1), serial_num = (\<lambda>d. [])\<rparr> (5 :: nat) =
     ((Ok \<lparr>device = 5, com_id = 0x1004, is_eprise = False, was_locked = True\<rparr> :: (unit error, _) outcome), 5)"
proof -
  let ?P = "\<lparr>secure_send = (\<lambda>pr cid buf d. (Ok (), d)), secure_recv = (\<lambda>pr cid buf d. (Ok opal_fixture, d)),
       reconnect_controller = (\<lambda>d. (Ok (), d)), align = (\<lambda>d. 1), serial_num = (\<lambda>d. [])\<rparr> :: (nat, unit) secure_protocol"
  let ?fs = "[Feature 0x0002 0x10 [0x07], Feature 0x0203 0x10 [0x10, 0x04, 0x00, 0x01]]"
  have "secure_device_new ?P 5 =
    (let info = fold apply_feature ?fs no_info in
     case (case enterprise info of Some c \<Rightarrow> Some c | None \<Rightarrow> opal_v2 info) of
       None \<Rightarrow> (Err Unsupported, 5)
     | Some c \<Rightarrow> (Ok \<lparr>device = 5, com_id = base_com_id c, is_eprise = (enterprise info \<noteq> None),
         was_locked = locked_flag info\<rparr>, 5))"
    by (rule device_from_features [where pre = "replicate 7 0 @ [1] @ replicate 40 0" and k = 959])
      (simp_all add: opal_fixture_def layout_ok_def is_power_of_two_def feature_wf_def feature_code_defs replicate_small)
  moreover have "locked_flag (fold apply_feature ?fs no_info)"
    using locked_flag_iff [of "fold apply_feature ?fs no_info" 7]
    by (simp add: apply_feature_def feature_code_defs Let_def no_info_def)
  ultimately show ?thesis
    by (simp add: apply_feature_def feature_code_defs Let_def no_info_def data_com_id_def be16_def)
qed

text \<open>
  A discovery response of any other version is refused, and nothing of it is read.
\<close>

theorem other_version_refused:
  assumes "layout_ok 1024 (align P d)"
    and "secure_recv P 1 1 (replicate 1024 0) d = (Ok buf, d')" "8 \<le> length buf" "take 4 (drop 4 buf) \<noteq> [0, 0, 0, 1]"
  shows "secure_device_new P d = (Err IncompatibleVersion, d')"
  using assms by (simp add: secure_device_new_def recv_info_def alloc_aligned_def pbind_def pmap_err_def pure_def slice_def)

theorem other_version_refused_witness:
  "secure_device_new \<lparr>secure_send = (\<lambda>pr cid buf d. (Ok (), d)), secure_recv = (\<lambda>pr cid buf d. (Ok (replicate 1024 2), d)),
       reconnect_controller = (\<lambda>d. (Ok (), d)), align = (\<lambda>d. 8), serial_num = (\<lambda>d. [])\<rparr> () =
     ((Err IncompatibleVersion :: (unit error, unit secure_device) outcome), ())"
  by (rule other_version_refused [where buf = "replicate 1024 2"])
    (simp_all add: layout_ok_def is_power_of_two_def replicate_small)

text \<open>
  What the flag byte of the locking feature means to the code: the drive counts as locked
  when the bit LOCKED is set and neither of the two bits without a name is. With one of these
  set, \<^verbatim>\<open>from_bits\<close> gives up and a locked drive counts as unlocked.
\<close>

theorem locked_needs_clear_reserved_bits:
  assumes "feature_wf f" "FeatureCodes (feature_code f) = LOCKING"
  shows "locked_flag (apply_feature f info) \<longleftrightarrow>
    feature_data f ! 0 AND 0x04 = 0x04 \<and> feature_data f ! 0 AND 0xC0 = 0"
  using locked_flag_iff [of "apply_feature f info" "feature_data f ! 0"] assms(2)
  by (auto simp: apply_feature_def Let_def)

theorem locked_needs_clear_reserved_bits_witness:
  "\<not> locked_flag (apply_feature (Feature 0x0002 0x10 [0x47]) no_info) \<and> (0x47 :: u8) AND 0x04 = 0x04"
  using locked_needs_clear_reserved_bits [of "Feature 0x0002 0x10 [0x47]" no_info]
  by (simp add: feature_wf_def feature_code_defs)

end
