(* ===== verification/Session.thy ===== *)
theory Session imports Discovery begin

text \<open>
  \<^verbatim>\<open>OpalSession\<close> of \<^verbatim>\<open>opal/src/session.rs\<close>: opening a session, sending a command and
  judging the response, the two commands that unlock a drive, and the destructor that
  closes the session. The session holds the device it talks to by exclusive reference,
  so the device is a component of its state.

  The polling loop of \<^verbatim>\<open>send_raw_command\<close> ends only when the drive says so. Its fuel bounds
  the number of polls; \<open>poll_more_fuel\<close> shows that fuel beyond what a run needs changes
  nothing, and a run that is cut short is \<open>Halt OutOfFuel\<close>.

  Logging (\<^verbatim>\<open>tracing\<close>) has no effect in the model, except that the slice expression in the
  second call of \<^verbatim>\<open>dump\<close> panics when the drive announces more than it can have sent.
\<close>

record 'd opal_session =
  session_device :: "'d secure_device"
  tsn :: u32
  hsn :: u32
  protocol :: u8

abbreviation session_proto :: "('d, 'err, 'a) prog \<Rightarrow> ('d opal_session, 'err error, 'a) prog" where
  "session_proto m \<equiv> pmap_err Io (zoom session_device (\<lambda>d s. s\<lparr>session_device := d\<rparr>) (on_device m))"

definition session_alloc ::
  "('d, 'err) secure_protocol \<Rightarrow> nat \<Rightarrow> ('d opal_session, 'err error, u8 list) prog" where
  "session_alloc P len s = pure (alloc_aligned len (align P (device (session_device s)))) s"

section \<open>Sending a command\<close>

definition lengths_swapped :: "opal_header \<Rightarrow> opal_header" where
  "lengths_swapped h =
     h\<lparr>cp := (cp h)\<lparr>cp_length := swap32 (cp_length (cp h))\<rparr>,
       pkt := (pkt h)\<lparr>pkt_length := swap32 (pkt_length (pkt h))\<rparr>,
       subpkt := (subpkt h)\<lparr>sub_length := swap32 (sub_length (subpkt h))\<rparr>\<rparr>"

fun poll ::
  "('d, 'err) secure_protocol \<Rightarrow> nat \<Rightarrow> u8 \<Rightarrow> u16 \<Rightarrow> u8 list \<Rightarrow>
   ('d opal_session, 'err error, opal_header \<times> u8 list) prog" where
  "poll P 0 pr cid buffer = pure (Halt OutOfFuel)"
| "poll P (Suc fuel) pr cid buffer =
     pbind (session_proto (secure_recv P pr cid buffer)) (\<lambda>buffer.
     let h = read_header buffer in
     if cp_outstanding_data (cp h) = 0 \<or> cp_min_transfer (cp h) \<noteq> 0
     then pure (Ok (h, buffer))
     else poll P fuel pr cid buffer)"

definition check_status :: "bool \<Rightarrow> opal_response \<Rightarrow> ('err error, opal_response) outcome" where
  "check_status e response =
     (let len = response_len response in
      if e \<and> len \<ge> 6
        \<and> response_is response (len - 6) token_ENDOFDATA
        \<and> response_is response (len - 5) token_STARTLIST
        \<and> response_is response (len - 1) token_ENDLIST
      then obind (get_uint response (len - 4)) (\<lambda>v.
           let code = StatusCode (ucast v) in
           if code \<noteq> SUCCESS then Err (Opal (Status code)) else Ok response)
      else Err (Opal NoMethodStatus))"

text \<open>The part of \<^verbatim>\<open>send_raw_command\<close> after the packet has left.\<close>

definition receive ::
  "('d, 'err) secure_protocol \<Rightarrow> nat \<Rightarrow> u8 \<Rightarrow> u16 \<Rightarrow> bool \<Rightarrow> ('d opal_session, 'err error, opal_response) prog" where
  "receive P fuel pr cid e =
     pbind (session_alloc P 2048) (\<lambda>buffer.
     pbind (poll P fuel pr cid buffer) (\<lambda>(h, buffer).
     let h = lengths_swapped h in
     pbind (pure (slice buffer 0 (unat (cp_length (cp h)) + size_of_com_packet_header))) (\<lambda>_.
     pbind (pure (parse h buffer)) (\<lambda>response.
     pure (check_status e response)))))"

definition send_packet ::
  "('d, 'err) secure_protocol \<Rightarrow> nat \<Rightarrow> u8 \<Rightarrow> u16 \<Rightarrow> opal_header \<Rightarrow> u8 list \<Rightarrow> bool \<Rightarrow>
   ('d opal_session, 'err error, opal_response) prog" where
  "send_packet P fuel pr cid h payl e =
     (let offset = size_of_opal_header in
      pbind (session_alloc P (length payl + offset)) (\<lambda>buffer.
      let buffer = overwrite buffer 0 (header_bytes h);
          buffer = overwrite buffer offset payl
      in pbind (session_proto (secure_send P pr cid buffer)) (\<lambda>_. receive P fuel pr cid e)))"

definition send_raw_command ::
  "('d, 'err) secure_protocol \<Rightarrow> nat \<Rightarrow> opal_command \<Rightarrow> ('d opal_session, 'err error, opal_response) prog" where
  "send_raw_command P fuel command0 s =
     (let cid = com_id (session_device s);
          command = set_session cid (tsn s) (hsn s) command0
      in send_packet P fuel (protocol s) cid (lengths_swapped (header command)) (payload command) (eod command) s)"

section \<open>The destructor\<close>

definition close_command :: "('e, opal_command) outcome" where
  "close_command =
     obind (tokens [Simple token_ENDOFSESSION]) (\<lambda>s.
     build_no_end_of_data (builder_add builder_empty s))"

text \<open>Every error of the closing message is swallowed.\<close>

definition drop_session :: "('d, 'err) secure_protocol \<Rightarrow> nat \<Rightarrow> ('d opal_session, 'err error, unit) prog" where
  "drop_session P fuel s =
     (case pbind (pure close_command) (send_raw_command P fuel) s of
        (Halt h, s') \<Rightarrow> (Halt h, s')
      | (_, s') \<Rightarrow> (Ok (), s'))"

section \<open>Opening a session\<close>

definition session_timeout :: "u8 list" where
  "session_timeout = map of_char ''SessionTimeout''"

definition start_command ::
  "bool \<Rightarrow> bs8 \<Rightarrow> bs8 \<Rightarrow> u8 list option \<Rightarrow> ('e, opal_command) outcome" where
  "start_command eprise sp_uid sign_authority challenge =
     obind (case challenge of
         Some ch \<Rightarrow>
           (if \<not> eprise then
              obind (token_name (Simple tiny_UINT_00) (Bytes ch)) (\<lambda>a.
              obind (token_name (Simple tiny_UINT_03) (Bs8 sign_authority)) (\<lambda>b.
              tokens [Stream a, Stream b]))
            else tokens [])
       | None \<Rightarrow> tokens []) (\<lambda>challenge_tokens.
     obind (builder_new uid_OPAL_SMUID method_STARTSESSION) (\<lambda>b.
     obind (if eprise then token_name (Bytes session_timeout) (U64 60000) else tokens []) (\<lambda>timeout.
     obind (token_list [U64 105, Bs8 sp_uid, Simple tiny_UINT_01, Stream challenge_tokens, Stream timeout]) (\<lambda>l.
     build (builder_add b l)))))"

text \<open>The exchange: the session numbers are those of the response.\<close>

definition start_exchange ::
  "('d, 'err) secure_protocol \<Rightarrow> nat \<Rightarrow> u8 list option \<Rightarrow> opal_command \<Rightarrow> ('d opal_session, 'err error, unit) prog" where
  "start_exchange P fuel challenge command =
     pbind (send_raw_command P fuel command) (\<lambda>response.
     pbind (pure (get_uint response 4)) (\<lambda>h.
     pbind (\<lambda>s. (Ok (), s\<lparr>hsn := ucast h\<rparr>)) (\<lambda>_.
     pbind (pure (get_uint response 5)) (\<lambda>t.
     pbind (\<lambda>s. (Ok (), s\<lparr>tsn := ucast t\<rparr>)) (\<lambda>_ s.
     case challenge of
       Some ch \<Rightarrow> (if is_eprise (session_device s) then (Panic, s) else (Ok (), s))
     | None \<Rightarrow> (Ok (), s))))))"

definition start_body ::
  "('d, 'err) secure_protocol \<Rightarrow> nat \<Rightarrow> bs8 \<Rightarrow> bs8 \<Rightarrow> u8 list option \<Rightarrow>
   ('d opal_session, 'err error, unit) prog" where
  "start_body P fuel sp_uid sign_authority challenge s =
     pbind (pure (start_command (is_eprise (session_device s)) sp_uid sign_authority challenge))
       (start_exchange P fuel challenge) s"

text \<open>
  An early return of \<^verbatim>\<open>start\<close> drops the half-open session, which sends the closing message.
\<close>

definition session_start ::
  "('d, 'err) secure_protocol \<Rightarrow> nat \<Rightarrow> bs8 \<Rightarrow> bs8 \<Rightarrow> u8 list option \<Rightarrow>
   ('d secure_device, 'err error, 'd opal_session) prog" where
  "session_start P fuel sp_uid sign_authority challenge dev =
     (case start_body P fuel sp_uid sign_authority challenge
             \<lparr>session_device = dev, tsn = 0, hsn = 0, protocol = 0x01\<rparr> of
        (Ok _, s) \<Rightarrow> (Ok s, session_device s)
      | (Err e, s) \<Rightarrow>
          (case drop_session P fuel s of
             (Halt h, s') \<Rightarrow> (Halt h, session_device s')
           | (_, s') \<Rightarrow> (Err e, session_device s'))
      | (Halt h, s) \<Rightarrow> (Halt h, session_device s))"

definition session_protocol :: "u8 \<Rightarrow> 'd opal_session \<Rightarrow> 'd opal_session" where
  "session_protocol p s = s\<lparr>protocol := p\<rparr>"

section \<open>Commands\<close>

definition set_value_command ::
  "bs8 \<Rightarrow> simple_token \<Rightarrow> simple_token \<Rightarrow> ('e, opal_command) outcome" where
  "set_value_command table name value =
     obind (builder_new table method_SET) (\<lambda>b.
     obind (token_name (Simple name) (Simple value)) (\<lambda>nv.
     obind (token_list [Stream nv]) (\<lambda>l.
     obind (token_name (Simple token_VALUES) (Stream l)) (\<lambda>v.
     obind (token_list [Stream v]) (\<lambda>p.
     build (builder_add b p))))))"

definition set_locking_sp_value ::
  "('d, 'err) secure_protocol \<Rightarrow> nat \<Rightarrow> bs8 \<Rightarrow> simple_token \<Rightarrow> simple_token \<Rightarrow>
   ('d opal_session, 'err error, unit) prog" where
  "set_locking_sp_value P fuel table name value =
     pbind (pure (set_value_command table name value)) (\<lambda>c.
     pbind (send_raw_command P fuel c) (\<lambda>_. pure (Ok ())))"

definition set_mbr_done ::
  "('d, 'err) secure_protocol \<Rightarrow> nat \<Rightarrow> bool \<Rightarrow> ('d opal_session, 'err error, unit) prog" where
  "set_mbr_done P fuel done =
     set_locking_sp_value P fuel uid_OPAL_MBRCONTROL token_MBRDONE (simple_token_of_bool done)"

fun locking_tokens :: "locking_state \<Rightarrow> bool \<times> simple_token \<times> simple_token" where
  "locking_tokens ReadWrite = (False, token_OPAL_FALSE, token_OPAL_FALSE)"
| "locking_tokens ArchiveUnlocked = (True, token_OPAL_FALSE, token_OPAL_FALSE)"
| "locking_tokens ArchiveLocked = (True, token_OPAL_FALSE, token_OPAL_FALSE)"
| "locking_tokens ReadOnly = (False, token_OPAL_FALSE, token_OPAL_TRUE)"
| "locking_tokens Locked = (False, token_OPAL_TRUE, token_OPAL_TRUE)"

definition locking_range_uid :: "u8 \<Rightarrow> bs8" where
  "locking_range_uid locking_range =
     (if locking_range \<noteq> 0
      then bs8_new ((bytes uid_OPAL_LOCKINGRANGE_GLOBAL)[5 := 0x03, 7 := locking_range])
      else uid_OPAL_LOCKINGRANGE_GLOBAL)"

definition locking_range_command :: "u8 \<Rightarrow> locking_state \<Rightarrow> ('e, opal_command) outcome" where
  "locking_range_command locking_range locking_state =
     (case locking_tokens locking_state of (archive_user, read_lock, write_lock) \<Rightarrow>
     obind (builder_new (locking_range_uid locking_range) method_SET) (\<lambda>b.
     obind (token_name (Simple token_READLOCKED) (Simple read_lock)) (\<lambda>rl.
     obind (if archive_user then tokens []
            else token_name (Simple token_WRITELOCKED) (Simple write_lock)) (\<lambda>wl.
     obind (token_list [Stream rl, Stream wl]) (\<lambda>l.
     obind (token_name (Simple token_VALUES) (Stream l)) (\<lambda>v.
     obind (token_list [Stream v]) (\<lambda>p.
     build (builder_add b p))))))))"

definition set_locking_range ::
  "('d, 'err) secure_protocol \<Rightarrow> nat \<Rightarrow> u8 \<Rightarrow> locking_state \<Rightarrow> ('d opal_session, 'err error, unit) prog" where
  "set_locking_range P fuel locking_range locking_state =
     pbind (pure (locking_range_command locking_range locking_state)) (\<lambda>c.
     pbind (send_raw_command P fuel c) (\<lambda>_. pure (Ok ())))"

end
