(* ===== verification/Trace.thy ===== *)
theory Trace imports Session begin

text \<open>
  What a session puts on the wire. \<open>traced P\<close> is the protocol \<open>P\<close> with a log of the
  packets sent and of the controller resets; it behaves as \<open>P\<close> does. Every run of
  \<open>send_raw_command\<close> that comes back has sent exactly one packet, whose bytes are given
  in closed form, and has changed nothing of the session but the device behind it.
\<close>

section \<open>A protocol with a log\<close>

datatype event = Sent u8 u16 "u8 list" | Reconnected

definition traced :: "('d, 'err) secure_protocol \<Rightarrow> ('d \<times> event list, 'err) secure_protocol" where
  "traced P =
     \<lparr>secure_send = (\<lambda>pr cid buf (d, l). case secure_send P pr cid buf d of (r, d') \<Rightarrow> (r, (d', l @ [Sent pr cid buf]))),
      secure_recv = (\<lambda>pr cid buf (d, l). case secure_recv P pr cid buf d of (r, d') \<Rightarrow> (r, (d', l))),
      reconnect_controller = (\<lambda>(d, l). case reconnect_controller P d of (r, d') \<Rightarrow> (r, (d', l @ [Reconnected]))),
      align = (\<lambda>(d, l). align P d),
      serial_num = (\<lambda>(d, l). serial_num P d)\<rparr>"

definition device_log :: "('d \<times> event list) secure_device \<Rightarrow> event list" where
  "device_log dev = snd (device dev)"

definition session_log :: "('d \<times> event list) opal_session \<Rightarrow> event list" where
  "session_log s = device_log (session_device s)"

text \<open>Only the device behind a session changes; a quiet computation logs nothing.\<close>

definition same_session :: "'d opal_session \<Rightarrow> 'd opal_session \<Rightarrow> bool" where
  "same_session s t \<longleftrightarrow> t = s\<lparr>session_device := (session_device s)\<lparr>device := device (session_device t)\<rparr>\<rparr>"

definition quiet :: "('d \<times> event list) opal_session \<Rightarrow> ('d \<times> event list) opal_session \<Rightarrow> bool" where
  "quiet s t \<longleftrightarrow> same_session s t \<and> session_log t = session_log s"

lemma same_session_simps:
  "same_session s t \<longleftrightarrow> tsn t = tsn s \<and> hsn t = hsn s \<and> protocol t = protocol s \<and>
     com_id (session_device t) = com_id (session_device s) \<and>
     is_eprise (session_device t) = is_eprise (session_device s) \<and>
     was_locked (session_device t) = was_locked (session_device s)"
  unfolding same_session_def
  by (cases s; cases t; cases "session_device s"; cases "session_device t") auto

lemma reflp_same_session: "reflp same_session"
  by (rule reflpI) (simp add: same_session_simps)

lemma transp_same_session: "transp same_session"
  by (rule transpI) (simp add: same_session_simps)

lemma reflp_quiet: "reflp quiet"
  by (rule reflpI) (simp add: same_session_simps quiet_def)

lemma transp_quiet: "transp quiet"
  by (rule transpI) (simp add: same_session_simps quiet_def)

lemma keeps_session_alloc: "reflp R \<Longrightarrow> keeps R (session_alloc P len)"
  by (auto simp: keeps_def session_alloc_def pure_def elim: reflpE)

lemma keeps_session_proto: "keeps same_session (session_proto m)"
  by (auto simp: keeps_def same_session_simps pmap_err_def zoom_def split: prod.splits)

lemma keeps_quiet_recv: "keeps quiet (session_proto (secure_recv (traced P) pr cid buf))"
  by (auto simp: keeps_def quiet_def session_log_def device_log_def same_session_simps pmap_err_def
      zoom_def traced_def split: prod.splits)

lemma keeps_poll:
  assumes "reflp R" "transp R" "\<And>buf. keeps R (session_proto (secure_recv P pr cid buf))"
  shows "keeps R (poll P fuel pr cid buffer)"
proof (induction fuel arbitrary: buffer)
  case 0
  show ?case using assms(1) by (simp add: keeps_pure)
next
  case (Suc fuel)
  show ?case unfolding poll.simps Let_def
    by (rule keeps_pbind [OF assms(2,3)]) (simp add: Suc keeps_pure assms(1))
qed

lemma keeps_receive:
  assumes "reflp R" "transp R" "\<And>buf. keeps R (session_proto (secure_recv P pr cid buf))"
  shows "keeps R (receive P fuel pr cid e)"
  unfolding receive_def Let_def
  by (auto intro!: keeps_pbind keeps_pure keeps_poll keeps_session_alloc assms split: prod.splits)

section \<open>The packet\<close>

definition wire_packet :: "'d opal_session \<Rightarrow> opal_command \<Rightarrow> u8 list" where
  "wire_packet s c =
     header_bytes (lengths_swapped (header (set_session (com_id (session_device s)) (tsn s) (hsn s) c)))
       @ payload c"

lemma wire_buffer:
  assumes "length hb = 56"
  shows "overwrite (overwrite (replicate (length p + 56) 0) 0 hb) 56 p = hb @ p"
  using assms by (simp add: overwrite_def)

lemma lengths_swapped_wf [simp]: "header_wf (lengths_swapped h) \<longleftrightarrow> header_wf h"
  by (simp add: header_wf_def lengths_swapped_def)

lemma lengths_swapped_twice [simp]: "lengths_swapped (lengths_swapped h) = h"
  by (simp add: lengths_swapped_def)

lemma session_alloc_eq:
  "session_alloc P n s =
     (if layout_ok n (align P (device (session_device s))) then Ok (replicate n 0) else Panic, s)"
  by (simp add: session_alloc_def pure_def alloc_aligned_def)

lemma send_raw_command_eq:
  "send_raw_command P fuel (packet_of p e) s =
     pbind (session_alloc P (length (pad4 p) + 56)) (\<lambda>_.
     pbind (session_proto (secure_send P (protocol s) (com_id (session_device s)) (wire_packet s (packet_of p e)))) (\<lambda>_.
     receive P fuel (protocol s) (com_id (session_device s)) e)) s"
proof -
  let ?c = "packet_of p e"
  let ?h = "lengths_swapped (header (set_session (com_id (session_device s)) (tsn s) (hsn s) ?c))"
  have "length (header_bytes ?h) = 56"
    by (rule length_header_bytes) simp
  then have buf: "overwrite (overwrite (replicate (length (pad4 p) + 56) 0) 0 (header_bytes ?h)) 56 (pad4 p)
      = wire_packet s ?c"
    using wire_buffer [of "header_bytes ?h" "pad4 p"] by (simp add: wire_packet_def)
  show ?thesis
    unfolding send_raw_command_def send_packet_def Let_def set_session_sel packet_of_sel
      pbind_def [of "session_alloc P (length (pad4 p) + 56)"] session_alloc_eq
    by (simp add: buf)
qed

section \<open>One command, one packet\<close>

lemma traced_sel [simp]:
  "align (traced P) dl = align P (fst dl)" "serial_num (traced P) dl = serial_num P (fst dl)"
  by (simp_all add: traced_def split: prod.splits)

lemma keeps_quiet_receive: "keeps quiet (receive (traced P) fuel pr cid e)"
  by (rule keeps_receive [OF reflp_quiet transp_quiet keeps_quiet_recv])

lemma send_same_session:
  assumes "send_raw_command P fuel (packet_of p e) s = (r, t)"
  shows "same_session s t"
proof -
  have "keeps same_session (pbind (session_alloc P n) (\<lambda>_. pbind (session_proto m)
      (\<lambda>_. receive P fuel pr cid e)))" for n m pr cid
    by (intro keeps_pbind keeps_receive keeps_session_alloc keeps_session_proto
        reflp_same_session transp_same_session)
  then show ?thesis using assms unfolding send_raw_command_eq by (rule keepsD)
qed

lemma send_step:
  assumes "session_proto (secure_send (traced P) pr cid buf) s = (r, t)"
  shows "same_session s t \<and> session_log t = session_log s @ [Sent pr cid buf]"
  using assms
  by (auto simp: session_log_def device_log_def same_session_simps pmap_err_def zoom_def traced_def
      split: prod.splits)

text \<open>
  The buffer for the packet is the only thing that can stop a command before it is sent.
\<close>

lemma send_logs:
  assumes "send_raw_command (traced P) fuel (packet_of p e) s = (r, t)"
  shows "same_session s t \<and>
    (session_log t = session_log s @ [Sent (protocol s) (com_id (session_device s)) (wire_packet s (packet_of p e))]
     \<or> r = Panic \<and> t = s)"
  using assms unfolding send_raw_command_eq
proof (cases rule: pbind_cases)
  case (Ok a s')
  then have "s' = s" by (simp add: session_alloc_eq split: if_splits)
  from Ok(2) show ?thesis
  proof (cases rule: pbind_cases)
    case (Ok b s'')
    then have "quiet s'' t" by (blast intro: keepsD [OF keeps_quiet_receive])
    moreover note send_step [OF Ok(1)]
    ultimately show ?thesis using \<open>s' = s\<close> by (simp add: quiet_def same_session_simps)
  qed (use send_step \<open>s' = s\<close> in \<open>blast+\<close>)
qed (auto simp: session_alloc_eq same_session_simps split: if_splits)

lemma send_traced:
  assumes "send_raw_command (traced P) fuel (packet_of p e) s = (r, t)" "returns r"
  shows "same_session s t"
    "session_log t = session_log s @ [Sent (protocol s) (com_id (session_device s)) (wire_packet s (packet_of p e))]"
  using send_logs [OF assms(1)] assms(2) by auto

text \<open>Without the trailer of a method call no response counts as a success.\<close>

lemma check_status_no_eod: "check_status False r = Err (Opal NoMethodStatus)"
  by (simp add: check_status_def Let_def)

lemma send_no_eod: "send_raw_command P fuel (packet_of p False) s \<noteq> (Ok a, t)"
  unfolding send_raw_command_eq receive_def
  by (auto simp: ok_iff check_status_no_eod Let_def split: prod.splits)

text \<open>What an accepted response looks like.\<close>

lemma check_status_Ok_iff:
  "(check_status e r :: ('e error, _) outcome) = Ok r' \<longleftrightarrow> e \<and> r' = r \<and> response_len r \<ge> 6 \<and>
     response_is r (response_len r - 6) token_ENDOFDATA \<and>
     response_is r (response_len r - 5) token_STARTLIST \<and>
     response_is r (response_len r - 1) token_ENDLIST \<and>
     (\<exists>v. get_uint r (response_len r - 4) = (Ok v :: ('e error, _) outcome) \<and> StatusCode (ucast v) = SUCCESS)"
  by (auto simp: check_status_def Let_def ok_iff split: if_splits)

section \<open>Fuel\<close>

lemma poll_more_fuel:
  "poll P fuel pr cid buf s = (r, t) \<Longrightarrow> r \<noteq> Halt OutOfFuel \<Longrightarrow> poll P (fuel + k) pr cid buf s = (r, t)"
proof (induction fuel arbitrary: buf s)
  case 0
  then show ?case by (simp add: pure_def)
next
  case (Suc fuel)
  from Suc.prems(1) show ?case unfolding poll.simps
  proof (cases rule: pbind_cases)
    case (Ok b s')
    then show ?thesis using Suc.IH [of b s'] Suc.prems(2)
      by (auto simp: pbind_def Ok(1) Let_def pure_def split: if_splits)
  qed (simp_all add: pbind_def)
qed

section \<open>Properties\<close>

text \<open>
  Every command that comes back, with a response or with an error, has put exactly one
  packet on the wire: the command's header under the session's communication id and numbers, its
  lengths big endian, then the padded payload. Of the session nothing has changed but the state
  of the device.
\<close>

theorem one_packet_per_command:
  assumes "build_eod b e = (Ok c :: ('e, _) outcome)"
    and "send_raw_command (traced P) fuel c s = (r, t)" "returns r"
  shows "t = s\<lparr>session_device := (session_device s)\<lparr>device := device (session_device t)\<rparr>\<rparr> \<and>
    session_log t = session_log s @ [Sent (protocol s) (com_id (session_device s))
      (header_bytes (lengths_swapped (header (set_session (com_id (session_device s)) (tsn s) (hsn s) c))) @ payload c)]"
proof -
  obtain p where c: "c = packet_of p e" using assms(1) by (auto simp: build_eod_eq)
  show ?thesis
    using send_traced [OF assms(2) [unfolded c] assms(3)] by (simp add: c same_session_def wire_packet_def)
qed

theorem one_packet_per_command_witness:
  "\<exists>s'. send_raw_command (traced \<lparr>secure_send = (\<lambda>pr cid buf d. (Err (), d)), secure_recv = (\<lambda>pr cid buf d. (Ok buf, d)),
       reconnect_controller = (\<lambda>d. (Ok (), d)), align = (\<lambda>d. 4), serial_num = (\<lambda>d. [])\<rparr>) 0 (packet_of [0xFA] False)
     \<lparr>session_device = \<lparr>device = ((), []), com_id = 7, is_eprise = False, was_locked = True\<rparr>, tsn = 1, hsn = 2, protocol = 1\<rparr>
     = (Err (Io ()), s') \<and> length (session_log s') = 1"
proof -
  let ?P = "\<lparr>secure_send = (\<lambda>pr cid buf d. (Err (), d)), secure_recv = (\<lambda>pr cid buf d. (Ok buf, d)),
       reconnect_controller = (\<lambda>d. (Ok (), d)), align = (\<lambda>d. 4), serial_num = (\<lambda>d. [])\<rparr> :: (unit, unit) secure_protocol"
  let ?s = "\<lparr>session_device = \<lparr>device = ((), []), com_id = 7, is_eprise = False, was_locked = True\<rparr>, tsn = 1, hsn = 2, protocol = 1\<rparr>"
  have b: "build_eod \<lparr>builder_payload = [0xFA]\<rparr> False = (Ok (packet_of [0xFA] False) :: (unit, _) outcome)"
    by (simp add: build_eod_eq)
  obtain s' where run: "send_raw_command (traced ?P) 0 (packet_of [0xFA] False) ?s = (Err (Io ()), s')"
    by (simp add: send_raw_command_eq session_alloc_eq pbind_def pmap_err_def zoom_def traced_def layout_ok_def
        is_power_of_two_def length_pad4)
  have "session_log ?s = []" by (simp add: session_log_def device_log_def)
  with run one_packet_per_command [OF b run] show ?thesis by auto
qed

text \<open>
  The fuel of the polling loop bounds nothing but its length: a run that has enough
  returns the same with any more.
\<close>

theorem poll_fuel_irrelevant:
  assumes "poll P fuel pr cid buf s = (r, t)" "r \<noteq> Halt OutOfFuel" "fuel \<le> fuel'"
  shows "poll P fuel' pr cid buf s = (r, t)"
  using poll_more_fuel [OF assms(1,2), of "fuel' - fuel"] assms(3) by simp

theorem poll_fuel_irrelevant_witness:
  "\<exists>r t. poll \<lparr>secure_send = (\<lambda>pr cid buf d. (Ok (), d)), secure_recv = (\<lambda>pr cid buf d. (Err (), d)),
       reconnect_controller = (\<lambda>d. (Ok (), d)), align = (\<lambda>d. 4), serial_num = (\<lambda>d. [])\<rparr> 9 1 7 []
     \<lparr>session_device = \<lparr>device = (), com_id = 7, is_eprise = False, was_locked = True\<rparr>, tsn = 1, hsn = 2, protocol = 1\<rparr>
     = (Err (Io ()), t)"
proof -
  let ?P = "\<lparr>secure_send = (\<lambda>pr cid buf d. (Ok (), d)), secure_recv = (\<lambda>pr cid buf d. (Err (), d)),
       reconnect_controller = (\<lambda>d. (Ok (), d)), align = (\<lambda>d. 4), serial_num = (\<lambda>d. [])\<rparr> :: (unit, unit) secure_protocol"
  let ?s = "\<lparr>session_device = \<lparr>device = (), com_id = 7, is_eprise = False, was_locked = True\<rparr>, tsn = 1, hsn = 2, protocol = 1\<rparr>"
  obtain t where run: "poll ?P (Suc 0) 1 7 [] ?s = (Err (Io ()), t)"
    by (simp add: pbind_def pmap_err_def zoom_def)
  show ?thesis using poll_fuel_irrelevant [OF run, of 9] by auto
qed

end
