(* ===== verification/Requests.thy ===== *)
theory Requests imports Trace begin

text \<open>
  What the four commands of \<^verbatim>\<open>opal/src/session.rs\<close> say: the bytes of each payload and the
  atoms a drive reads from them. A method call names the object and the method and lists
  its arguments; \<open>STARTSESSION\<close> carries the authority and its credential, \<open>SET\<close> the
  columns to change. The closing message is the single token \<open>ENDOFSESSION\<close>.
\<close>

section \<open>Method calls\<close>

definition call_bytes :: "bs8 \<Rightarrow> bs8 \<Rightarrow> u8 list \<Rightarrow> u8 list" where
  "call_bytes obj meth args =
     0xF8 # 0xA8 # bytes obj @ 0xA8 # bytes meth @ 0xF0 # args @ 0xF1 # eod_trailer"

definition call_atoms :: "bs8 \<Rightarrow> bs8 \<Rightarrow> atom list \<Rightarrow> atom list" where
  "call_atoms obj meth args =
     Ctl 0xF8 # Bstr (bytes obj) # Bstr (bytes meth) # Ctl 0xF0 # args
       @ [Ctl 0xF1, Ctl 0xF9, Ctl 0xF0, Uint 0, Uint 0, Uint 0, Ctl 0xF1]"

definition bs8_wf :: "bs8 \<Rightarrow> bool" where
  "bs8_wf b \<longleftrightarrow> length (bytes b) = 8"

lemma carries_bs8: "bs8_wf b \<Longrightarrow> carries bs as \<Longrightarrow> carries (0xA8 # bytes b @ bs) (Bstr (bytes b) # as)"
  using carries_append [OF carries_atom [OF decode_bs8], of "bytes b" bs as]
  by (simp add: bs8_wf_def)

lemma carries_ctl: "decode_atom [h] = Some (Ctl h) \<Longrightarrow> carries bs as \<Longrightarrow> carries (h # bs) (Ctl h # as)"
  by (rule carries_Cons)

lemma carries_tiny: "h AND 0x80 = 0 \<Longrightarrow> h AND 0x40 = 0 \<Longrightarrow> carries bs as \<Longrightarrow>
    carries (h # bs) (Uint (unat (h AND 0x3f)) # as)"
  by (rule carries_Cons) (simp_all add: decode_atom_def)

lemma carries_bytes: "length b < 2048 \<Longrightarrow> b \<noteq> [] \<Longrightarrow> carries bs as \<Longrightarrow> carries (bytes_atom b @ bs) (Bstr b # as)"
  using carries_append [OF carries_atom [OF decode_bytes_atom], of b bs as] by simp

lemma call_carries:
  assumes "carries args as" "bs8_wf obj" "bs8_wf meth"
  shows "carries (call_bytes obj meth args) (call_atoms obj meth as)"
  unfolding call_bytes_def call_atoms_def
  using assms eod_trailer_carries
  by (intro carries_ctl carries_bs8 carries_append) simp_all

lemma bs8_wf_consts [simp]:
  "bs8_wf uid_OPAL_SMUID" "bs8_wf uid_OPAL_LOCKINGSP" "bs8_wf uid_OPAL_ADMIN1"
  "bs8_wf uid_OPAL_LOCKINGRANGE_GLOBAL" "bs8_wf uid_OPAL_MBRCONTROL"
  "bs8_wf method_STARTSESSION" "bs8_wf method_SET"
  by (simp_all add: bs8_wf_def opal_consts)

section \<open>Starting a session\<close>

definition start_args :: "bs8 \<Rightarrow> bs8 \<Rightarrow> u8 list \<Rightarrow> u8 list" where
  "start_args sp authority ch =
     0x81 # 105 # 0xA8 # bytes sp @ 1 # 0xF2 # 0 # bytes_atom ch @ 0xF3 # 0xF2 # 3 # 0xA8 # bytes authority @ [0xF3]"

definition start_arg_atoms :: "bs8 \<Rightarrow> bs8 \<Rightarrow> u8 list \<Rightarrow> atom list" where
  "start_arg_atoms sp authority ch =
     [Uint 105, Bstr (bytes sp), Uint 1,
      Ctl 0xF2, Uint 0, Bstr ch, Ctl 0xF3,
      Ctl 0xF2, Uint 3, Bstr (bytes authority), Ctl 0xF3]"

lemma start_command_eq:
  "start_command False sp authority (Some ch) =
     (if length ch < 2048
      then Ok (packet_of (call_bytes uid_OPAL_SMUID method_STARTSESSION (start_args sp authority ch)) True)
      else Panic)"
  by (simp add: start_command_def macro_simps builder_new_eq builder_add_eq build_def build_eod_eq
      call_bytes_def start_args_def opal_consts u64_atom_def be_bytes_def)

lemma host_number_carries: "carries [0x81, 105] [Uint 105]"
  by (rule carries_atom) (simp add: decode_atom_def be_nat_def)

lemma start_args_carry:
  assumes "bs8_wf sp" "bs8_wf authority" "length ch < 2048" "ch \<noteq> []"
  shows "carries (start_args sp authority ch) (start_arg_atoms sp authority ch)"
proof -
  have "carries [0xF2, 0] [Ctl 0xF2, Uint 0]" "carries [0xF2, 3] [Ctl 0xF2, Uint 3]"
    "carries [1] [Uint 1]" "carries [0xF3] [Ctl 0xF3]"
    by (auto intro!: carries_Cons simp: decode_atom_def)
  moreover have "carries (0xA8 # bytes b) [Bstr (bytes b)]" if "bs8_wf b" for b
    using carries_bs8 [OF that carries_Nil] by simp
  moreover have "carries (bytes_atom ch) [Bstr ch]"
    using carries_bytes [OF assms(3,4) carries_Nil] by simp
  ultimately have "carries ([0x81, 105] @ (0xA8 # bytes sp) @ [1] @ [0xF2, 0] @ bytes_atom ch @ [0xF3]
      @ [0xF2, 3] @ (0xA8 # bytes authority) @ [0xF3])
    ([Uint 105] @ [Bstr (bytes sp)] @ [Uint 1] @ [Ctl 0xF2, Uint 0] @ [Bstr ch] @ [Ctl 0xF3]
      @ [Ctl 0xF2, Uint 3] @ [Bstr (bytes authority)] @ [Ctl 0xF3])"
    using host_number_carries assms(1,2) by (intro carries_append) blast+
  then show ?thesis by (simp add: start_args_def start_arg_atoms_def)
qed

text \<open>
  An enterprise drive is sent no credential, but a time-out by its name \<open>SessionTimeout\<close>.
\<close>

definition timeout_args :: "bs8 \<Rightarrow> u8 list" where
  "timeout_args sp =
     0x81 # 105 # 0xA8 # bytes sp @ 1 # 0xF2 # bytes_atom session_timeout @ u64_atom 60000 @ [0xF3]"

definition timeout_arg_atoms :: "bs8 \<Rightarrow> atom list" where
  "timeout_arg_atoms sp =
     [Uint 105, Bstr (bytes sp), Uint 1, Ctl 0xF2, Bstr session_timeout, Uint 60000, Ctl 0xF3]"

lemma session_timeout_length: "length session_timeout = 14"
  by (simp add: session_timeout_def)

lemma enterprise_start_command_eq:
  "start_command True sp authority (Some ch) =
     Ok (packet_of (call_bytes uid_OPAL_SMUID method_STARTSESSION (timeout_args sp)) True)"
  by (simp add: start_command_def macro_simps builder_new_eq builder_add_eq build_def build_eod_eq
      call_bytes_def timeout_args_def opal_consts u64_atom_def be_bytes_def session_timeout_length)

lemma timeout_args_carry:
  assumes "bs8_wf sp"
  shows "carries (timeout_args sp) (timeout_arg_atoms sp)"
proof -
  have "session_timeout \<noteq> []" using session_timeout_length by auto
  then have "carries (bytes_atom session_timeout) [Bstr session_timeout]"
    using carries_bytes [OF _ _ carries_Nil] by (simp add: session_timeout_length)
  moreover have "carries (u64_atom 60000) [Uint 60000]"
    using carries_atom [OF decode_u64_atom, of 60000] by simp
  moreover have "carries [1] [Uint 1]" "carries [0xF2] [Ctl 0xF2]" "carries [0xF3] [Ctl 0xF3]"
    by (auto intro!: carries_Cons simp: decode_atom_def)
  moreover have "carries (0xA8 # bytes sp) [Bstr (bytes sp)]"
    using carries_bs8 [OF assms carries_Nil] by simp
  ultimately have "carries ([0x81, 105] @ (0xA8 # bytes sp) @ [1] @ [0xF2] @ bytes_atom session_timeout @ u64_atom 60000 @ [0xF3])
    ([Uint 105] @ [Bstr (bytes sp)] @ [Uint 1] @ [Ctl 0xF2] @ [Bstr session_timeout] @ [Uint 60000] @ [Ctl 0xF3])"
    using host_number_carries by (intro carries_append) blast+
  then show ?thesis by (simp add: timeout_args_def timeout_arg_atoms_def)
qed

text \<open>The arguments of the request that \<open>unlock\<close> opens its session with.\<close>

definition opening_args :: "bool \<Rightarrow> u8 list \<Rightarrow> u8 list" where
  "opening_args eprise ch =
     (if eprise then timeout_args uid_OPAL_LOCKINGSP
      else start_args uid_OPAL_LOCKINGSP uid_OPAL_ADMIN1 ch)"

lemma opening_command_eq:
  "start_command eprise uid_OPAL_LOCKINGSP uid_OPAL_ADMIN1 (Some ch) =
     (if eprise \<or> length ch < 2048
      then Ok (packet_of (call_bytes uid_OPAL_SMUID method_STARTSESSION (opening_args eprise ch)) True)
      else Panic)"
  by (cases eprise) (simp_all add: opening_args_def start_command_eq enterprise_start_command_eq)

text \<open>An empty credential is spelled like a credential of one zero.\<close>

lemma opening_args_carry:
  assumes "eprise \<or> length ch < 2048"
  shows "\<exists>as. carries (opening_args eprise ch) as"
proof -
  have "start_args sp authority [] = start_args sp authority [0]" for sp authority
    by (simp add: start_args_def bytes_atom_def)
  then show ?thesis
    using assms start_args_carry [of uid_OPAL_LOCKINGSP uid_OPAL_ADMIN1 ch] timeout_args_carry [of uid_OPAL_LOCKINGSP]
      start_args_carry [of uid_OPAL_LOCKINGSP uid_OPAL_ADMIN1 "[0]"]
    by (cases "ch = []") (auto simp: opening_args_def)
qed

lemma start_args_length:
  "bs8_wf sp \<Longrightarrow> bs8_wf authority \<Longrightarrow> length key < 2048 \<Longrightarrow> length (start_args sp authority key) \<le> 4000"
  by (simp add: start_args_def bytes_atom_def Let_def bs8_wf_def)

lemma opening_args_length:
  assumes "eprise \<or> length ch < 2048"
  shows "length (opening_args eprise ch) \<le> 4000"
  using assms bs8_wf_consts(2) start_args_length [OF bs8_wf_consts(2,3), of ch]
  by (auto simp: opening_args_def timeout_args_def bytes_atom_def u64_atom_def bs8_wf_def
      session_timeout_length)

section \<open>Setting columns\<close>

definition set_args :: "(u8 \<times> u8) list \<Rightarrow> u8 list" where
  "set_args cols = 0xF2 # 1 # 0xF0 # concat (map (\<lambda>(c, v). [0xF2, c, v, 0xF3]) cols) @ [0xF1, 0xF3]"

definition set_arg_atoms :: "(u8 \<times> u8) list \<Rightarrow> atom list" where
  "set_arg_atoms cols =
     Ctl 0xF2 # Uint 1 # Ctl 0xF0
       # concat (map (\<lambda>(c, v). [Ctl 0xF2, Uint (unat c), Uint (unat v), Ctl 0xF3]) cols)
       @ [Ctl 0xF1, Ctl 0xF3]"

lemma tiny_bits:
  assumes "c < (0x40 :: u8)"
  shows "c AND 0x80 = 0" "c AND 0x40 = 0" "c AND 0x3f = c"
proof -
  have "unat c < 64" using assms by (simp add: word_less_nat_alt)
  then have "unat c < 2 ^ 6" by simp
  then have "take_bit 6 (unat c) = unat c" by (rule take_bit_nat_eq_self)
  then have c: "take_bit 6 c = c" by (metis word_unat_eq_iff unsigned_take_bit_eq)
  have m: "0x3f = (mask 6 :: u8)" by (simp add: mask_eq_exp_minus_1)
  have cm: "c AND mask 6 = c" using c by (simp only: take_bit_eq_mask)
  then have "c AND 0x80 = (c AND mask 6) AND 0x80" "c AND 0x40 = (c AND mask 6) AND 0x40"
    by (simp_all only:)
  moreover have "mask 6 AND 0x80 = (0 :: u8)" "mask 6 AND 0x40 = (0 :: u8)" by (simp_all flip: m)
  ultimately show "c AND 0x80 = 0" "c AND 0x40 = 0"
    by (simp_all only: and.assoc and_zero_eq)
  show "c AND 0x3f = c" using cm by (simp only: m)
qed

lemma tiny_atom: "c < 0x40 \<Longrightarrow> decode_atom [c] = Some (Uint (unat (c :: u8)))"
  using tiny_bits [of c] by (simp add: decode_atom_def)

lemma columns_carry:
  assumes "\<forall>(c, v) \<in> set cols. c < 0x40 \<and> v < 0x40"
  shows "carries (concat (map (\<lambda>(c, v). [0xF2, c, v, 0xF3]) cols))
    (concat (map (\<lambda>(c, v). [Ctl 0xF2, Uint (unat c), Uint (unat v), Ctl 0xF3]) cols))"
  using assms
proof (induction cols)
  case (Cons cv cols)
  obtain c v where "cv = (c, v)" by fastforce
  with Cons show ?case by (auto intro!: carries_Cons simp: tiny_atom)
qed simp

lemma set_args_carry:
  assumes "\<forall>(c, v) \<in> set cols. c < 0x40 \<and> v < 0x40"
  shows "carries (set_args cols) (set_arg_atoms cols)"
proof -
  have "carries [0xF1, 0xF3] [Ctl 0xF1, Ctl 0xF3]" by (auto intro!: carries_Cons)
  then show ?thesis
    unfolding set_args_def set_arg_atoms_def
    by (intro carries_ctl carries_Cons carries_append columns_carry assms) (simp_all add: decode_atom_def)
qed

definition state_columns :: "locking_state \<Rightarrow> (u8 \<times> u8) list" where
  "state_columns st = (case locking_tokens st of (archive, r, w) \<Rightarrow>
     (7, token r) # (if archive then [] else [(8, token w)]))"

lemma set_value_command_eq:
  "set_value_command table name value = Ok (packet_of (call_bytes table method_SET (set_args [(token name, token value)])) True)"
  by (simp add: set_value_command_def macro_simps builder_new_eq builder_add_eq build_def build_eod_eq
      call_bytes_def set_args_def opal_consts)

lemma locking_range_command_eq:
  "locking_range_command n st =
     Ok (packet_of (call_bytes (locking_range_uid n) method_SET (set_args (state_columns st))) True)"
  by (cases st)
    (simp_all add: locking_range_command_def state_columns_def macro_simps builder_new_eq builder_add_eq
      build_def build_eod_eq call_bytes_def set_args_def opal_consts)

lemma close_command_eq: "close_command = Ok (packet_of [0xFA] False)"
  by (simp add: close_command_def macro_simps builder_add_eq builder_empty_def
      build_no_end_of_data_def build_eod_eq opal_consts)

section \<open>Properties\<close>

lemma locking_range_uid_wf: "bs8_wf (locking_range_uid n)"
  by (simp add: locking_range_uid_def bs8_wf_def bs8_new_def opal_consts bytestrings_def)

lemma state_columns_tiny: "\<forall>(c, v) \<in> set (state_columns st). c < 0x40 \<and> v < 0x40"
  by (cases st) (simp_all add: state_columns_def opal_consts)

text \<open>
  The request that opens a session on a drive that is not an enterprise drive spells the
  method call \<open>SMUID.StartSession\<close> with host session number 105, the security provider, write
  access, and, by their names 0 and 3, the credential and the authority that signs with it.
\<close>

theorem start_request_says:
  assumes "bs8_wf sp" "bs8_wf authority" "length ch < 2048" "ch \<noteq> []"
  shows "\<exists>c p. (start_command False sp authority (Some ch) :: ('e, _) outcome) = Ok c \<and> eod c \<and> payload c = pad4 p \<and>
    carries p (call_atoms uid_OPAL_SMUID method_STARTSESSION
      [Uint 105, Bstr (bytes sp), Uint 1, Ctl 0xF2, Uint 0, Bstr ch, Ctl 0xF3,
       Ctl 0xF2, Uint 3, Bstr (bytes authority), Ctl 0xF3])"
proof -
  have "carries (call_bytes uid_OPAL_SMUID method_STARTSESSION (start_args sp authority ch))
      (call_atoms uid_OPAL_SMUID method_STARTSESSION (start_arg_atoms sp authority ch))"
    by (intro call_carries start_args_carry assms bs8_wf_consts)
  then show ?thesis using assms(3)
    by (auto simp: start_command_eq start_arg_atoms_def packet_of_def)
qed

theorem start_request_says_witness:
  "\<exists>c. (start_command False uid_OPAL_LOCKINGSP uid_OPAL_ADMIN1 (Some (replicate 32 7)) :: (unit, _) outcome) = Ok c \<and> eod c"
  using start_request_says [where 'e = unit, of uid_OPAL_LOCKINGSP uid_OPAL_ADMIN1 "replicate 32 7"] by fastforce


text \<open>
  Locking a range for the archive user sends the very bytes that unlock it.
\<close>

theorem archive_lock_is_unlock:
  "set_locking_range P fuel n ArchiveLocked = set_locking_range P fuel n ArchiveUnlocked"
  by (simp add: set_locking_range_def locking_range_command_def)

end
