(* ===== verification/Verdict.thy ===== *)
theory Verdict imports Requests begin

text \<open>
  How \<open>send_raw_command\<close> judges a reply. A reply buffer is specified by its header and by
  the atoms of its payload; \<open>send_answered\<close> says that the code returns the judgement of exactly
  those atoms, and \<open>check_verdict\<close> that a method response whose status is zero is handed on
  and any other status is returned as an error.
\<close>

text \<open>
  A complete reply: the header announces no outstanding data (or a minimum transfer), its
  subpacket length is that of the payload, the lengths are big endian, and the announced
  packet fits the buffer.
\<close>

definition reply_buffer :: "opal_header \<Rightarrow> u8 list \<Rightarrow> u8 list \<Rightarrow> u8 list" where
  "reply_buffer h payl rest = header_bytes (lengths_swapped h) @ payl @ rest"

definition complete :: "opal_header \<Rightarrow> bool" where
  "complete h \<longleftrightarrow> cp_outstanding_data (cp h) = 0 \<or> cp_min_transfer (cp h) \<noteq> 0"

definition announces :: "opal_header \<Rightarrow> u8 list \<Rightarrow> u8 list \<Rightarrow> bool" where
  "announces h payl rest \<longleftrightarrow> header_wf h \<and> complete h \<and> unat (sub_length (subpkt h)) = length payl \<and>
     unat (cp_length (cp h)) + 20 \<le> 56 + length payl + length rest"

lemma read_reply: "header_wf h \<Longrightarrow> read_header (reply_buffer h payl rest) = lengths_swapped h"
  unfolding reply_buffer_def by (rule read_header_header_bytes) simp

lemma complete_swapped [simp]: "complete (lengths_swapped h) = complete h"
  by (simp add: complete_def lengths_swapped_def)

lemma length_reply: "header_wf h \<Longrightarrow> length (reply_buffer h payl rest) = 56 + length payl + length rest"
  using length_header_bytes [of "lengths_swapped h"] by (simp add: reply_buffer_def)

text \<open>The tokens of an answer, and what the code makes of them.\<close>

lemma parse_reply:
  assumes "announces h (concat cs) rest" "map decode_atom cs = map Some as"
  shows "(parse h (reply_buffer h (concat cs) rest) :: ('e, _) outcome) =
    Ok \<lparr>response_header = h, response_tokens = filter nonempty cs\<rparr>"
proof -
  have w: "header_wf h" "unat (sub_length (subpkt h)) = length (concat cs)"
    using assms(1) by (auto simp: announces_def)
  let ?hb = "header_bytes (lengths_swapped h)"
  have "length ?hb = 56" using w by (intro length_header_bytes) simp
  then have "parse_loop (reply_buffer h (concat cs) rest) (length (concat cs) + 56) 56 [] =
      (Ok (filter nonempty cs) :: ('e, _) outcome)"
    using parse_loop_atoms [where 'e = 'e, OF assms(2), of ?hb rest "[]"]
    by (simp add: reply_buffer_def add.commute)
  then show ?thesis using w(2) by (simp add: parse_def Let_def)
qed

lemma ucast_ucast: "ucast (ucast (c :: u8) :: u64) = c"
  by (rule bit_word_eqI) (auto simp: bit_simps)

lemma check_answer:
  assumes "code < 0x40" "response_tokens r = ts @ [[0xF9], [0xF0], [code], [0], [0], [0xF1]]"
  shows "(check_status True r :: ('e error, _) outcome) =
    (if code = 0 then Ok r else Err (Opal (Status (StatusCode code))))"
proof -
  note tiny = tiny_bits [OF assms(1)]
  have "get_uint r (length ts + 2) = (Ok (ucast code) :: ('e error, _) outcome)"
    using get_uint_tiny [of r "length ts + 2" code] tiny assms(2) by (simp add: nth_append)
  then show ?thesis
    using assms(2) by (simp add: check_status_def Let_def response_len_def response_is_def get_def
        nth_append opal_consts ucast_ucast SUCCESS_def)
qed

lemma receive_reply:
  fixes P :: "('d, 'err) secure_protocol"
  assumes recv: "session_proto (secure_recv P pr cid (replicate 2048 0)) s =
      (Ok (reply_buffer h (concat cs) rest), s')"
    and al: "layout_ok 2048 (align P (device (session_device s)))"
    and ann: "announces h (concat cs) rest" and dec: "map decode_atom cs = map Some as"
  shows "receive P (Suc fuel) pr cid e s =
    (check_status e \<lparr>response_header = h, response_tokens = filter nonempty cs\<rparr>, s')"
proof -
  let ?b = "reply_buffer h (concat cs) rest"
  have w: "header_wf h" "complete h" using ann by (auto simp: announces_def)
  have poll: "poll P (Suc fuel) pr cid (replicate 2048 0) s = (Ok (lengths_swapped h, ?b), s')"
    using w complete_swapped [of h] recv
    by (simp add: pbind_def read_reply pure_def Let_def complete_def)
  have sl: "\<exists>x. slice ?b 0 (unat (cp_length (cp h)) + 20) = (Ok x :: ('err error, _) outcome)"
    using ann length_reply [OF w(1)] by (auto simp: slice_def announces_def)
  show ?thesis
    using sl al poll parse_reply [where 'e = "'err error", OF ann dec]
    by (auto simp: receive_def pbind_def session_alloc_eq Let_def pure_def simp del: poll.simps)
qed

text \<open>A reply that ends as a method response should, and the numbers it holds.\<close>

definition answer :: "u8 list list \<Rightarrow> u8 \<Rightarrow> u8 list list" where
  "answer ts code = ts @ [[0xF9], [0xF0], [code], [0], [0], [0xF1]]"

lemma check_verdict:
  assumes "code < 0x40"
  shows "(check_status True \<lparr>response_header = h, response_tokens = filter nonempty (answer ts code)\<rparr>
      :: ('e error, _) outcome) =
    (if code = 0 then Ok \<lparr>response_header = h, response_tokens = filter nonempty (answer ts code)\<rparr>
     else Err (Opal (Status (StatusCode code))))"
  by (rule check_answer [OF assms, where ts = "filter nonempty ts"])
    (use assms in \<open>auto simp: answer_def nonempty_def\<close>)

section \<open>A command and its answer\<close>

lemma layout_mono: "layout_ok n a \<Longrightarrow> m \<le> n \<Longrightarrow> layout_ok m a"
  by (simp add: layout_ok_def)

lemma length_pad4_le: "length (pad4 p) \<le> length p + 3"
  by (simp add: length_pad4)

lemma send_answered:
  fixes P :: "('d, 'err) secure_protocol"
  assumes al: "layout_ok (length p + 4096) (align P (device (session_device s)))"
    and send: "session_proto (secure_send P (protocol s) (com_id (session_device s)) (wire_packet s (packet_of p e))) s
      = (Ok (), s1)"
    and al1: "layout_ok 2048 (align P (device (session_device s1)))"
    and recv: "session_proto (secure_recv P (protocol s) (com_id (session_device s)) (replicate 2048 0)) s1 =
      (Ok (reply_buffer h (concat cs) rest), s2)"
    and ann: "announces h (concat cs) rest" and dec: "map decode_atom cs = map Some as"
  shows "send_raw_command P (Suc fuel) (packet_of p e) s =
    (check_status e \<lparr>response_header = h, response_tokens = filter nonempty cs\<rparr>, s2)"
proof -
  have "layout_ok (length (pad4 p) + 56) (align P (device (session_device s)))"
    using layout_mono [OF al] length_pad4_le [of p] by simp
  moreover note receive_reply [OF recv al1 ann dec, of fuel e]
  ultimately show ?thesis
    using send by (simp add: send_raw_command_eq session_alloc_eq pbind_def)
qed

section \<open>Properties\<close>

text \<open>
  C8: a method call that the drive answers at once with a well-formed method response returns
  the response, token for token, if its status is zero, and the status as an error otherwise.
\<close>

theorem response_verdict:
  fixes P :: "('d, 'err) secure_protocol"
  assumes "layout_ok (length p + 4096) (align P (device (session_device s)))"
    and "session_proto (secure_send P (protocol s) (com_id (session_device s)) (wire_packet s (packet_of p True))) s
      = (Ok (), s1)"
    and "layout_ok 2048 (align P (device (session_device s1)))"
    and "session_proto (secure_recv P (protocol s) (com_id (session_device s)) (replicate 2048 0)) s1 =
      (Ok (reply_buffer h (concat (answer ts code)) rest), s2)"
    and "announces h (concat (answer ts code)) rest" "map decode_atom (answer ts code) = map Some as" "code < 0x40"
  shows "send_raw_command P (Suc fuel) (packet_of p True) s =
    (if code = 0 then Ok \<lparr>response_header = h, response_tokens = filter nonempty (answer ts code)\<rparr>
     else Err (Opal (Status (StatusCode code))), s2)"
  using send_answered [OF assms(1-6), of fuel] check_verdict [where 'e = 'err, OF assms(7), of h ts] by simp

definition denied_header :: opal_header where
  "denied_header = header (packet_of (concat (answer [[0xF0], [0xF1]] 1)) True)"

definition denying_drive :: "(unit, unit) secure_protocol" where
  "denying_drive =
     \<lparr>secure_send = (\<lambda>pr cid buf d. (Ok (), d)),
      secure_recv = (\<lambda>pr cid buf d. (Ok (reply_buffer denied_header (concat (answer [[0xF0], [0xF1]] 1)) (replicate 1984 0)), d)),
      reconnect_controller = (\<lambda>d. (Ok (), d)), align = (\<lambda>d. 4), serial_num = (\<lambda>d. [])\<rparr>"

theorem response_verdict_witness:
  "\<exists>s'. send_raw_command denying_drive 1 (packet_of [0xF8] True)
     \<lparr>session_device = \<lparr>device = (), com_id = 7, is_eprise = False, was_locked = True\<rparr>, tsn = 1, hsn = 2, protocol = 1\<rparr> =
     (Err (Opal (Status NOT_AUTHORIZED)), s')"
proof -
  let ?s = "\<lparr>session_device = \<lparr>device = (), com_id = 7, is_eprise = False, was_locked = True\<rparr>, tsn = 1, hsn = 2, protocol = 1\<rparr>"
  have "send_raw_command denying_drive (Suc 0) (packet_of [0xF8] True) ?s =
      (if (1 :: u8) = 0 then Ok \<lparr>response_header = denied_header, response_tokens = filter nonempty (answer [[0xF0], [0xF1]] 1)\<rparr>
       else Err (Opal (Status (StatusCode 1))), ?s)"
  proof (rule response_verdict [where ?s1.0 = ?s])
    show "announces denied_header (concat (answer [[0xF0], [0xF1]] 1)) (replicate 1984 0)"
      by (simp add: announces_def denied_header_def packet_of_def complete_def header_wf_def answer_def
          com_packet_header_default_def subpacket_header_default_def length_pad4)
    show "map decode_atom (answer [[0xF0], [0xF1]] 1) = map Some
        [Ctl 0xF0, Ctl 0xF1, Ctl 0xF9, Ctl 0xF0, Uint 1, Uint 0, Uint 0, Ctl 0xF1]"
      by (simp add: answer_def decode_atom_def)
  qed (simp_all add: denying_drive_def layout_ok_def is_power_of_two_def pmap_err_def zoom_def)
  then show ?thesis by (simp add: NOT_AUTHORIZED_def)
qed

end
