(* ===== verification/Drive.thy ===== *)
theory Drive imports Verdict begin

text \<open>
  \<^verbatim>\<open>OpalDrive\<close> of \<^verbatim>\<open>opal/src/lib.rs\<close>: opening a drive and unlocking it. The key
  derivation is the crate \<^verbatim>\<open>pbkdf2\<close> (with HMAC-SHA1), a parameter of the model: a function
  from password, salt, number of rounds and size of the output buffer to the filled buffer,
  or nothing when the crate refuses the password.

  The theorems describe every run of \<open>unlock\<close> that comes back by the packets it has put on
  the wire.
\<close>

section \<open>The model\<close>

datatype password_or_raw = Password "u8 list" | Raw "u8 list"

type_synonym kdf = "u8 list \<Rightarrow> u8 list \<Rightarrow> nat \<Rightarrow> nat \<Rightarrow> u8 list option"

record 'd opal_drive =
  drive_dev :: "'d secure_device"

definition opal_drive_new :: "('d, 'err) secure_protocol \<Rightarrow> ('d, 'err error, 'd opal_drive) prog" where
  "opal_drive_new P = pbind (secure_device_new P) (\<lambda>dv. pure (Ok \<lparr>drive_dev = dv\<rparr>))"

definition serial :: "('d, 'err) secure_protocol \<Rightarrow> 'd opal_drive \<Rightarrow> u8 list" where
  "serial P d = serial_num P (device (drive_dev d))"

definition drive_was_locked :: "'d opal_drive \<Rightarrow> bool" where
  "drive_was_locked d = was_locked (drive_dev d)"

definition unlock_key :: "kdf \<Rightarrow> u8 list \<Rightarrow> password_or_raw \<Rightarrow> ('err error, u8 list) outcome" where
  "unlock_key kdf salt pwd =
     (case pwd of
        Password p \<Rightarrow> (case kdf p salt 75000 32 of Some hash \<Rightarrow> Ok hash | None \<Rightarrow> Err Pbkdf)
      | Raw r \<Rightarrow> if length r = 32 then Ok r else Err RawKeyInvalidLength)"

text \<open>
  The life of a session as a local variable: however the body ends, short of a halt, the
  session is dropped, and the body's outcome is handed on.
\<close>

definition scoped ::
  "('d, 'err) secure_protocol \<Rightarrow> nat \<Rightarrow> ('d opal_session, 'err error, 'a) prog \<Rightarrow>
   'd opal_session \<Rightarrow> ('d secure_device, 'err error, 'a) prog" where
  "scoped P fuel body s dv =
     (case body s of
        (Halt h, s') \<Rightarrow> (Halt h, session_device s')
      | (r, s') \<Rightarrow>
          (case drop_session P fuel s' of
             (Halt h, s'') \<Rightarrow> (Halt h, session_device s'')
           | (_, s'') \<Rightarrow> (r, session_device s'')))"

definition unlock_body :: "('d, 'err) secure_protocol \<Rightarrow> nat \<Rightarrow> ('d opal_session, 'err error, unit) prog" where
  "unlock_body P fuel =
     pbind (set_locking_range P fuel 0 ReadWrite) (\<lambda>_. set_mbr_done P fuel True)"

definition unlock_device ::
  "('d, 'err) secure_protocol \<Rightarrow> nat \<Rightarrow> kdf \<Rightarrow> password_or_raw \<Rightarrow> ('d secure_device, 'err error, unit) prog" where
  "unlock_device P fuel kdf pwd dv =
     pbind (pure (unlock_key kdf (serial_num P (device dv)) pwd)) (\<lambda>hash.
     pbind (session_start P fuel uid_OPAL_LOCKINGSP uid_OPAL_ADMIN1 (Some hash)) (\<lambda>session.
     pbind (scoped P fuel (unlock_body P fuel) session) (\<lambda>_.
     dev_reconnect_controller P))) dv"

definition unlock ::
  "('d, 'err) secure_protocol \<Rightarrow> nat \<Rightarrow> kdf \<Rightarrow> password_or_raw \<Rightarrow> ('d opal_drive, 'err error, unit) prog" where
  "unlock P fuel kdf pwd = zoom drive_dev (\<lambda>dv d. d\<lparr>drive_dev := dv\<rparr>) (unlock_device P fuel kdf pwd)"

section \<open>The packets of an unlock\<close>

text \<open>
  A packet of the session with device \<open>dv\<close> and numbers \<open>h\<close> and \<open>t\<close>.
\<close>

definition packet :: "'d secure_device \<Rightarrow> u32 \<Rightarrow> u32 \<Rightarrow> u8 list \<Rightarrow> bool \<Rightarrow> event" where
  "packet dv h t p e =
     Sent 1 (com_id dv) (wire_packet \<lparr>session_device = dv, tsn = t, hsn = h, protocol = 1\<rparr> (packet_of p e))"

definition start_packet :: "'d secure_device \<Rightarrow> u8 list \<Rightarrow> event" where
  "start_packet dv key =
     packet dv 0 0 (call_bytes uid_OPAL_SMUID method_STARTSESSION (start_args uid_OPAL_LOCKINGSP uid_OPAL_ADMIN1 key)) True"

text \<open>The packet that opens the session: an enterprise drive is sent a time-out and no credential.\<close>

definition opening_packet :: "'d secure_device \<Rightarrow> u8 list \<Rightarrow> event" where
  "opening_packet dv key =
     packet dv 0 0 (call_bytes uid_OPAL_SMUID method_STARTSESSION (opening_args (is_eprise dv) key)) True"

lemma opening_packet_eq: "\<not> is_eprise dv \<Longrightarrow> opening_packet dv key = start_packet dv key"
  by (simp add: opening_packet_def start_packet_def opening_args_def)

definition range_packet :: "'d secure_device \<Rightarrow> u32 \<Rightarrow> u32 \<Rightarrow> event" where
  "range_packet dv h t =
     packet dv h t (call_bytes uid_OPAL_LOCKINGRANGE_GLOBAL method_SET (set_args [(7, 0), (8, 0)])) True"

definition mbr_packet :: "'d secure_device \<Rightarrow> u32 \<Rightarrow> u32 \<Rightarrow> event" where
  "mbr_packet dv h t = packet dv h t (call_bytes uid_OPAL_MBRCONTROL method_SET (set_args [(2, 1)])) True"

definition close_packet :: "'d secure_device \<Rightarrow> u32 \<Rightarrow> u32 \<Rightarrow> event" where
  "close_packet dv h t = packet dv h t [0xFA] False"

text \<open>A session in the shape \<open>unlock\<close> uses it.\<close>

definition session_on :: "'d secure_device \<Rightarrow> u32 \<Rightarrow> u32 \<Rightarrow> 'd opal_session \<Rightarrow> bool" where
  "session_on dv h t s \<longleftrightarrow> tsn s = t \<and> hsn s = h \<and> protocol s = 1 \<and>
     com_id (session_device s) = com_id dv \<and> is_eprise (session_device s) = is_eprise dv \<and>
     was_locked (session_device s) = was_locked dv"

lemma session_on_same: "same_session s s' \<Longrightarrow> session_on dv h t s' = session_on dv h t s"
  by (simp add: session_on_def same_session_simps)

lemma session_packet:
  "session_on dv h t s \<Longrightarrow>
     Sent (protocol s) (com_id (session_device s)) (wire_packet s (packet_of p e)) = packet dv h t p e"
  by (simp add: session_on_def packet_def wire_packet_def)

lemma send_on:
  assumes "session_on dv h t s" "send_raw_command (traced P) fuel (packet_of p e) s = (r, s')" "returns r"
  shows "session_on dv h t s' \<and> session_log s' = session_log s @ [packet dv h t p e]"
  using send_traced [OF assms(2,3)] session_on_same session_packet [OF assms(1)] assms(1) by metis

lemma command_on:
  assumes "session_on dv h t s" "returns r"
    and "pbind (send_raw_command (traced P) fuel (packet_of p e)) (\<lambda>_. pure (Ok ())) s = (r, s')"
  shows "session_on dv h t s' \<and> session_log s' = session_log s @ [packet dv h t p e]"
  using assms(3)
proof (cases rule: pbind_cases)
  case (Ok a s1)
  then show ?thesis using send_on [OF assms(1) Ok(1)] by (simp add: pure_def)
next
  case (Err e)
  then show ?thesis using send_on [OF assms(1) Err(1)] by simp
qed (use assms(2) in simp)

lemma set_locking_range_on:
  assumes "session_on dv h t s" "set_locking_range (traced P) fuel n st s = (r, s')" "returns r"
  shows "session_on dv h t s' \<and> session_log s' = session_log s @
    [packet dv h t (call_bytes (locking_range_uid n) method_SET (set_args (state_columns st))) True]"
  using command_on [OF assms(1,3)] assms(2)
  by (simp add: set_locking_range_def locking_range_command_eq)

lemma set_locking_sp_value_on:
  assumes "session_on dv h t s" "set_locking_sp_value (traced P) fuel table name value = m" "m s = (r, s')" "returns r"
  shows "session_on dv h t s' \<and> session_log s' = session_log s @
    [packet dv h t (call_bytes table method_SET (set_args [(token name, token value)])) True]"
  using command_on [OF assms(1,4)] assms(2,3)
  by (auto simp: set_locking_sp_value_def set_value_command_eq)

lemma set_mbr_done_on:
  assumes "session_on dv h t s" "set_mbr_done (traced P) fuel True s = (r, s')" "returns r"
  shows "session_on dv h t s' \<and> session_log s' = session_log s @ [mbr_packet dv h t]"
  using set_locking_sp_value_on [OF assms(1) _ _ assms(3)] assms(2)
  by (simp add: set_mbr_done_def mbr_packet_def simple_token_of_bool_def opal_consts)

lemma drop_session_on:
  assumes "session_on dv h t s" "drop_session (traced P) fuel s = (r, s')" "returns r"
  shows "r = Ok () \<and> session_on dv h t s' \<and> session_log s' = session_log s @ [close_packet dv h t]"
proof -
  obtain r1 s1 where send: "send_raw_command (traced P) fuel (packet_of [0xFA] False) s = (r1, s1)"
    by fastforce
  with assms(2,3) have "returns r1" "r = Ok ()" "s' = s1"
    by (cases r1; auto simp: drop_session_def close_command_eq)+
  then show ?thesis using send_on [OF assms(1) send] by (simp add: close_packet_def)
qed

lemma range_packet_eq:
  "packet dv h t (call_bytes (locking_range_uid 0) method_SET (set_args (state_columns ReadWrite))) True =
     range_packet dv h t"
  by (simp add: range_packet_def locking_range_uid_def state_columns_def opal_consts)

section \<open>Every run of an unlock\<close>

lemma get_uint_not_Err [simp]: "get_uint r i \<noteq> Err e"
  by (auto simp: get_uint_def index_def split: obind_split)

text \<open>The tail of \<open>start_body\<close>: it takes the session numbers from the response.\<close>

definition adopt_numbers :: "opal_response \<Rightarrow> ('d opal_session, 'err error, unit) prog" where
  "adopt_numbers response =
     pbind (pure (get_uint response 4)) (\<lambda>h.
     pbind (\<lambda>s. (Ok (), s\<lparr>hsn := ucast h\<rparr>)) (\<lambda>_.
     pbind (pure (get_uint response 5)) (\<lambda>t.
     (\<lambda>s. (Ok (), s\<lparr>tsn := ucast t\<rparr>)))))"

lemma start_body_eq:
  assumes "\<not> is_eprise (session_device s)" "length key < 2048"
  shows "start_body P fuel sp authority (Some key) s =
    pbind (send_raw_command P fuel
        (packet_of (call_bytes uid_OPAL_SMUID method_STARTSESSION (start_args sp authority key)) True))
      adopt_numbers s"
proof -
  let ?p = "packet_of (call_bytes uid_OPAL_SMUID method_STARTSESSION (start_args sp authority key)) True"
  obtain r1 s1 where send: "send_raw_command P fuel ?p s = (r1, s1)" by fastforce
  then have "\<not> is_eprise (session_device s1)"
    using assms(1) send_same_session [OF send] by (simp add: same_session_simps)
  then show ?thesis
    using assms send
    by (cases r1) (auto simp: start_body_def start_exchange_def start_command_eq adopt_numbers_def pbind_def pure_def
        split: outcome.splits)
qed

lemma adopt_numbers_on:
  assumes "adopt_numbers resp s = (r, s')" "returns r" "session_on dv 0 0 s"
  shows "r = Ok () \<and> (\<exists>h t. session_on dv h t s') \<and> session_log s' = session_log s"
  using assms by (auto simp: adopt_numbers_def pbind_def pure_def session_on_def session_log_def
      split: outcome.splits prod.splits)

text \<open>
  A session start that comes back has sent its request; past an answer it comes back only if
  the drive is not an enterprise drive, for which \<^verbatim>\<open>unimplemented!()\<close> follows.
\<close>

lemma start_body_split:
  assumes run: "start_body P fuel uid_OPAL_LOCKINGSP uid_OPAL_ADMIN1 (Some key) s = (r, s')" and ret: "returns r"
  obtains r1 s1 where
    "send_raw_command P fuel (packet_of (call_bytes uid_OPAL_SMUID method_STARTSESSION
       (opening_args (is_eprise (session_device s)) key)) True) s = (r1, s1)"
    "returns r1" "\<And>e. r1 = Err e \<Longrightarrow> r = Err e \<and> s' = s1" "\<And>resp. r1 = Ok resp \<Longrightarrow> adopt_numbers resp s1 = (r, s')"
proof -
  let ?p = "packet_of (call_bytes uid_OPAL_SMUID method_STARTSESSION (opening_args (is_eprise (session_device s)) key)) True"
  obtain r1 s1 where send: "send_raw_command P fuel ?p s = (r1, s1)" by fastforce
  have same: "is_eprise (session_device s1) = is_eprise (session_device s)"
    using send_same_session [OF send] by (simp add: same_session_simps)
  have run': "pbind (send_raw_command P fuel ?p) (\<lambda>response. pbind (pure (get_uint response 4)) (\<lambda>h.
      pbind (\<lambda>s. (Ok (), s\<lparr>hsn := ucast h\<rparr>)) (\<lambda>_. pbind (pure (get_uint response 5)) (\<lambda>t.
      pbind (\<lambda>s. (Ok (), s\<lparr>tsn := ucast t\<rparr>)) (\<lambda>_ s.
      if is_eprise (session_device s) then (Panic, s) else (Ok (), s)))))) s = (r, s')"
    using run ret by (auto simp: start_body_def start_exchange_def opening_command_eq pure_def split: if_splits)
  show thesis
  proof (rule that [OF send])
    show "returns r1" using run' ret send by (cases r1) (auto simp: pbind_def)
    show "r = Err e \<and> s' = s1" if "r1 = Err e" for e using run' send that by (auto simp: pbind_def)
    show "adopt_numbers resp s1 = (r, s')" if "r1 = Ok resp" for resp
      using run' ret send same that
      by (auto simp: pbind_def pure_def adopt_numbers_def split: outcome.splits if_splits)
  qed
qed

lemma start_body_on:
  assumes run: "start_body (traced P) fuel uid_OPAL_LOCKINGSP uid_OPAL_ADMIN1 (Some key)
      \<lparr>session_device = dv, tsn = 0, hsn = 0, protocol = 1\<rparr> = (r, s)" and ret: "returns r"
  shows "session_log s = device_log dv @ [opening_packet dv key] \<and>
    (\<exists>h t. session_on dv h t s \<and> (r \<noteq> Ok () \<longrightarrow> h = 0 \<and> t = 0))"
proof -
  let ?s0 = "\<lparr>session_device = dv, tsn = 0, hsn = 0, protocol = 1\<rparr>"
  have on0: "session_on dv 0 0 ?s0" and log0: "session_log ?s0 = device_log dv"
    by (simp_all add: session_on_def session_log_def)
  from run ret obtain r1 s1 where
    send: "send_raw_command (traced P) fuel (packet_of (call_bytes uid_OPAL_SMUID method_STARTSESSION
       (opening_args (is_eprise dv) key)) True) ?s0 = (r1, s1)" "returns r1"
    and err: "\<And>e. r1 = Err e \<Longrightarrow> r = Err e \<and> s = s1"
    and ok: "\<And>resp. r1 = Ok resp \<Longrightarrow> adopt_numbers resp s1 = (r, s)"
    by (rule start_body_split) simp
  have on1: "session_on dv 0 0 s1" "session_log s1 = device_log dv @ [opening_packet dv key]"
    using send_on [OF on0 send] log0 by (simp_all add: opening_packet_def)
  show ?thesis
  proof (cases r1)
    case (Ok resp)
    then show ?thesis using adopt_numbers_on [OF ok [OF Ok] ret on1(1)] on1(2) by auto
  qed (use err on1 send(2) in auto)
qed

text \<open>No session with an enterprise drive is ever opened.\<close>

lemma start_body_eprise:
  fixes P :: "('d, 'err) secure_protocol"
  assumes "is_eprise (session_device s)" "start_body P fuel sp authority (Some ch) s = (r, s')"
  shows "r \<noteq> Ok ()"
  using assms
  by (auto simp: start_body_def start_exchange_def enterprise_start_command_eq pbind_def pure_def same_session_simps
      split: prod.splits outcome.splits dest!: send_same_session)

lemma session_start_eprise:
  assumes "is_eprise dv"
  shows "session_start P fuel sp authority (Some key) dv \<noteq> (Ok s, dv')"
  using start_body_eprise [of "\<lparr>session_device = dv, tsn = 0, hsn = 0, protocol = 1\<rparr>"] assms
  by (fastforce simp: session_start_def split: outcome.splits prod.splits)

lemma unlock_device_eprise:
  assumes "is_eprise dv" "unlock_device P fuel kdf pwd dv = (r, dv')"
  shows "r \<noteq> Ok ()"
  using assms by (auto simp: unlock_device_def ok_iff session_start_eprise)

lemma session_start_on:
  assumes run: "session_start (traced P) fuel uid_OPAL_LOCKINGSP uid_OPAL_ADMIN1 (Some key) dv = (r, dv')"
    and ret: "returns r"
  shows "(\<exists>s h t. r = Ok s \<and> session_on dv h t s \<and> session_log s = device_log dv @ [opening_packet dv key]) \<or>
    (\<exists>e. r = Err e \<and> device_log dv' = device_log dv @ [opening_packet dv key, close_packet dv 0 0])"
proof -
  obtain r1 s1 where body: "start_body (traced P) fuel uid_OPAL_LOCKINGSP uid_OPAL_ADMIN1 (Some key)
      \<lparr>session_device = dv, tsn = 0, hsn = 0, protocol = 1\<rparr> = (r1, s1)" by fastforce
  with run ret have ret1: "returns r1" by (cases r1) (auto simp: session_start_def)
  note on = start_body_on [OF body ret1]
  show ?thesis
  proof (cases r1)
    case (Ok u)
    then show ?thesis using run body on by (auto simp: session_start_def)
  next
    case (Err e)
    obtain r2 s2 where drop: "drop_session (traced P) fuel s1 = (r2, s2)" by fastforce
    have "returns r2" "r = Err e" "dv' = session_device s2"
      using run ret body Err drop by (cases r2; auto simp: session_start_def)+
    moreover have "session_on dv 0 0 s1" using on Err by auto
    ultimately have "session_log s2 = session_log s1 @ [close_packet dv 0 0]"
      using drop_session_on [OF _ drop] by blast
    then show ?thesis using on \<open>r = Err e\<close> \<open>dv' = session_device s2\<close>
      by (simp add: session_log_def)
  qed (use ret1 in simp)
qed

lemma unlock_body_on:
  assumes run: "unlock_body (traced P) fuel s = (r, s')" and ret: "returns r" and on: "session_on dv h t s"
  shows "session_on dv h t s' \<and>
    (session_log s' = session_log s @ [range_packet dv h t, mbr_packet dv h t] \<or>
     session_log s' = session_log s @ [range_packet dv h t] \<and> r \<noteq> Ok ())"
  using run unfolding unlock_body_def
proof (cases rule: pbind_cases)
  case (Ok a s1)
  then have "session_on dv h t s1 \<and> session_log s1 = session_log s @ [range_packet dv h t]"
    using set_locking_range_on [OF on Ok(1)] by (simp add: range_packet_eq)
  with set_mbr_done_on [OF _ Ok(2) ret] show ?thesis by auto
next
  case (Err e)
  then show ?thesis using set_locking_range_on [OF on Err(1)] by (simp add: range_packet_eq)
qed (use ret in simp)

lemma scoped_unlock_on:
  assumes run: "scoped (traced P) fuel (unlock_body (traced P) fuel) s dv0 = (r, dv')"
    and ret: "returns r" and on: "session_on dv h t s"
  shows "com_id dv' = com_id dv \<and>
    (device_log dv' = session_log s @ [range_packet dv h t, mbr_packet dv h t, close_packet dv h t] \<or>
     device_log dv' = session_log s @ [range_packet dv h t, close_packet dv h t] \<and> r \<noteq> Ok ())"
proof -
  obtain r1 s1 where body: "unlock_body (traced P) fuel s = (r1, s1)" by fastforce
  obtain r2 s2 where drop: "drop_session (traced P) fuel s1 = (r2, s2)" by fastforce
  have r: "returns r1" "returns r2" "r = r1" "dv' = session_device s2"
    using run ret body drop by (cases r1; cases r2; auto simp: scoped_def)+
  note b = unlock_body_on [OF body r(1) on]
  have "session_on dv h t s2 \<and> session_log s2 = session_log s1 @ [close_packet dv h t]"
    using drop_session_on [OF _ drop r(2)] b by blast
  then show ?thesis using b r by (auto simp: session_on_def session_log_def)
qed

text \<open>
  What an unlock that has sent \<open>n\<close> of its three requests leaves behind.
\<close>

definition unlock_events ::
  "'d secure_device \<Rightarrow> u8 list \<Rightarrow> nat \<Rightarrow> u32 \<Rightarrow> u32 \<Rightarrow> bool \<Rightarrow> event list" where
  "unlock_events dv key n h t reconnected =
     take n [opening_packet dv key, range_packet dv h t, mbr_packet dv h t] @ [close_packet dv h t]
       @ (if reconnected then [Reconnected] else [])"

lemma reconnect_logs:
  assumes "dev_reconnect_controller (traced P) dv = (r, dv')"
  shows "device_log dv' = device_log dv @ [Reconnected]"
  using assms
  by (auto simp: dev_reconnect_controller_def pmap_err_def zoom_def traced_def device_log_def split: prod.splits)

lemma unlock_device_on:
  fixes P :: "('d, 'err) secure_protocol"
  assumes run: "unlock_device (traced P) fuel kdf pwd dv = (r, dv')" and ret: "returns r"
    and key: "unlock_key kdf (serial_num (traced P) (device dv)) pwd = (Ok key :: ('err error, _) outcome)"
  shows "\<exists>n h t b. device_log dv' = device_log dv @ unlock_events dv key n h t b \<and>
    (r = Ok () \<longrightarrow> b) \<and> (b \<longrightarrow> n = 3) \<and> 1 \<le> n \<and> n \<le> 3 \<and> (is_eprise dv \<longrightarrow> n = 1)"
proof -
  from run key have "pbind (session_start (traced P) fuel uid_OPAL_LOCKINGSP uid_OPAL_ADMIN1 (Some key))
      (\<lambda>session. pbind (scoped (traced P) fuel (unlock_body (traced P) fuel) session)
        (\<lambda>_. dev_reconnect_controller (traced P))) dv = (r, dv')"
    by (simp add: unlock_device_def)
  then show ?thesis
  proof (cases rule: pbind_cases)
    case (Ok s dv0)
    then obtain h t where on: "session_on dv h t s"
      and log0: "session_log s = device_log dv @ [opening_packet dv key]"
      using session_start_on [OF Ok(1)] by auto
    have ent: "\<not> is_eprise dv" using session_start_eprise Ok(1) by blast
    from Ok(2) show ?thesis
    proof (cases rule: pbind_cases)
      case (Ok u dv1)
      then have "device_log dv' = device_log dv @ unlock_events dv key 3 h t True"
        using scoped_unlock_on [OF Ok(1) _ on] reconnect_logs [OF Ok(2)] log0
        by (auto simp: unlock_events_def)
      then show ?thesis by (intro exI [of _ 3] exI [of _ h] exI [of _ t] exI [of _ True]) (simp add: ent)
    next
      case (Err e)
      then have "\<exists>n. 1 \<le> n \<and> n \<le> 3 \<and> device_log dv' = device_log dv @ unlock_events dv key n h t False"
        using scoped_unlock_on [OF Err(1) _ on] log0
        by (auto simp: unlock_events_def intro: exI [of _ 3] exI [of _ 2])
      then show ?thesis using Err(2) ent by blast
    qed (use ret in simp)
  next
    case (Err e)
    then have "device_log dv' = device_log dv @ unlock_events dv key 1 0 0 False"
      using session_start_on [OF Err(1)] by (auto simp: unlock_events_def)
    then show ?thesis using Err(2) by (intro exI [of _ 1] exI [of _ 0] exI [of _ False]) simp
  qed (use ret in simp)
qed

section \<open>Drives that accept every command\<close>

text \<open>
  While its state is in \<open>I\<close> the drive takes every packet, answers every poll at once with a
  method response of status zero whose fifth and sixth token are readable numbers, and can
  be reconnected.
\<close>

definition accepts_recv :: "('d, 'err) secure_protocol \<Rightarrow> 'd set \<Rightarrow> 'd \<Rightarrow> bool" where
  "accepts_recv P I d \<longleftrightarrow> (\<forall>pr cid. \<exists>d' \<in> I. \<exists>h ts rest as v w.
     secure_recv P pr cid (replicate 2048 0) d = (Ok (reply_buffer h (concat (answer ts 0)) rest), d') \<and>
     announces h (concat (answer ts 0)) rest \<and> map decode_atom (answer ts 0) = map Some as \<and>
     get_uint \<lparr>response_header = h, response_tokens = filter nonempty (answer ts 0)\<rparr> 4 = (Ok v :: ('err error, _) outcome) \<and>
     get_uint \<lparr>response_header = h, response_tokens = filter nonempty (answer ts 0)\<rparr> 5 = (Ok w :: ('err error, _) outcome))"

definition accepting :: "('d, 'err) secure_protocol \<Rightarrow> 'd set \<Rightarrow> bool" where
  "accepting P I \<longleftrightarrow> (\<forall>d \<in> I. layout_ok 8192 (align P d) \<and>
     (\<forall>pr cid buf. \<exists>d' \<in> I. secure_send P pr cid buf d = (Ok (), d')) \<and>
     (\<exists>d' \<in> I. reconnect_controller P d = (Ok (), d')) \<and> accepts_recv P I d)"

definition readable :: "'err itself \<Rightarrow> opal_response \<Rightarrow> bool" where
  "readable T resp \<longleftrightarrow> (\<exists>v w. get_uint resp 4 = (Ok v :: ('err error, _) outcome) \<and> get_uint resp 5 = (Ok w :: ('err error, _) outcome))"

lemma session_proto_run:
  "m (device (session_device s)) = (r, d') \<Longrightarrow>
     session_proto m s = (map_err Io r, s\<lparr>session_device := (session_device s)\<lparr>device := d'\<rparr>\<rparr>)"
  by (simp add: pmap_err_def zoom_def)

lemma accepting_send:
  fixes P :: "('d, 'err) secure_protocol"
  assumes acc: "accepting P I" and d: "device (session_device s) \<in> I" and len: "length p \<le> 4096"
  shows "\<exists>resp s'. send_raw_command P (Suc fuel) (packet_of p e) s = (check_status e resp, s') \<and>
    device (session_device s') \<in> I \<and> same_session s s' \<and> readable TYPE('err) resp \<and>
    check_status True resp = (Ok resp :: ('err error, _) outcome)"
proof -
  let ?pr = "protocol s" and ?cid = "com_id (session_device s)"
  obtain d1 where d1: "d1 \<in> I"
    "secure_send P ?pr ?cid (wire_packet s (packet_of p e)) (device (session_device s)) = (Ok (), d1)"
    using acc d unfolding accepting_def by blast
  let ?s1 = "s\<lparr>session_device := (session_device s)\<lparr>device := d1\<rparr>\<rparr>"
  have "accepts_recv P I d1" using acc d1(1) by (simp add: accepting_def)
  then obtain d2 h ts rest as v w where d2: "d2 \<in> I"
    "secure_recv P ?pr ?cid (replicate 2048 0) d1 = (Ok (reply_buffer h (concat (answer ts 0)) rest), d2)"
    "announces h (concat (answer ts 0)) rest" "map decode_atom (answer ts 0) = map Some as"
    and rd: "readable TYPE('err) \<lparr>response_header = h, response_tokens = filter nonempty (answer ts 0)\<rparr>"
    unfolding accepts_recv_def readable_def by blast
  let ?s2 = "?s1\<lparr>session_device := (session_device ?s1)\<lparr>device := d2\<rparr>\<rparr>"
  have lay: "layout_ok 8192 (align P (device (session_device s)))" "layout_ok 8192 (align P d1)"
    using acc d d1(1) by (auto simp: accepting_def)
  have "send_raw_command P (Suc fuel) (packet_of p e) s =
      (check_status e \<lparr>response_header = h, response_tokens = filter nonempty (answer ts 0)\<rparr>, ?s2)"
  proof (rule send_answered [where ?s1.0 = ?s1 and cs = "answer ts 0" and rest = rest])
    show "layout_ok (length p + 4096) (align P (device (session_device s)))"
      using layout_mono [OF lay(1)] len by simp
    show "layout_ok 2048 (align P (device (session_device ?s1)))"
      using layout_mono [OF lay(2)] by simp
    show "session_proto (secure_send P ?pr ?cid (wire_packet s (packet_of p e))) s = (Ok (), ?s1)"
      using d1(2) by (simp add: session_proto_run)
    show "session_proto (secure_recv P ?pr ?cid (replicate 2048 0)) ?s1 =
        (Ok (reply_buffer h (concat (answer ts 0)) rest), ?s2)"
      using d2(2) by (simp add: session_proto_run)
  qed (use d2 in auto)
  then show ?thesis
    using d2(1) rd check_verdict [where 'e = 'err, of 0 h ts]
    by (auto simp: same_session_simps intro!: exI)
qed

lemma accepting_command:
  fixes P :: "('d, 'err) secure_protocol"
  assumes "accepting P I" "device (session_device s) \<in> I" "length p \<le> 4096"
  shows "\<exists>s'. pbind (send_raw_command P (Suc fuel) (packet_of p True)) (\<lambda>_. pure (Ok ())) s = (Ok (), s') \<and>
    device (session_device s') \<in> I"
proof -
  obtain resp s' where "send_raw_command P (Suc fuel) (packet_of p True) s = (check_status True resp, s')"
    "device (session_device s') \<in> I" "check_status True resp = (Ok resp :: ('err error, _) outcome)"
    using accepting_send [OF assms, of fuel True] by blast
  then show ?thesis by (simp add: pbind_def pure_def)
qed

lemma accepting_drop:
  assumes "accepting P I" "device (session_device s) \<in> I"
  shows "\<exists>s'. drop_session P (Suc fuel) s = (Ok (), s') \<and> device (session_device s') \<in> I"
proof -
  obtain resp s' where "send_raw_command P (Suc fuel) (packet_of [0xFA] False) s = (check_status False resp, s')"
    "device (session_device s') \<in> I"
    using accepting_send [OF assms, of "[0xFA]" fuel False] by auto
  then show ?thesis by (simp add: drop_session_def close_command_eq check_status_no_eod)
qed

lemma call_length:
  "bs8_wf obj \<Longrightarrow> bs8_wf meth \<Longrightarrow> length args \<le> 4000 \<Longrightarrow> length (call_bytes obj meth args) \<le> 4096"
  by (simp add: call_bytes_def eod_trailer_def bs8_wf_def)

lemma accepting_start:
  fixes P :: "('d, 'err) secure_protocol"
  assumes acc: "accepting P I" and d: "device dv \<in> I" and ent: "\<not> is_eprise dv" and len: "length key = 32"
  shows "\<exists>s. session_start P (Suc fuel) uid_OPAL_LOCKINGSP uid_OPAL_ADMIN1 (Some key) dv = (Ok s, session_device s) \<and>
    device (session_device s) \<in> I"
proof -
  let ?s0 = "\<lparr>session_device = dv, tsn = 0, hsn = 0, protocol = 1\<rparr>"
  let ?p = "call_bytes uid_OPAL_SMUID method_STARTSESSION (start_args uid_OPAL_LOCKINGSP uid_OPAL_ADMIN1 key)"
  have "key \<noteq> []" using len by auto
  then have "length (start_args uid_OPAL_LOCKINGSP uid_OPAL_ADMIN1 key) \<le> 4000"
    using len by (intro start_args_length bs8_wf_consts) simp
  then have "length ?p \<le> 4096" by (intro call_length) simp_all
  moreover have "device (session_device ?s0) \<in> I" using d by simp
  ultimately obtain resp s1 where
    send: "send_raw_command P (Suc fuel) (packet_of ?p True) ?s0 = (check_status True resp, s1)"
    and s1: "device (session_device s1) \<in> I" "readable TYPE('err) resp"
      "check_status True resp = (Ok resp :: ('err error, _) outcome)"
    using accepting_send [OF acc, of ?s0 ?p fuel True] by blast
  obtain v w where "get_uint resp 4 = (Ok v :: ('err error, _) outcome)" "get_uint resp 5 = (Ok w :: ('err error, _) outcome)"
    using s1(2) by (auto simp: readable_def)
  then have "start_body P (Suc fuel) uid_OPAL_LOCKINGSP uid_OPAL_ADMIN1 (Some key) ?s0 =
      (Ok (), s1\<lparr>hsn := ucast v, tsn := ucast w\<rparr>)"
    using start_body_eq [of ?s0 key P] ent len send s1(3) by (simp add: pbind_def adopt_numbers_def pure_def)
  then show ?thesis using s1(1) by (simp add: session_start_def)
qed

lemma accepting_scoped:
  assumes acc: "accepting P I" and d: "device (session_device s) \<in> I"
  shows "\<exists>dv'. scoped P (Suc fuel) (unlock_body P (Suc fuel)) s dv = (Ok (), dv') \<and> device dv' \<in> I"
proof -
  let ?range = "call_bytes (locking_range_uid 0) method_SET (set_args (state_columns ReadWrite))"
  let ?mbr = "call_bytes uid_OPAL_MBRCONTROL method_SET (set_args [(token token_MBRDONE, token (simple_token_of_bool True))])"
  have len: "length ?range \<le> 4096" "length ?mbr \<le> 4096"
    by (intro call_length; simp add: set_args_def state_columns_def locking_range_uid_def)+
  obtain s1 where s1: "set_locking_range P (Suc fuel) 0 ReadWrite s = (Ok (), s1)" "device (session_device s1) \<in> I"
    using accepting_command [OF acc d len(1), of fuel]
    by (auto simp: set_locking_range_def locking_range_command_eq)
  obtain s2 where s2: "set_mbr_done P (Suc fuel) True s1 = (Ok (), s2)" "device (session_device s2) \<in> I"
    using accepting_command [OF acc s1(2) len(2), of fuel]
    by (auto simp: set_mbr_done_def set_locking_sp_value_def set_value_command_eq)
  obtain s3 where "drop_session P (Suc fuel) s2 = (Ok (), s3)" "device (session_device s3) \<in> I"
    using accepting_drop [OF acc s2(2), of fuel] by blast
  then show ?thesis using s1 s2 by (simp add: scoped_def unlock_body_def pbind_def)
qed

lemma accepting_unlock:
  fixes P :: "('d, 'err) secure_protocol"
  assumes acc: "accepting P I" and d: "device dv \<in> I" and ent: "\<not> is_eprise dv"
    and key: "unlock_key kdf (serial_num P (device dv)) pwd = (Ok key :: ('err error, _) outcome)" "length key = 32"
  shows "\<exists>dv'. unlock_device P (Suc fuel) kdf pwd dv = (Ok (), dv') \<and> device dv' \<in> I"
proof -
  obtain s where s: "session_start P (Suc fuel) uid_OPAL_LOCKINGSP uid_OPAL_ADMIN1 (Some key) dv = (Ok s, session_device s)"
    "device (session_device s) \<in> I"
    using accepting_start [OF acc d ent key(2), of fuel] by blast
  obtain dv1 where dv1: "scoped P (Suc fuel) (unlock_body P (Suc fuel)) s (session_device s) = (Ok (), dv1)" "device dv1 \<in> I"
    using accepting_scoped [OF acc s(2), of fuel "session_device s"] by blast
  obtain d2 where d2: "reconnect_controller P (device dv1) = (Ok (), d2)" "d2 \<in> I"
    using acc dv1(2) by (auto simp: accepting_def)
  then have "dev_reconnect_controller P dv1 = (Ok (), dv1\<lparr>device := d2\<rparr>)"
    by (simp add: dev_reconnect_controller_def pmap_err_def zoom_def)
  then show ?thesis
    using key(1) s(1) dv1(1) d2(2) by (simp add: unlock_device_def pbind_def)
qed

lemma accepting_traced:
  assumes "accepting P I"
  shows "accepting (traced P) (I \<times> UNIV)"
proof -
  have "accepts_recv (traced P) (I \<times> UNIV) (d, l)" if "accepts_recv P I d" for d l
    unfolding accepts_recv_def
  proof (intro allI)
    fix pr cid
    from that obtain d' h ts rest as v w where
      "d' \<in> I" "secure_recv P pr cid (replicate 2048 0) d = (Ok (reply_buffer h (concat (answer ts 0)) rest), d')"
      "announces h (concat (answer ts 0)) rest" "map decode_atom (answer ts 0) = map Some as"
      "get_uint \<lparr>response_header = h, response_tokens = filter nonempty (answer ts 0)\<rparr> 4 = (Ok v :: ('b error, _) outcome)"
      "get_uint \<lparr>response_header = h, response_tokens = filter nonempty (answer ts 0)\<rparr> 5 = (Ok w :: ('b error, _) outcome)"
      unfolding accepts_recv_def by blast
    then show "\<exists>dl \<in> I \<times> UNIV. \<exists>h ts rest as v w.
        secure_recv (traced P) pr cid (replicate 2048 0) (d, l) = (Ok (reply_buffer h (concat (answer ts 0)) rest), dl) \<and>
        announces h (concat (answer ts 0)) rest \<and> map decode_atom (answer ts 0) = map Some as \<and>
        get_uint \<lparr>response_header = h, response_tokens = filter nonempty (answer ts 0)\<rparr> 4 = (Ok v :: ('b error, _) outcome) \<and>
        get_uint \<lparr>response_header = h, response_tokens = filter nonempty (answer ts 0)\<rparr> 5 = (Ok w :: ('b error, _) outcome)"
      by (intro bexI [of _ "(d', l)"] exI conjI) (auto simp: traced_def)
  qed
  moreover have "\<exists>dl \<in> I \<times> UNIV. secure_send (traced P) pr cid buf (d, l) = (Ok (), dl)"
    if "\<exists>d' \<in> I. secure_send P pr cid buf d = (Ok (), d')" for pr cid buf d l
    using that by (auto simp: traced_def)
  moreover have "\<exists>dl \<in> I \<times> UNIV. reconnect_controller (traced P) (d, l) = (Ok (), dl)"
    if "\<exists>d' \<in> I. reconnect_controller P d = (Ok (), d')" for d l
    using that by (auto simp: traced_def)
  ultimately show ?thesis using assms unfolding accepting_def by auto
qed

text \<open>
  An example: a drive that gives every request the answer to \<open>STARTSESSION\<close>, session
  numbers 105 and 1 in atoms of four bytes.
\<close>

definition sync_tokens :: "u8 list list" where
  "sync_tokens = [[0xF8], [0xA8, 0, 0, 0, 0, 0, 0, 0, 0xFF], [0xA8, 0, 0, 0, 0, 0, 0, 0xFF, 0x03], [0xF0],
     [0x84, 0, 0, 0, 105], [0x84, 0, 0, 0, 1], [0xF1]]"

definition sync_header :: opal_header where
  "sync_header = header (packet_of (concat (answer sync_tokens 0)) True)"

definition sync_drive :: "(unit, unit) secure_protocol" where
  "sync_drive =
     \<lparr>secure_send = (\<lambda>pr cid buf d. (Ok (), d)),
      secure_recv = (\<lambda>pr cid buf d. (Ok (reply_buffer sync_header (concat (answer sync_tokens 0)) (replicate 1955 0)), d)),
      reconnect_controller = (\<lambda>d. (Ok (), d)), align = (\<lambda>d. 4), serial_num = (\<lambda>d. [0x53])\<rparr>"

definition sync_device :: "(unit \<times> event list) secure_device" where
  "sync_device = \<lparr>device = ((), []), com_id = 0x1000, is_eprise = False, was_locked = True\<rparr>"

lemma accepting_sync_drive: "accepting sync_drive UNIV"
proof -
  let ?r = "\<lparr>response_header = sync_header, response_tokens = filter nonempty (answer sync_tokens 0)\<rparr>"
  have "map decode_atom (answer sync_tokens 0) = map Some
      [Ctl 0xF8, Bstr [0, 0, 0, 0, 0, 0, 0, 0xFF], Bstr [0, 0, 0, 0, 0, 0, 0xFF, 0x03], Ctl 0xF0, Uint 105, Uint 1,
       Ctl 0xF1, Ctl 0xF9, Ctl 0xF0, Uint 0, Uint 0, Uint 0, Ctl 0xF1]"
    by (simp add: answer_def sync_tokens_def decode_atom_def be_nat_def)
  moreover have "announces sync_header (concat (answer sync_tokens 0)) (replicate 1955 0)"
    by (simp add: announces_def sync_header_def packet_of_def complete_def header_wf_def answer_def sync_tokens_def
        com_packet_header_default_def subpacket_header_default_def length_pad4)
  moreover obtain v w where "get_uint ?r 4 = (Ok v :: (unit error, _) outcome)" "get_uint ?r 5 = (Ok w :: (unit error, _) outcome)"
    by (simp add: get_uint_def index_def answer_def sync_tokens_def nonempty_def)
  moreover have "secure_recv sync_drive pr cid buf d =
      (Ok (reply_buffer sync_header (concat (answer sync_tokens 0)) (replicate 1955 0)), d)" for pr cid buf d
    by (simp add: sync_drive_def)
  ultimately have "accepts_recv sync_drive UNIV d" for d
    unfolding accepts_recv_def
    by (intro allI bexI [of _ d] exI [of _ sync_header] exI [of _ sync_tokens] exI [of _ "replicate 1955 0"] exI conjI UNIV_I)
  then show ?thesis
    unfolding accepting_def
    by (auto simp: sync_drive_def layout_ok_def is_power_of_two_def)
qed

section \<open>Properties\<close>

lemma unlock_run:
  assumes "unlock P fuel kdf pwd d = (r, d')"
  shows "unlock_device P fuel kdf pwd (drive_dev d) = (r, drive_dev d')"
  using assms by (auto simp: unlock_def zoom_def split: prod.splits)

lemma unlock_device_key:
  fixes P :: "('d, 'err) secure_protocol"
  assumes "unlock_device P fuel kdf pwd dv = (Ok (), dv')"
  shows "\<exists>key. unlock_key kdf (serial_num P (device dv)) pwd = (Ok key :: ('err error, _) outcome)"
  using assms by (auto simp: unlock_device_def ok_iff)

text \<open>
  C1: a successful unlock has put exactly these packets on the wire, in this order: the start
  of a session that presents the key to the authority Admin1 of the Locking SP, the opening of
  the global range for reading and writing, the setting of MBRDone, the end of the session, and
  only then the reset of the controller.
\<close>

theorem unlock_ok_packets:
  fixes P :: "('d, 'err) secure_protocol"
  assumes "unlock (traced P) fuel kdf pwd d = (Ok (), d')"
  shows "\<exists>key h t. unlock_key kdf (serial (traced P) d) pwd = (Ok key :: ('err error, _) outcome) \<and>
    device_log (drive_dev d') = device_log (drive_dev d) @
      [start_packet (drive_dev d) key, range_packet (drive_dev d) h t, mbr_packet (drive_dev d) h t,
       close_packet (drive_dev d) h t, Reconnected]"
proof -
  note run = unlock_run [OF assms]
  obtain key where key: "unlock_key kdf (serial (traced P) d) pwd = (Ok key :: ('err error, _) outcome)"
    using unlock_device_key [OF run] by (auto simp: serial_def)
  have ent: "\<not> is_eprise (drive_dev d)" using unlock_device_eprise [OF _ run] by blast
  obtain n h t where "device_log (drive_dev d') = device_log (drive_dev d) @ unlock_events (drive_dev d) key n h t True"
    "n = 3"
    using unlock_device_on [OF run _ key [unfolded serial_def]] by fastforce
  then show ?thesis using key ent by (auto simp: unlock_events_def opening_packet_eq)
qed

lemma sync_unlock:
  "\<exists>d'. unlock (traced sync_drive) 1 kdf (Raw (replicate 32 7)) \<lparr>drive_dev = sync_device\<rparr> = (Ok (), d')"
  using accepting_unlock [OF accepting_traced [OF accepting_sync_drive], of sync_device kdf "Raw (replicate 32 7)" _ 0]
  by (auto simp: unlock_def zoom_def unlock_key_def sync_device_def)

theorem unlock_ok_packets_witness:
  "\<exists>d' key h t. unlock (traced sync_drive) 1 (\<lambda>p s n k. None) (Raw (replicate 32 7)) \<lparr>drive_dev = sync_device\<rparr> = (Ok (), d') \<and>
    device_log (drive_dev d') = [start_packet sync_device key, range_packet sync_device h t,
      mbr_packet sync_device h t, close_packet sync_device h t, Reconnected]"
proof -
  obtain d' where d': "unlock (traced sync_drive) 1 (\<lambda>p s n k. None) (Raw (replicate 32 7)) \<lparr>drive_dev = sync_device\<rparr> = (Ok (), d')"
    using sync_unlock by blast
  have "device_log sync_device = []" by (simp add: device_log_def sync_device_def)
  with unlock_ok_packets [OF d'] d' show ?thesis by auto
qed

text \<open>
  C2: however an unlock returns, with success or with an error (that is, short of a panic, a reset
  or a hang), on whatever drive: a session whose start was sent has also been closed. The closing
  message is the last packet on the wire, and the controller is reset only after all three
  requests were sent and the session is closed. A run that fails before the start has not
  touched the drive. An enterprise drive gets no further than the start: it sees the start with
  its time-out and the closing message.
\<close>

theorem unlock_closes_session:
  fixes P :: "('d, 'err) secure_protocol"
  assumes "unlock (traced P) fuel kdf pwd d = (r, d')" "returns r"
  shows "d' = d \<and> (\<forall>key. unlock_key kdf (serial (traced P) d) pwd \<noteq> (Ok key :: ('err error, _) outcome)) \<or>
    (\<exists>key n h t b. unlock_key kdf (serial (traced P) d) pwd = (Ok key :: ('err error, _) outcome) \<and> 1 \<le> n \<and> n \<le> 3 \<and>
       device_log (drive_dev d') = device_log (drive_dev d) @ unlock_events (drive_dev d) key n h t b \<and>
       (r = Ok () \<longrightarrow> b) \<and> (b \<longrightarrow> n = 3) \<and> (is_eprise (drive_dev d) \<longrightarrow> n = 1))"
proof (cases "unlock_key kdf (serial (traced P) d) pwd :: ('err error, _) outcome")
  case (Ok key)
  then show ?thesis
    using unlock_device_on [OF unlock_run [OF assms(1)] assms(2) Ok [unfolded serial_def]] by blast
qed (use assms(1) in \<open>auto simp: unlock_def zoom_def unlock_device_def serial_def pbind_def pure_def\<close>)

theorem unlock_closes_session_witness:
  "\<exists>d' key n h t b. unlock (traced sync_drive) 1 (\<lambda>p s n k. None) (Raw (replicate 32 7)) \<lparr>drive_dev = sync_device\<rparr> = (Ok (), d') \<and>
    device_log (drive_dev d') = unlock_events sync_device key n h t b \<and> b \<and> n = 3"
proof -
  let ?d = "\<lparr>drive_dev = sync_device\<rparr>"
  obtain d' where d': "unlock (traced sync_drive) 1 (\<lambda>p s n k. None) (Raw (replicate 32 7)) ?d = (Ok (), d')"
    using sync_unlock by blast
  have "device_log sync_device = []" by (simp add: device_log_def sync_device_def)
  with unlock_closes_session [OF d'] d' show ?thesis by (auto simp: unlock_key_def)
qed

text \<open>
  An unlock succeeds on every drive that answers each packet at once with a method
  response of status zero, one poll per command being enough.
\<close>

theorem unlock_succeeds:
  fixes P :: "('d, 'err) secure_protocol"
  assumes "accepting P I" "device (drive_dev d) \<in> I" "\<not> is_eprise (drive_dev d)"
    and "unlock_key kdf (serial P d) pwd = (Ok key :: ('err error, _) outcome)" "length key = 32"
  shows "\<exists>d'. unlock P (Suc fuel) kdf pwd d = (Ok (), d') \<and> device (drive_dev d') \<in> I"
  using accepting_unlock [OF assms(1-3) assms(4) [unfolded serial_def] assms(5), of fuel]
  by (auto simp: unlock_def zoom_def)

theorem unlock_succeeds_witness:
  "\<exists>d'. unlock sync_drive (Suc 0) (\<lambda>p s n k. Some (replicate k 1)) (Password [1])
     \<lparr>drive_dev = \<lparr>device = (), com_id = 7, is_eprise = False, was_locked = True\<rparr>\<rparr> = (Ok (), d')"
  using unlock_succeeds [OF accepting_sync_drive, of "\<lparr>drive_dev = \<lparr>device = (), com_id = 7, is_eprise = False, was_locked = True\<rparr>\<rparr>"
      "\<lambda>p s n k. Some (replicate k 1)" "Password [1]" "replicate 32 1" 0]
  by (auto simp: unlock_key_def)

text \<open>
  C19: the unlock of an enterprise drive never succeeds, whatever the drive answers: after a
  session has been opened the code runs into \<^verbatim>\<open>unimplemented!()\<close>.
\<close>

theorem unlock_enterprise_never_ok:
  assumes "is_eprise (drive_dev d)"
  shows "fst (unlock P fuel kdf pwd d) \<noteq> Ok ()"
  using unlock_device_eprise [OF assms unlock_run, of P fuel kdf pwd]
  by (metis prod.collapse)

theorem unlock_enterprise_never_ok_witness:
  "fst (unlock sync_drive 5 (\<lambda>p s n k. None) (Raw (replicate 32 7))
     \<lparr>drive_dev = \<lparr>device = (), com_id = 7, is_eprise = True, was_locked = True\<rparr>\<rparr>) \<noteq> Ok ()"
  by (rule unlock_enterprise_never_ok) simp

end
