(* ===== verification/Transparent.thy ===== *)
theory Transparent imports Drive begin

text \<open>
  Drives that look alike. \<open>drive_morphism Q P ab\<close> says that the drive behind \<open>Q\<close>, seen through \<open>ab\<close>, is
  the one behind \<open>P\<close>: every method returns the same and leads to the state that \<open>P\<close> would lead to. Since
  sessions and drives talk to the device through the trait only, every operation of a session, and the
  unlock of a drive, runs over \<open>Q\<close> as over \<open>P\<close>. Two uses: tracing changes nothing (the log is what \<open>fst\<close>
  hides), so what the other theories prove of the log of a traced run is true of the packets of the
  program's own run; and a drive that conforms to a reference drive is unlocked as the reference is.
\<close>

locale drive_morphism =
  fixes Q :: "('c, 'err) secure_protocol" and P :: "('d, 'err) secure_protocol" and ab :: "'c \<Rightarrow> 'd"
  assumes same_send: "secure_send P pr cid buf (ab d) = (fst (secure_send Q pr cid buf d), ab (snd (secure_send Q pr cid buf d)))"
    and same_recv: "secure_recv P pr cid buf (ab d) = (fst (secure_recv Q pr cid buf d), ab (snd (secure_recv Q pr cid buf d)))"
    and same_reconnect: "reconnect_controller P (ab d) = (fst (reconnect_controller Q d), ab (snd (reconnect_controller Q d)))"
    and same_align: "align P (ab d) = align Q d"
    and same_serial: "serial_num P (ab d) = serial_num Q d"

text \<open>A device and a session as they are seen.\<close>

definition seen_device :: "('c \<Rightarrow> 'd) \<Rightarrow> 'c secure_device \<Rightarrow> 'd secure_device" where
  "seen_device ab dv = \<lparr>device = ab (device dv), com_id = com_id dv, is_eprise = is_eprise dv, was_locked = was_locked dv\<rparr>"

definition seen_session :: "('c \<Rightarrow> 'd) \<Rightarrow> 'c opal_session \<Rightarrow> 'd opal_session" where
  "seen_session ab s = \<lparr>session_device = seen_device ab (session_device s), tsn = tsn s, hsn = hsn s, protocol = protocol s\<rparr>"

definition seen_drive :: "('c \<Rightarrow> 'd) \<Rightarrow> 'c opal_drive \<Rightarrow> 'd opal_drive" where
  "seen_drive ab dr = \<lparr>drive_dev = seen_device ab (drive_dev dr)\<rparr>"

lemma seen_device_sel [simp]:
  "device (seen_device ab dv) = ab (device dv)" "com_id (seen_device ab dv) = com_id dv"
  "is_eprise (seen_device ab dv) = is_eprise dv" "was_locked (seen_device ab dv) = was_locked dv"
  by (simp_all add: seen_device_def)

lemma seen_session_sel [simp]:
  "session_device (seen_session ab s) = seen_device ab (session_device s)" "tsn (seen_session ab s) = tsn s"
  "hsn (seen_session ab s) = hsn s" "protocol (seen_session ab s) = protocol s"
  by (simp_all add: seen_session_def)

section \<open>Simulation\<close>

definition sim :: "('s \<Rightarrow> 't) \<Rightarrow> ('s, 'e, 'a) prog \<Rightarrow> ('t, 'e, 'a) prog \<Rightarrow> bool" where
  "sim er m' m \<longleftrightarrow> (\<forall>s. m (er s) = (fst (m' s), er (snd (m' s))))"

named_theorems sim_intros \<open>simulation of composed computations\<close>

lemma sim_pure [sim_intros]: "sim er (pure r) (pure r)"
  by (simp add: sim_def pure_def)

lemma sim_pbind [sim_intros]:
  "sim er m' m \<Longrightarrow> (\<And>a. sim er (f' a) (f a)) \<Longrightarrow> sim er (pbind m' f') (pbind m f)"
  by (auto simp: sim_def pbind_def split: prod.splits outcome.splits)

lemma sim_at: "sim er m' m \<Longrightarrow> m (er s) = (fst (m' s), er (snd (m' s)))"
  by (simp add: sim_def)

text \<open>\<open>start\<close> returns the session, which holds the device; its result is erased as well.\<close>

fun map_ok :: "('a \<Rightarrow> 'b) \<Rightarrow> ('e, 'a) outcome \<Rightarrow> ('e, 'b) outcome" where
  "map_ok f (Ok a) = Ok (f a)"
| "map_ok f (Err e) = Err e"
| "map_ok f (Halt h) = Halt h"

lemma drop_session_cases:
  "drop_session P fuel s =
     (case pbind (pure close_command) (send_raw_command P fuel) s of
        (r, s') \<Rightarrow> (case r of Halt h \<Rightarrow> Halt h | _ \<Rightarrow> Ok (), s'))"
  by (auto simp: drop_session_def split: prod.splits outcome.splits)

context drive_morphism
begin

lemma sim_send [sim_intros]:
  "sim (seen_session ab) (session_proto (secure_send Q pr cid buf)) (session_proto (secure_send P pr cid buf))"
  by (auto simp: sim_def pmap_err_def zoom_def seen_session_def seen_device_def same_send same_recv split: prod.splits)

lemma sim_recv [sim_intros]:
  "sim (seen_session ab) (session_proto (secure_recv Q pr cid buf)) (session_proto (secure_recv P pr cid buf))"
  by (auto simp: sim_def pmap_err_def zoom_def seen_session_def seen_device_def same_send same_recv split: prod.splits)

lemma sim_alloc [sim_intros]: "sim (seen_session ab) (session_alloc Q n) (session_alloc P n)"
  by (simp add: sim_def session_alloc_def pure_def same_align)

lemma sim_poll [sim_intros]: "sim (seen_session ab) (poll Q fuel pr cid buf) (poll P fuel pr cid buf)"
proof (induction fuel arbitrary: buf)
  case (Suc fuel)
  then show ?case unfolding poll.simps Let_def
    by (intro sim_pbind sim_recv) (simp add: sim_pure)
qed (simp add: sim_pure)

lemma sim_send_packet [sim_intros]:
  "sim (seen_session ab) (send_packet Q fuel pr cid h payl e) (send_packet P fuel pr cid h payl e)"
  unfolding send_packet_def receive_def Let_def by (auto intro!: sim_intros split: prod.splits)

lemma sim_send_raw_command [sim_intros]:
  "sim (seen_session ab) (send_raw_command Q fuel c) (send_raw_command P fuel c)"
  using sim_send_packet by (simp add: sim_def send_raw_command_def Let_def)

lemma sim_set_locking_range [sim_intros]:
  "sim (seen_session ab) (set_locking_range Q fuel n st) (set_locking_range P fuel n st)"
  unfolding set_locking_range_def by (intro sim_intros)

lemma sim_set_mbr_done [sim_intros]: "sim (seen_session ab) (set_mbr_done Q fuel b) (set_mbr_done P fuel b)"
  unfolding set_mbr_done_def set_locking_sp_value_def by (intro sim_intros)

lemma sim_drop_session [sim_intros]: "sim (seen_session ab) (drop_session Q fuel) (drop_session P fuel)"
proof -
  have "sim (seen_session ab) (pbind (pure close_command) (send_raw_command Q fuel))
      (pbind (pure close_command) (send_raw_command P fuel))"
    by (intro sim_intros)
  note run = sim_at [OF this]
  show ?thesis by (auto simp: sim_def drop_session_cases run split: prod.splits)
qed

lemma sim_start_exchange [sim_intros]:
  "sim (seen_session ab) (start_exchange Q fuel ch c) (start_exchange P fuel ch c)"
proof -
  have set: "sim (seen_session ab) (\<lambda>s. (Ok (), s\<lparr>hsn := v\<rparr>)) (\<lambda>s. (Ok (), s\<lparr>hsn := v\<rparr>))"
    "sim (seen_session ab) (\<lambda>s. (Ok (), s\<lparr>tsn := v\<rparr>)) (\<lambda>s. (Ok (), s\<lparr>tsn := v\<rparr>))" for v
    by (simp_all add: sim_def seen_session_def)
  have fin: "sim (seen_session ab)
      (\<lambda>s. case ch of Some c \<Rightarrow> (if is_eprise (session_device s) then (Panic, s) else (Ok (), s)) | None \<Rightarrow> (Ok (), s))
      (\<lambda>s. case ch of Some c \<Rightarrow> (if is_eprise (session_device s) then (Panic, s) else (Ok (), s)) | None \<Rightarrow> (Ok (), s))"
    by (simp add: sim_def split: option.splits)
  show ?thesis unfolding start_exchange_def by (intro sim_intros set fin)
qed

lemma sim_start_body [sim_intros]:
  "sim (seen_session ab) (start_body Q fuel sp authority ch) (start_body P fuel sp authority ch)"
proof -
  have "sim (seen_session ab) (pbind (pure c) (start_exchange Q fuel ch)) (pbind (pure c) (start_exchange P fuel ch))" for c
    by (intro sim_intros)
  then show ?thesis by (simp add: sim_def start_body_def)
qed

lemma sim_session_start:
  "session_start P fuel sp authority ch ((seen_device ab) dv) =
     (map_ok (seen_session ab) (fst (session_start Q fuel sp authority ch dv)),
      (seen_device ab) (snd (session_start Q fuel sp authority ch dv)))"
proof -
  let ?s = "\<lparr>session_device = dv, tsn = 0, hsn = 0, protocol = 0x01\<rparr>"
  have e: "\<lparr>session_device = (seen_device ab) dv, tsn = 0, hsn = 0, protocol = 0x01\<rparr> = (seen_session ab) ?s"
    by (simp add: seen_session_def)
  note body = sim_at [OF sim_start_body [of fuel sp authority ch], of ?s]
  note drop = sim_at [OF sim_drop_session [of fuel]]
  show ?thesis
    unfolding session_start_def e body
    by (auto simp: drop split: prod.splits outcome.splits)
qed

lemma sim_scoped:
  "scoped P fuel (unlock_body P fuel) ((seen_session ab) s) ((seen_device ab) dv) =
     (fst (scoped Q fuel (unlock_body Q fuel) s dv),
      (seen_device ab) (snd (scoped Q fuel (unlock_body Q fuel) s dv)))"
proof -
  have "sim (seen_session ab) (unlock_body Q fuel) (unlock_body P fuel)"
    unfolding unlock_body_def by (intro sim_intros)
  note body = sim_at [OF this]
  note drop = sim_at [OF sim_drop_session [of fuel]]
  show ?thesis unfolding scoped_def body by (auto simp: drop split: prod.splits outcome.splits)
qed

lemma sim_reconnect:
  "dev_reconnect_controller P ((seen_device ab) dv) =
     (fst (dev_reconnect_controller Q dv), (seen_device ab) (snd (dev_reconnect_controller Q dv)))"
  by (auto simp: dev_reconnect_controller_def pmap_err_def zoom_def same_reconnect seen_device_def split: prod.splits)

lemma sim_unlock_device:
  "unlock_device P fuel kdf pwd ((seen_device ab) dv) =
     (fst (unlock_device Q fuel kdf pwd dv), (seen_device ab) (snd (unlock_device Q fuel kdf pwd dv)))"
  by (auto simp: unlock_device_def pbind_def pure_def same_serial sim_session_start sim_scoped sim_reconnect
      split: prod.splits outcome.splits)

lemma sim_recv_info: "sim ab (recv_info Q) (recv_info P)"
proof -
  have "sim ab (pmap_err Io (secure_recv Q pr cid buf)) (pmap_err Io (secure_recv P pr cid buf))" for pr cid buf
    by (auto simp: sim_def pmap_err_def same_recv split: prod.splits)
  then have "sim ab
      (pbind (pure c) (\<lambda>buffer. pbind (pmap_err Io (secure_recv Q 1 1 buffer)) (\<lambda>buffer.
         pbind (pure (slice buffer 4 8)) (\<lambda>version.
         if version \<noteq> [0, 0, 0, 1] then pure (Err IncompatibleVersion) else pure (discovery_loop buffer 48 no_info)))))
      (pbind (pure c) (\<lambda>buffer. pbind (pmap_err Io (secure_recv P 1 1 buffer)) (\<lambda>buffer.
         pbind (pure (slice buffer 4 8)) (\<lambda>version.
         if version \<noteq> [0, 0, 0, 1] then pure (Err IncompatibleVersion) else pure (discovery_loop buffer 48 no_info)))))" for c
    by (auto intro!: sim_intros)
  then show ?thesis by (simp add: sim_def recv_info_def same_align)
qed

lemma open_seen:
  "opal_drive_new P (ab d) =
     (map_ok (seen_drive ab) (fst (opal_drive_new Q d)), ab (snd (opal_drive_new Q d)))"
  using sim_at [OF sim_recv_info, of d]
  by (auto simp: opal_drive_new_def secure_device_new_def pbind_def pure_def seen_drive_def seen_device_def
      split: prod.splits outcome.splits option.splits)

lemma unlock_seen:
  "unlock P fuel kdf pwd (seen_drive ab dr) =
     (fst (unlock Q fuel kdf pwd dr), seen_drive ab (snd (unlock Q fuel kdf pwd dr)))"
  by (auto simp: unlock_def zoom_def seen_drive_def sim_unlock_device split: prod.splits)

end

section \<open>Tracing\<close>

interpretation tracing: drive_morphism "traced P" P fst for P
  by unfold_locales (auto simp: traced_def split: prod.splits)

section \<open>Properties\<close>

text \<open>
  Unlocking a drive over the traced protocol returns what unlocking it over the protocol
  itself returns and leaves the device in the same state.
\<close>

theorem tracing_is_transparent:
  "unlock P fuel kdf pwd (seen_drive fst d) =
     (fst (unlock (traced P) fuel kdf pwd d), seen_drive fst (snd (unlock (traced P) fuel kdf pwd d)))"
  by (rule tracing.unlock_seen)

end
