(* ===== verification/Laws.thy ===== *)
theory Laws imports Transparent begin

text \<open>
  What every drive keeps through a session. \<open>command_invariant\<close> is the contract of a relation on
  the state of the device that every command keeps whose payload spells atoms and fits a packet;
  inside it, sessions and unlocks keep the relation, since they talk to the device in no other
  way. \<open>protocol_invariant\<close> is the stronger contract of a relation that the three methods of
  \<^verbatim>\<open>SecureProtocol\<close> keep, as long as they are called with security protocol 1 and one
  communication id. The laws of the interface give one such relation, the identity of the device
  (its serial number, which salts the password, and its alignment). The theories \<open>Nvme\<close> and
  \<open>Ata\<close> interpret the laws on the two devices of the program and the invariant on the commands
  their firmware is given, the theory \<open>Wire\<close> interprets the invariant of commands on the packets
  a drive is sent.
\<close>

section \<open>Relations on the device behind a session\<close>

text \<open>
  A relation lifted to devices and sessions that use a communication id; it keeps the id
  and the protocol.
\<close>

definition on_dev :: "u16 \<Rightarrow> ('d \<Rightarrow> 'd \<Rightarrow> bool) \<Rightarrow> 'd secure_device \<Rightarrow> 'd secure_device \<Rightarrow> bool" where
  "on_dev cid R dv dv' \<longleftrightarrow> (com_id dv = cid \<longrightarrow> com_id dv' = cid \<and> R (device dv) (device dv'))"

definition on_session :: "u16 \<Rightarrow> ('d \<Rightarrow> 'd \<Rightarrow> bool) \<Rightarrow> 'd opal_session \<Rightarrow> 'd opal_session \<Rightarrow> bool" where
  "on_session cid R s s' \<longleftrightarrow> (protocol s = 1 \<longrightarrow> protocol s' = 1 \<and> on_dev cid R (session_device s) (session_device s'))"

lemma on_dev_preorder:
  assumes "reflp R" "transp R"
  shows "reflp (on_dev cid R)" "transp (on_dev cid R)"
  using assms by (auto intro!: reflpI transpI simp: on_dev_def elim: reflpE transpE)

lemma on_session_preorder:
  assumes "reflp R" "transp R"
  shows "reflp (on_session cid R)" "transp (on_session cid R)"
  using reflpD [OF on_dev_preorder(1) [OF assms]] transpD [OF on_dev_preorder(2) [OF assms]]
  by (auto intro!: reflpI transpI simp: on_session_def)

section \<open>Relations that commands keep\<close>

locale command_invariant =
  fixes P :: "('d, 'err) secure_protocol" and cid :: u16 and R :: "'d \<Rightarrow> 'd \<Rightarrow> bool"
  assumes kept_refl: "reflp R" and kept_trans: "transp R"
    and kept_reconnect: "keeps R (reconnect_controller P)"
    and kept_command: "carries p as \<Longrightarrow> length p \<le> 4096 \<Longrightarrow> keeps (on_session cid R) (send_raw_command P fuel (packet_of p e))"
begin

lemmas dev_refl = on_dev_preorder(1) [OF kept_refl kept_trans]
lemmas dev_trans = transpD [OF on_dev_preorder(2) [OF kept_refl kept_trans]]
lemmas session_preorder = on_session_preorder [OF kept_refl kept_trans]

lemma keeps_call:
  assumes "carries args as" "bs8_wf obj" "bs8_wf meth" "length args \<le> 4000"
  shows "keeps (on_session cid R) (send_raw_command P fuel (packet_of (call_bytes obj meth args) True))"
  by (rule kept_command [OF call_carries [OF assms(1-3)] call_length [OF assms(2-4)]])

lemma keeps_drop_session: "keeps (on_session cid R) (drop_session P fuel)"
proof -
  have "carries [0xFA] [Ctl 0xFA]" by (rule carries_atom) (simp add: decode_atom_def)
  then have "keeps (on_session cid R) (pbind (pure close_command) (send_raw_command P fuel))"
    using kept_command by (simp add: close_command_eq)
  then show ?thesis
    by (auto simp: keeps_def drop_session_def split: prod.splits outcome.splits) (metis snd_conv)+
qed

lemma keeps_start_exchange:
  assumes "keeps (on_session cid R) (send_raw_command P fuel c)"
  shows "keeps (on_session cid R) (start_exchange P fuel ch c)"
proof -
  have "keeps (on_session cid R) (\<lambda>s. (r, s\<lparr>hsn := h\<rparr>))" "keeps (on_session cid R) (\<lambda>s. (r, s\<lparr>tsn := h\<rparr>))"
    "keeps (on_session cid R) (\<lambda>s. case ch of None \<Rightarrow> (Ok (), s)
       | Some y \<Rightarrow> if is_eprise (session_device s) then (Panic, s) else (Ok (), s))"
    for r :: "('b error, unit) outcome" and h
    using kept_refl by (auto simp: keeps_def on_session_def on_dev_def split: option.splits elim: reflpE)
  then show ?thesis unfolding start_exchange_def
    by (intro keeps_pbind session_preorder keeps_pure assms)
qed

lemma keeps_start_body: "keeps (on_session cid R) (start_body P fuel uid_OPAL_LOCKINGSP uid_OPAL_ADMIN1 (Some key))"
  unfolding keeps_def
proof
  fix s :: "'d opal_session"
  let ?e = "is_eprise (session_device s)"
  show "on_session cid R s (snd (start_body P fuel uid_OPAL_LOCKINGSP uid_OPAL_ADMIN1 (Some key) s))"
  proof (cases "?e \<or> length key < 2048")
    case True
    then obtain as where "carries (opening_args ?e key) as" using opening_args_carry by blast
    then have "keeps (on_session cid R) (start_exchange P fuel (Some key)
        (packet_of (call_bytes uid_OPAL_SMUID method_STARTSESSION (opening_args ?e key)) True))"
      using True by (intro keeps_start_exchange keeps_call opening_args_length) simp_all
    with True show ?thesis by (simp add: start_body_def opening_command_eq keeps_def)
  next
    case False
    then show ?thesis using reflpD [OF session_preorder(1)] by (simp add: start_body_def opening_command_eq pbind_def pure_def)
  qed
qed

lemma session_start_keeps:
  assumes "session_start P fuel uid_OPAL_LOCKINGSP uid_OPAL_ADMIN1 (Some key) dv = (r, dv')"
  shows "on_dev cid R dv dv' \<and> (\<forall>s. r = Ok s \<longrightarrow> dv' = session_device s \<and> protocol s = 1)"
proof -
  let ?s = "\<lparr>session_device = dv, tsn = 0, hsn = 0, protocol = 1\<rparr>"
  obtain r1 s1 where s1: "start_body P fuel uid_OPAL_LOCKINGSP uid_OPAL_ADMIN1 (Some key) ?s = (r1, s1)" by fastforce
  note body = keepsD [OF keeps_start_body s1]
  obtain r2 s2 where s2: "drop_session P fuel s1 = (r2, s2)" by fastforce
  note drop = keepsD [OF keeps_drop_session s2]
  show ?thesis
    using assms body drop s1 s2 by (auto simp: session_start_def on_session_def split: outcome.splits intro: dev_trans)
qed

lemma keeps_unlock_body: "keeps (on_session cid R) (unlock_body P fuel)"
proof -
  have "length (set_args (state_columns ReadWrite)) \<le> 4000" by (simp add: set_args_def state_columns_def)
  then have "keeps (on_session cid R) (set_locking_range P fuel 0 ReadWrite)"
    unfolding set_locking_range_def locking_range_command_eq
    by (simp add: keeps_pbind session_preorder keeps_pure keeps_call [OF set_args_carry]
        state_columns_tiny locking_range_uid_wf)
  moreover have mbr: "keeps (on_session cid R) (send_raw_command P fuel (packet_of (call_bytes uid_OPAL_MBRCONTROL
      method_SET (set_args [(token token_MBRDONE, token (simple_token_of_bool True))])) True))"
    by (rule keeps_call [OF set_args_carry]) (simp_all add: set_args_def simple_token_of_bool_def token_MBRDONE_def token_OPAL_TRUE_def)
  then have "keeps (on_session cid R) (set_mbr_done P fuel True)"
    unfolding set_mbr_done_def set_locking_sp_value_def set_value_command_eq
    by (simp add: keeps_pbind session_preorder keeps_pure mbr)
  ultimately show ?thesis unfolding unlock_body_def by (intro keeps_pbind session_preorder)
qed

lemma scoped_keeps:
  assumes "scoped P fuel (unlock_body P fuel) s dv = (r, dv')" "protocol s = 1"
  shows "on_dev cid R (session_device s) dv'"
proof -
  obtain r1 s1 where s1: "unlock_body P fuel s = (r1, s1)" by fastforce
  note body = keepsD [OF keeps_unlock_body s1]
  obtain r2 s2 where s2: "drop_session P fuel s1 = (r2, s2)" by fastforce
  note drop = keepsD [OF keeps_drop_session s2]
  show ?thesis
    using assms body drop s1 s2 by (auto simp: scoped_def on_session_def split: outcome.splits intro: dev_trans)
qed

lemma keeps_dev_reconnect: "keeps (on_dev cid R) (dev_reconnect_controller P)"
  using kept_reconnect
  by (auto simp: dev_reconnect_controller_def keeps_def on_dev_def pmap_err_def zoom_def split: prod.splits) (metis snd_conv)

lemma unlock_device_keeps:
  assumes run: "unlock_device P fuel kdf pwd dv = (r, dv')" and cid: "com_id dv = cid"
  shows "R (device dv) (device dv')"
proof -
  have "on_dev cid R dv dv'"
    using run reflpD [OF dev_refl] unfolding unlock_device_def
    by (auto simp: pure_def elim!: pbind_cases dest!: session_start_keeps scoped_keeps
        keepsD [OF keeps_dev_reconnect] intro: dev_trans)
  then show ?thesis using cid by (simp add: on_dev_def)
qed

lemma unlock_keeps:
  "unlock P fuel kdf pwd d = (r, d') \<Longrightarrow> com_id (drive_dev d) = cid \<Longrightarrow> R (device (drive_dev d)) (device (drive_dev d'))"
  by (auto simp: unlock_def zoom_def split: prod.splits dest: unlock_device_keeps)

end

section \<open>Relations that the device's methods keep\<close>

locale protocol_invariant =
  fixes P :: "('d, 'err) secure_protocol" and cid :: u16 and R :: "'d \<Rightarrow> 'd \<Rightarrow> bool"
  assumes R_refl: "reflp R" and R_trans: "transp R"
    and keeps_send: "keeps R (secure_send P 1 cid buf)"
    and keeps_recv: "keeps R (secure_recv P 1 cid buf)"
    and keeps_reconnect: "keeps R (reconnect_controller P)"
begin

lemmas preorder = on_session_preorder [OF R_refl R_trans]

lemma keeps_proto_R: "keeps R m \<Longrightarrow> keeps (on_session cid R) (session_proto m)"
  by (auto simp: keeps_def on_session_def on_dev_def pmap_err_def zoom_def split: prod.splits) (metis snd_conv)

lemma keeps_receive_R: "keeps (on_session cid R) (receive P fuel 1 cid e)"
  by (intro keeps_receive preorder keeps_proto_R keeps_recv)

lemma keeps_send_packet: "keeps (on_session cid R) (send_packet P fuel 1 cid h payl e)"
  unfolding send_packet_def Let_def
  by (intro keeps_pbind preorder keeps_session_alloc keeps_proto_R keeps_send keeps_receive_R)

lemma keeps_send_raw_command: "keeps (on_session cid R) (send_raw_command P fuel (packet_of p e))"
  unfolding keeps_def
proof
  fix s
  show "on_session cid R s (snd (send_raw_command P fuel (packet_of p e) s))"
  proof (cases "protocol s = 1 \<and> com_id (session_device s) = cid")
    case True
    then show ?thesis
      using keeps_send_packet unfolding keeps_def send_raw_command_def Let_def by metis
  next
    case False
    obtain r t where t: "send_raw_command P fuel (packet_of p e) s = (r, t)" by fastforce
    with False send_same_session [OF t] show ?thesis by (auto simp: on_session_def on_dev_def same_session_simps)
  qed
qed

end

text \<open>What the methods keep, the commands keep.\<close>

sublocale protocol_invariant \<subseteq> command_invariant P cid R
  by unfold_locales (rule R_refl R_trans keeps_reconnect keeps_send_raw_command)+

context protocol_invariant
begin

lemmas methods_keep_unlock = unlock_keeps

end

section \<open>Identity\<close>

definition same_identity :: "('d, 'err) secure_protocol \<Rightarrow> 'd \<Rightarrow> 'd \<Rightarrow> bool" where
  "same_identity P d d' \<longleftrightarrow> align P d' = align P d \<and> serial_num P d' = serial_num P d"

sublocale protocol_laws \<subseteq> identity: protocol_invariant P cid "same_identity P" for cid
proof
  show "keeps (same_identity P) (secure_send P 1 cid buf)" for buf
    unfolding keeps_def same_identity_def by (metis align_send serial_send surjective_pairing)
  show "keeps (same_identity P) (secure_recv P 1 cid buf)" for buf
    unfolding keeps_def same_identity_def by (metis align_recv serial_recv surjective_pairing)
  show "keeps (same_identity P) (reconnect_controller P)"
    unfolding keeps_def same_identity_def by (metis align_reconnect serial_reconnect surjective_pairing)
qed (auto intro!: reflpI transpI simp: same_identity_def)

context protocol_laws
begin

lemma unlock_identity:
  "unlock P fuel kdf pwd d = (r, d') \<Longrightarrow> same_identity P (device (drive_dev d)) (device (drive_dev d'))"
  using identity.unlock_keeps by blast

lemma poll_length:
  "poll P fuel pr cid buf s = (Ok (h, b), s') \<Longrightarrow> length b = length buf"
proof (induction fuel arbitrary: buf s)
  case (Suc fuel)
  then show ?case
    by (auto simp: ok_iff Let_def zoom_Ok_iff split: if_splits dest!: recv_length)
qed (simp add: ok_iff)

end

end
