(* ===== verification/Nvme.thy ===== *)
theory Nvme imports Uefi Laws begin

text \<open>
  NVMe drives: the pass-thru protocol of \<^verbatim>\<open>src/low_level/nvme_passthru.rs\<close> and the device of
  \<^verbatim>\<open>src/low_level/nvme_device.rs\<close>, which offers it as a \<^verbatim>\<open>SecureProtocol\<close>. The firmware's
  \<^verbatim>\<open>PassThru\<close> and \<^verbatim>\<open>GetNextNamespace\<close> are parameters. The device keeps the laws of the
  interface that the sessions rely on.
\<close>

section \<open>Commands\<close>

datatype namespace_id = NamespaceId (ns_u32: u32)

datatype send_target = Controller | Namespace namespace_id | AllNamespaces

datatype queue_type = QueueType u8

definition QUEUE_ADMIN :: queue_type where "QUEUE_ADMIN = QueueType 0"
definition QUEUE_IO :: queue_type where "QUEUE_IO = QueueType 1"

definition NVME_GENERIC_TIMEOUT :: u64 where "NVME_GENERIC_TIMEOUT = 5000000"

definition CDW_2 :: u8 where "CDW_2 = 0x01"
definition CDW_3 :: u8 where "CDW_3 = 0x02"
definition CDW_10 :: u8 where "CDW_10 = 0x04"
definition CDW_11 :: u8 where "CDW_11 = 0x08"
definition CDW_12 :: u8 where "CDW_12 = 0x10"
definition CDW_13 :: u8 where "CDW_13 = 0x20"
definition CDW_14 :: u8 where "CDW_14 = 0x40"
definition CDW_15 :: u8 where "CDW_15 = 0x80"

lemmas cdw_flag_defs = CDW_2_def CDW_3_def CDW_10_def CDW_11_def CDW_12_def CDW_13_def CDW_14_def CDW_15_def

record cdw0 =
  opcode :: u8
  fused :: u8
  cdw0_res1 :: u8
  cdw0_res2 :: u8

record nvme_command =
  cdw_0 :: cdw0
  cdw_flags :: u8
  nsid :: u32
  cdw_2 :: u32
  cdw_3 :: u32
  cdw_10 :: u32
  cdw_11 :: u32
  cdw_12 :: u32
  cdw_13 :: u32
  cdw_14 :: u32
  cdw_15 :: u32

definition nvme_command_new :: "u8 \<Rightarrow> nvme_command" where
  "nvme_command_new opc =
     \<lparr>cdw_0 = \<lparr>opcode = opc, fused = 0, cdw0_res1 = 0, cdw0_res2 = 0\<rparr>, cdw_flags = 0, nsid = 0, cdw_2 = 0,
      cdw_3 = 0, cdw_10 = 0, cdw_11 = 0, cdw_12 = 0, cdw_13 = 0, cdw_14 = 0, cdw_15 = 0\<rparr>"

definition fused_first :: "nvme_command \<Rightarrow> nvme_command" where
  "fused_first c = c\<lparr>cdw_0 := (cdw_0 c)\<lparr>fused := fused (cdw_0 c) OR 0b10000000\<rparr>\<rparr>"

definition fused_second :: "nvme_command \<Rightarrow> nvme_command" where
  "fused_second c = c\<lparr>cdw_0 := (cdw_0 c)\<lparr>fused := fused (cdw_0 c) OR 0b01000000\<rparr>\<rparr>"

definition command_ns :: "namespace_id \<Rightarrow> nvme_command \<Rightarrow> nvme_command" where
  "command_ns n c = c\<lparr>nsid := ns_u32 n\<rparr>"

text \<open>The setters the macro \<^verbatim>\<open>cdws!\<close> generates: a command word and its validity flag.\<close>

definition with_cdw_2 :: "u32 \<Rightarrow> nvme_command \<Rightarrow> nvme_command" where
  "with_cdw_2 w c = c\<lparr>cdw_2 := w, cdw_flags := cdw_flags c OR CDW_2\<rparr>"
definition with_cdw_3 :: "u32 \<Rightarrow> nvme_command \<Rightarrow> nvme_command" where
  "with_cdw_3 w c = c\<lparr>cdw_3 := w, cdw_flags := cdw_flags c OR CDW_3\<rparr>"
definition with_cdw_10 :: "u32 \<Rightarrow> nvme_command \<Rightarrow> nvme_command" where
  "with_cdw_10 w c = c\<lparr>cdw_10 := w, cdw_flags := cdw_flags c OR CDW_10\<rparr>"
definition with_cdw_11 :: "u32 \<Rightarrow> nvme_command \<Rightarrow> nvme_command" where
  "with_cdw_11 w c = c\<lparr>cdw_11 := w, cdw_flags := cdw_flags c OR CDW_11\<rparr>"
definition with_cdw_12 :: "u32 \<Rightarrow> nvme_command \<Rightarrow> nvme_command" where
  "with_cdw_12 w c = c\<lparr>cdw_12 := w, cdw_flags := cdw_flags c OR CDW_12\<rparr>"
definition with_cdw_13 :: "u32 \<Rightarrow> nvme_command \<Rightarrow> nvme_command" where
  "with_cdw_13 w c = c\<lparr>cdw_13 := w, cdw_flags := cdw_flags c OR CDW_13\<rparr>"
definition with_cdw_14 :: "u32 \<Rightarrow> nvme_command \<Rightarrow> nvme_command" where
  "with_cdw_14 w c = c\<lparr>cdw_14 := w, cdw_flags := cdw_flags c OR CDW_14\<rparr>"
definition with_cdw_15 :: "u32 \<Rightarrow> nvme_command \<Rightarrow> nvme_command" where
  "with_cdw_15 w c = c\<lparr>cdw_15 := w, cdw_flags := cdw_flags c OR CDW_15\<rparr>"

lemmas with_cdw_defs = with_cdw_2_def with_cdw_3_def with_cdw_10_def with_cdw_11_def with_cdw_12_def
  with_cdw_13_def with_cdw_14_def with_cdw_15_def

text \<open>
  A buffer is its contents; a null pointer is \<open>None\<close>. The completion entry, which the firmware
  fills in and nobody reads, is not modelled.
\<close>

record nvme_packet =
  nvme_timeout :: u64
  transfer_buffer :: "u8 list option"
  transfer_length :: u32
  metadata_buffer :: "u8 list option"
  metadata_length :: u32
  packet_queue :: queue_type
  packet_cmd :: nvme_command

definition nvme_packet_new ::
  "u64 \<Rightarrow> u8 list option \<Rightarrow> u8 list option \<Rightarrow> queue_type \<Rightarrow> nvme_command \<Rightarrow> nvme_packet" where
  "nvme_packet_new timeout tb mb q c =
     \<lparr>nvme_timeout = timeout, transfer_buffer = tb,
      transfer_length = (case tb of Some b \<Rightarrow> word_of_nat (length b) | None \<Rightarrow> 0),
      metadata_buffer = mb,
      metadata_length = (case mb of Some b \<Rightarrow> word_of_nat (length b) | None \<Rightarrow> 0),
      packet_queue = q, packet_cmd = c\<rparr>"

section \<open>The pass-thru protocol\<close>

datatype nvme_version = Version (version_data: "u8 list")

definition version_major :: "nvme_version \<Rightarrow> u16" where
  "version_major v = (push_bit 8 (ucast (version_data v ! 0)) OR ucast (version_data v ! 1))"
definition version_minor :: "nvme_version \<Rightarrow> u8" where "version_minor v = version_data v ! 2"
definition version_tertiary :: "nvme_version \<Rightarrow> u8" where "version_tertiary v = version_data v ! 3"

text \<open>The numbers that the two formatters of a version print.\<close>

definition version_debug :: "nvme_version \<Rightarrow> nat \<times> nat \<times> nat" where
  "version_debug v = (unat (version_major v), unat (version_major v), unat (version_tertiary v))"
definition version_display :: "nvme_version \<Rightarrow> nat \<times> nat \<times> nat" where
  "version_display v = (unat (version_major v), unat (version_minor v), unat (version_tertiary v))"

record nvme_mode =
  nvme_attributes :: u32
  nvme_io_align :: u32
  nvme_mode_version :: nvme_version

text \<open>
  \<open>pass_thru\<close> takes the namespace and the packet and returns the status and the bytes the
  controller has transferred into the packet's buffer.
\<close>

record 'd nvme_express_passthru =
  np_mode :: nvme_mode
  np_pass_thru :: "u32 \<Rightarrow> nvme_packet \<Rightarrow> 'd \<Rightarrow> status \<times> u8 list \<times> 'd"
  np_get_next_namespace :: "u32 \<Rightarrow> 'd \<Rightarrow> status \<times> u32 \<times> 'd"
  np_build_device_path :: "u32 \<Rightarrow> 'd \<Rightarrow> status \<times> device_path option \<times> 'd"
  np_get_namespace :: "device_path \<Rightarrow> 'd \<Rightarrow> status \<times> u32 \<times> 'd"

fun target_id :: "send_target \<Rightarrow> u32" where
  "target_id Controller = 0"
| "target_id (Namespace n) = ns_u32 n"
| "target_id AllNamespaces = 0xFFFFFFFF"

text \<open>\<open>send_async\<close> without an event returns what the transfer buffer holds afterwards.\<close>

definition send_async :: "'d nvme_express_passthru \<Rightarrow> send_target \<Rightarrow> nvme_packet \<Rightarrow> ('d, status, u8 list) prog" where
  "send_async N target p d =
     (case np_pass_thru N (target_id target) p d of (s, out, d') \<Rightarrow>
        (to_result s (landed (case transfer_buffer p of Some b \<Rightarrow> b | None \<Rightarrow> []) out), d'))"

definition nvme_send :: "'d nvme_express_passthru \<Rightarrow> send_target \<Rightarrow> nvme_packet \<Rightarrow> ('d, status, u8 list) prog" where
  "nvme_send N target p = send_async N target p"

definition first_namespace :: "'d nvme_express_passthru \<Rightarrow> ('d, status, namespace_id) prog" where
  "first_namespace N d =
     (case np_get_next_namespace N 0xFFFFFFFF d of (s, n, d') \<Rightarrow> (to_result s (NamespaceId n), d'))"

text \<open>The fuel bounds the number of namespaces the controller enumerates.\<close>

fun list_namespaces_loop ::
  "'d nvme_express_passthru \<Rightarrow> nat \<Rightarrow> u32 \<Rightarrow> namespace_id list \<Rightarrow> ('d, status, namespace_id list) prog" where
  "list_namespaces_loop N 0 n acc d = (Halt OutOfFuel, d)"
| "list_namespaces_loop N (Suc fuel) n acc d =
     (case np_get_next_namespace N n d of (s, n', d') \<Rightarrow>
        if s = STATUS_SUCCESS then list_namespaces_loop N fuel n' (acc @ [NamespaceId n']) d'
        else if s = STATUS_NOT_FOUND then (Ok acc, d')
        else (Err s, d'))"

definition list_namespaces :: "'d nvme_express_passthru \<Rightarrow> nat \<Rightarrow> ('d, status, namespace_id list) prog" where
  "list_namespaces N fuel = list_namespaces_loop N fuel 0xFFFFFFFF []"

text \<open>A null device path panics, if the firmware reports success.\<close>

definition nvme_build_device_path :: "'d nvme_express_passthru \<Rightarrow> namespace_id \<Rightarrow> ('d, status, device_path) prog" where
  "nvme_build_device_path N n d =
     (case np_build_device_path N (ns_u32 n) d of (s, path, d') \<Rightarrow>
        (obind (to_result s ()) (\<lambda>_. case path of Some p \<Rightarrow> Ok p | None \<Rightarrow> Panic), d'))"

definition nvme_get_namespace :: "'d nvme_express_passthru \<Rightarrow> device_path \<Rightarrow> ('d, status, namespace_id) prog" where
  "nvme_get_namespace N path d =
     (case np_get_namespace N path d of (s, n, d') \<Rightarrow> (to_result s (NamespaceId n), d'))"

section \<open>The device\<close>

record 'd nvme_device =
  nvme_fw :: 'd
  nvme_align :: nat
  nvme_serial :: "u8 list"

definition recv_serial_num :: "'d nvme_express_passthru \<Rightarrow> u8 list \<Rightarrow> ('d, status, u8 list) prog" where
  "recv_serial_num N mem =
     pbind (pure (alloc_uninit_aligned mem 4096 (unat (nvme_io_align (np_mode N))))) (\<lambda>buf.
     let command = with_cdw_10 1 (nvme_command_new 0x06);
         p = nvme_packet_new NVME_GENERIC_TIMEOUT (Some buf) None QUEUE_ADMIN command
     in pbind (nvme_send N Controller p) (\<lambda>buf. pure (Ok (take 20 (drop 4 buf)))))"

definition nvme_device_new :: "'d nvme_express_passthru \<Rightarrow> u8 list \<Rightarrow> ('d, status, 'd nvme_device) prog" where
  "nvme_device_new N mem =
     pbind (recv_serial_num N mem) (\<lambda>sn d.
     (Ok \<lparr>nvme_fw = d, nvme_align = unat (nvme_io_align (np_mode N)), nvme_serial = sn\<rparr>, d))"

datatype direction = Send | Recv

fun direction_u8 :: "direction \<Rightarrow> u8" where
  "direction_u8 Send = 0x81"
| "direction_u8 Recv = 0x82"

definition secure_command :: "direction \<Rightarrow> u8 \<Rightarrow> u16 \<Rightarrow> u8 list \<Rightarrow> nvme_command" where
  "secure_command dir pr cid buf =
     with_cdw_11 (word_of_nat (length buf))
       (with_cdw_10 (push_bit 24 (ucast pr) OR push_bit 8 (ucast cid)) (nvme_command_new (direction_u8 dir)))"

definition nvme_secure_protocol ::
  "'d nvme_express_passthru \<Rightarrow> direction \<Rightarrow> u8 \<Rightarrow> u16 \<Rightarrow> u8 list \<Rightarrow> ('d, status, u8 list) prog" where
  "nvme_secure_protocol N dir pr cid buf =
     nvme_send N Controller
       (nvme_packet_new NVME_GENERIC_TIMEOUT (Some buf) None QUEUE_ADMIN (secure_command dir pr cid buf))"

record 'd restartable_nvme_device =
  res_dev :: "'d nvme_device"
  res_handle :: nat

definition restartable_new :: "'d nvme_device \<Rightarrow> nat \<Rightarrow> 'd restartable_nvme_device" where
  "restartable_new dv h = \<lparr>res_dev = dv, res_handle = h\<rparr>"

abbreviation on_nvme :: "('d, 'e, 'a) prog \<Rightarrow> ('d restartable_nvme_device, 'e, 'a) prog" where
  "on_nvme \<equiv> zoom (\<lambda>s. nvme_fw (res_dev s)) (\<lambda>d s. s\<lparr>res_dev := (res_dev s)\<lparr>nvme_fw := d\<rparr>\<rparr>)"

definition nvme_protocol ::
  "'d nvme_express_passthru \<Rightarrow> 'd boot_services \<Rightarrow> ('d restartable_nvme_device, uefi_error) secure_protocol" where
  "nvme_protocol N bs =
     \<lparr>secure_send = (\<lambda>pr cid buf. pbind (pmap_err UefiError (on_nvme (nvme_secure_protocol N Send pr cid buf)))
        (\<lambda>_. pure (Ok ()))),
      secure_recv = (\<lambda>pr cid buf. pmap_err UefiError (on_nvme (nvme_secure_protocol N Recv pr cid buf))),
      reconnect_controller = (\<lambda>s. on_nvme (uefi_reconnect bs (res_handle s)) s),
      align = (\<lambda>s. nvme_align (res_dev s)),
      serial_num = (\<lambda>s. nvme_serial (res_dev s))\<rparr>"

section \<open>The commands\<close>

lemma secure_command_flags:
  "cdw_flags (secure_command dir pr cid buf) = CDW_10 OR CDW_11"
  "cdw_11 (secure_command dir pr cid buf) = word_of_nat (length buf)"
  "cdw_10 (secure_command dir pr cid buf) = push_bit 24 (ucast pr) OR push_bit 8 (ucast cid)"
  "cdw_0 (secure_command dir pr cid buf) = \<lparr>opcode = direction_u8 dir, fused = 0, cdw0_res1 = 0, cdw0_res2 = 0\<rparr>"
  "nsid (secure_command dir pr cid buf) = 0"
  by (simp_all add: secure_command_def with_cdw_defs nvme_command_new_def cdw_flag_defs)

lemma unat_push_word:
  assumes "unat (w :: 'a::len word) * 2 ^ k < 2 ^ LENGTH('b::len)"
  shows "unat (push_bit k (ucast w) :: 'b word) = unat w * 2 ^ k"
proof -
  have "push_bit k (ucast w) = (word_of_nat (unat w * 2 ^ k) :: 'b word)"
    by (simp add: push_bit_eq_mult)
  then show ?thesis
    using assms by (simp only: unsigned_of_nat take_bit_nat_eq_self of_nat_id)
qed

text \<open>The word that names security protocol and communication id.\<close>

lemma secure_word:
  "unat (push_bit 24 (ucast (pr :: u8)) OR push_bit 8 (ucast (cid :: u16)) :: u32) = unat pr * 2 ^ 24 + unat cid * 2 ^ 8"
proof -
  have c: "unat cid < 2 ^ 16" using unsigned_less [of cid] by simp
  have p: "unat pr < 2 ^ 8" using unsigned_less [of pr] by simp
  have "unat (push_bit 24 (ucast pr) :: u32) = push_bit 24 (unat pr)"
    "unat (push_bit 8 (ucast cid) :: u32) = unat cid * 2 ^ 8"
    using p c by (subst unat_push_word; simp add: push_bit_eq_mult)+
  then show ?thesis
    using push_bit_or_nat [of "unat cid * 2 ^ 8" 24 "unat pr"] c by (simp add: unsigned_or_eq)
qed

lemma nvme_send_Controller:
  "nvme_send N Controller p d =
     (case np_pass_thru N 0 p d of (s, out, d') \<Rightarrow>
        (to_result s (landed (case transfer_buffer p of Some b \<Rightarrow> b | None \<Rightarrow> []) out), d'))"
  by (simp add: nvme_send_def send_async_def)

lemma nvme_send_length:
  "nvme_send N t p d = (Ok b, d') \<Longrightarrow> length b = length (case transfer_buffer p of Some b \<Rightarrow> b | None \<Rightarrow> [])"
  by (auto simp: nvme_send_def send_async_def split: prod.splits option.splits)

section \<open>The laws\<close>

lemma nvme_secure_length:
  "nvme_secure_protocol N dir pr cid buf d = (Ok b, d') \<Longrightarrow> length b = length buf"
  by (auto simp: nvme_secure_protocol_def nvme_packet_new_def dest: nvme_send_length)

interpretation nvme: protocol_laws "nvme_protocol N bs" for N bs
  by unfold_locales
    (auto simp: nvme_protocol_def pmap_err_def zoom_def pbind_def pure_def ok_iff
      dest: nvme_secure_length split: prod.splits outcome.splits)

section \<open>A firmware with a log\<close>

text \<open>
  The firmware with a log of the commands it is given.
\<close>

definition logged_passthru ::
  "'d nvme_express_passthru \<Rightarrow> ('d \<times> (u32 \<times> nvme_packet) list) nvme_express_passthru" where
  "logged_passthru N =
     \<lparr>np_mode = np_mode N,
      np_pass_thru = (\<lambda>n p (d, l). case np_pass_thru N n p d of (s, out, d') \<Rightarrow> (s, out, d', l @ [(n, p)])),
      np_get_next_namespace = (\<lambda>n (d, l). case np_get_next_namespace N n d of (s, n', d') \<Rightarrow> (s, n', d', l)),
      np_build_device_path = (\<lambda>n (d, l). case np_build_device_path N n d of (s, p, d') \<Rightarrow> (s, p, d', l)),
      np_get_namespace = (\<lambda>p (d, l). case np_get_namespace N p d of (s, n, d') \<Rightarrow> (s, n, d', l))\<rparr>"

definition nvme_log :: "('d \<times> (u32 \<times> nvme_packet) list) restartable_nvme_device \<Rightarrow> (u32 \<times> nvme_packet) list" where
  "nvme_log s = snd (nvme_fw (res_dev s))"

text \<open>
  A Security Send or Security Receive of the NVMe specification for security protocol 1: an
  admin command to the controller, bytes 31 to 24 of word 10 the protocol, bytes 23 to 8 the
  communication id, word 11 the length of the buffer that goes with it.
\<close>

definition security_command :: "u16 \<Rightarrow> u32 \<times> nvme_packet \<Rightarrow> bool" where
  "security_command cid = (\<lambda>(n, p).
     n = 0 \<and> packet_queue p = QUEUE_ADMIN \<and> opcode (cdw_0 (packet_cmd p)) \<in> {0x81, 0x82} \<and>
     fused (cdw_0 (packet_cmd p)) = 0 \<and> cdw_flags (packet_cmd p) = CDW_10 OR CDW_11 \<and>
     unat (cdw_10 (packet_cmd p)) = 1 * 2 ^ 24 + unat cid * 2 ^ 8 \<and>
     (\<exists>b. transfer_buffer p = Some b \<and> cdw_11 (packet_cmd p) = word_of_nat (length b) \<and>
        transfer_length p = word_of_nat (length b)) \<and> metadata_buffer p = None)"

definition only_security ::
  "u16 \<Rightarrow> ('d \<times> (u32 \<times> nvme_packet) list) restartable_nvme_device \<Rightarrow>
   ('d \<times> (u32 \<times> nvme_packet) list) restartable_nvme_device \<Rightarrow> bool" where
  "only_security cid s s' \<longleftrightarrow> (\<exists>cs. nvme_log s' = nvme_log s @ cs \<and> (\<forall>c\<in>set cs. security_command cid c))"

lemma secure_packet_command:
  "security_command cid (0, nvme_packet_new NVME_GENERIC_TIMEOUT (Some buf) None QUEUE_ADMIN (secure_command dir 1 cid buf))"
  using secure_word [of 1 cid]
  by (cases dir) (simp_all add: security_command_def nvme_packet_new_def secure_command_flags)

lemma on_nvme_secure_log:
  "keeps (only_security cid) (on_nvme (nvme_secure_protocol (logged_passthru N) dir 1 cid buf))"
proof -
  let ?p = "nvme_packet_new NVME_GENERIC_TIMEOUT (Some buf) None QUEUE_ADMIN (secure_command dir 1 cid buf)"
  have "\<exists>out. nvme_log (snd (on_nvme (nvme_secure_protocol (logged_passthru N) dir 1 cid buf) s)) = nvme_log s @ [(0, ?p)]" for s
    by (auto simp: zoom_def nvme_secure_protocol_def nvme_send_Controller logged_passthru_def nvme_log_def split: prod.splits)
  then show ?thesis
    using secure_packet_command by (fastforce simp: keeps_def only_security_def)
qed

lemma reconnect_log: "keeps (only_security cid) (\<lambda>s. on_nvme (uefi_reconnect (logged_services bs) (res_handle s)) s)"
  by (simp add: keeps_def only_security_def nvme_log_def zoom_def case_prod_unfold uefi_reconnect_log)

lemma only_security_preorder: "reflp (only_security cid)" "transp (only_security cid)"
  by (auto intro!: reflpI transpI simp: only_security_def)

interpretation nvme_commands: protocol_invariant "nvme_protocol (logged_passthru N) (logged_services bs)" cid "only_security cid"
  for N bs cid
proof
  show "reflp (only_security cid)" "transp (only_security cid)" by (rule only_security_preorder)+
  show "keeps (only_security cid) (secure_send (nvme_protocol (logged_passthru N) (logged_services bs)) 1 cid buf)" for buf
    unfolding nvme_protocol_def secure_protocol.simps
    by (intro keeps_pbind keeps_pure keeps_pmap_err only_security_preorder on_nvme_secure_log)
  show "keeps (only_security cid) (secure_recv (nvme_protocol (logged_passthru N) (logged_services bs)) 1 cid buf)" for buf
    unfolding nvme_protocol_def secure_protocol.simps
    by (intro keeps_pmap_err on_nvme_secure_log)
  show "keeps (only_security cid) (reconnect_controller (nvme_protocol (logged_passthru N) (logged_services bs)))"
    unfolding nvme_protocol_def secure_protocol.simps by (rule reconnect_log)
qed

section \<open>Properties\<close>

text \<open>
  C13: an unlock of an NVMe drive, however it ends, gives the firmware no command but Security
  Send and Security Receive of security protocol 1, to the controller, for the communication
  id the drive was opened with, with the length of the buffer in word 11.
\<close>

theorem nvme_unlock_commands:
  assumes "unlock (nvme_protocol (logged_passthru N) (logged_services bs)) fuel kdf pwd d = (r, d')"
  shows "\<exists>cs. nvme_log (device (drive_dev d')) = nvme_log (device (drive_dev d)) @ cs \<and>
    (\<forall>c\<in>set cs. security_command (com_id (drive_dev d)) c)"
  using nvme_commands.unlock_keeps [OF assms refl] by (simp add: only_security_def)

text \<open>
  An unlock of an NVMe drive, however it ends, keeps the serial number that salts the
  password, and the alignment.
\<close>

theorem nvme_unlock_identity:
  assumes "unlock (nvme_protocol N bs) fuel kdf pwd d = (r, d')"
  shows "nvme_serial (res_dev (device (drive_dev d'))) = nvme_serial (res_dev (device (drive_dev d))) \<and>
    nvme_align (res_dev (device (drive_dev d'))) = nvme_align (res_dev (device (drive_dev d)))"
  using nvme.unlock_identity [OF assms] by (simp add: same_identity_def nvme_protocol_def)

text \<open>
  C39: opening an NVMe device asks the controller to identify itself and takes the bytes 4 to
  23 of the answer for the serial number.
\<close>

theorem nvme_serial_number:
  assumes "layout_ok 4096 (unat (nvme_io_align (np_mode N)))"
    and "\<And>p. opcode (cdw_0 (packet_cmd p)) = 6 \<Longrightarrow> cdw_10 (packet_cmd p) = 1 \<Longrightarrow> transfer_length p = 4096 \<Longrightarrow>
      np_pass_thru N 0 p d = (STATUS_SUCCESS, identify, d')"
    and "24 \<le> length identify"
  shows "\<exists>dv. nvme_device_new N mem d = (Ok dv, d') \<and> nvme_serial dv = take 20 (drop 4 identify) \<and>
    length (nvme_serial dv) = 20 \<and> nvme_align dv = unat (nvme_io_align (np_mode N))"
proof -
  obtain buf where buf: "alloc_uninit_aligned mem 4096 (unat (nvme_io_align (np_mode N))) = (Ok buf :: (status, _) outcome)"
    using assms(1) by (simp add: alloc_uninit_aligned_def)
  then have len: "length buf = 4096" by (rule length_alloc_uninit)
  let ?p = "nvme_packet_new NVME_GENERIC_TIMEOUT (Some buf) None QUEUE_ADMIN (with_cdw_10 1 (nvme_command_new 6))"
  have run: "np_pass_thru N 0 ?p d = (STATUS_SUCCESS, identify, d')"
    by (rule assms(2)) (simp_all add: nvme_packet_new_def with_cdw_10_def nvme_command_new_def len)
  have "take 20 (drop 4 (landed buf identify)) = take 20 (drop 4 identify)"
    using assms(3) len by (simp add: landed_def take_drop)
  moreover have "nvme_send N Controller ?p d = (Ok (landed buf identify), d')"
    by (simp add: nvme_send_Controller run to_result_def) (simp add: nvme_packet_new_def)
  ultimately show ?thesis
    using assms(3) by (simp add: nvme_device_new_def recv_serial_num_def buf Let_def pbind_def pure_def)
qed

text \<open>A controller with one namespace that identifies itself by the bytes of a ramp.\<close>

definition ramp_fw :: "unit nvme_express_passthru" where
  "ramp_fw =
     \<lparr>np_mode = \<lparr>nvme_attributes = 0, nvme_io_align = 4, nvme_mode_version = Version [0, 1, 3, 0]\<rparr>,
      np_pass_thru = (\<lambda>n p d. (STATUS_SUCCESS, map word_of_nat [0..<32], d)),
      np_get_next_namespace = (\<lambda>n d. if n = 0xFFFFFFFF then (STATUS_SUCCESS, 1, d) else (STATUS_NOT_FOUND, n, d)),
      np_build_device_path = (\<lambda>n d. (STATUS_NOT_FOUND, None, d)),
      np_get_namespace = (\<lambda>p d. (STATUS_NOT_FOUND, 0, d))\<rparr>"

lemma ramp_fw_sel [simp]:
  "np_pass_thru ramp_fw n p d = (STATUS_SUCCESS, map word_of_nat [0..<32], d)"
  "nvme_io_align (np_mode ramp_fw) = 4"
  "np_get_next_namespace ramp_fw n d = (if n = 0xFFFFFFFF then (STATUS_SUCCESS, 1, d) else (STATUS_NOT_FOUND, n, d))"
  by (simp_all add: ramp_fw_def)

lemma layout_4 [simp]: "layout_ok 4096 4"
  by (simp add: layout_ok_def is_power_of_two_def)

definition ramp_drive :: "'d \<Rightarrow> 'd restartable_nvme_device opal_drive" where
  "ramp_drive d = \<lparr>drive_dev = \<lparr>device = \<lparr>res_dev = \<lparr>nvme_fw = d, nvme_align = 4, nvme_serial = [1]\<rparr>, res_handle = 0\<rparr>,
     com_id = 7, is_eprise = False, was_locked = True\<rparr>\<rparr>"

theorem nvme_unlock_commands_witness:
  "\<exists>d' cs. unlock (nvme_protocol (logged_passthru ramp_fw) (logged_services calm_services)) 1 (\<lambda>p s n k. None)
      (Raw (replicate 32 7)) (ramp_drive ((), [])) = d' \<and>
    nvme_log (device (drive_dev (snd d'))) = cs \<and> (\<forall>c\<in>set cs. security_command 7 c)"
proof -
  obtain r d' where "unlock (nvme_protocol (logged_passthru ramp_fw) (logged_services calm_services)) 1 (\<lambda>p s n k. None)
      (Raw (replicate 32 7)) (ramp_drive ((), [])) = (r, d')" by fastforce
  from nvme_unlock_commands [OF this] this show ?thesis by (auto simp: ramp_drive_def nvme_log_def)
qed

theorem nvme_unlock_identity_witness:
  "nvme_serial (res_dev (device (drive_dev (snd (unlock (nvme_protocol ramp_fw calm_services) 1 (\<lambda>p s n k. None)
      (Raw (replicate 32 7)) (ramp_drive ())))))) = [1]"
  using nvme_unlock_identity [OF surjective_pairing, of ramp_fw calm_services 1 "\<lambda>p s n k. None" "Raw (replicate 32 7)" "ramp_drive ()"]
  by (simp add: ramp_drive_def)

theorem nvme_serial_number_witness:
  "\<exists>dv. nvme_device_new ramp_fw [] () = (Ok dv, ()) \<and> nvme_serial dv = map word_of_nat [4..<24] \<and> nvme_align dv = 4"
proof -
  have "take 20 (drop 4 (map word_of_nat [0..<32])) = (map word_of_nat [4..<24] :: u8 list)"
    by (simp add: drop_map take_map)
  with nvme_serial_number [of ramp_fw "()" "map word_of_nat [0..<32]" "()" "[]"] show ?thesis
    by (auto simp del: list.map)
qed

text \<open>
  The namespaces of a controller that enumerates them as the specification says, each
  call with the id it returned last, beginning with \<^verbatim>\<open>0xFFFFFFFF\<close>, are listed in order, one
  call per namespace and one more.
\<close>

definition enumerates :: "'d nvme_express_passthru \<Rightarrow> u32 \<Rightarrow> u32 list \<Rightarrow> 'd \<Rightarrow> bool" where
  "enumerates N n ns d \<longleftrightarrow>
     (\<forall>i < length ns. np_get_next_namespace N ((n # ns) ! i) d = (STATUS_SUCCESS, ns ! i, d)) \<and>
     (\<exists>x. np_get_next_namespace N (last (n # ns)) d = (STATUS_NOT_FOUND, x, d))"

lemma enumerates_Nil: "enumerates N n [] d \<Longrightarrow> \<exists>x. np_get_next_namespace N n d = (STATUS_NOT_FOUND, x, d)"
  by (simp add: enumerates_def)

lemma enumerates_Cons:
  "enumerates N n (m # ns) d \<Longrightarrow> np_get_next_namespace N n d = (STATUS_SUCCESS, m, d) \<and> enumerates N m ns d"
  by (auto simp: enumerates_def All_less_Suc2)

lemma list_namespaces_loop_enumerates:
  "enumerates N n ns d \<Longrightarrow> length ns < fuel \<Longrightarrow>
     list_namespaces_loop N fuel n acc d = (Ok (acc @ map NamespaceId ns), d)"
proof (induction ns arbitrary: n acc fuel)
  case Nil
  then show ?case using enumerates_Nil [OF Nil(1)] by (cases fuel) (auto simp: status_defs)
next
  case (Cons m ns)
  then show ?case using enumerates_Cons [OF Cons(2)] by (cases fuel) auto
qed

theorem list_namespaces_enumerates:
  assumes "enumerates N 0xFFFFFFFF ns d" "length ns < fuel"
  shows "list_namespaces N fuel d = (Ok (map NamespaceId ns), d)"
  using list_namespaces_loop_enumerates [OF assms, of "[]"] by (simp add: list_namespaces_def)

theorem list_namespaces_enumerates_witness: "list_namespaces ramp_fw 2 () = (Ok [NamespaceId 1], ())"
  using list_namespaces_enumerates [of ramp_fw "[1]" "()" 2] by (simp add: enumerates_def)

text \<open>
  C40: opening a controller panics exactly if the alignment it announces is not a power of two.
  Zero is not one, although the UEFI specification lets a controller that needs no alignment
  announce it.
\<close>

theorem nvme_open_panics_iff:
  "fst (nvme_device_new N mem d) = Panic \<longleftrightarrow> \<not> is_power_of_two (unat (nvme_io_align (np_mode N)))"
proof -
  let ?a = "unat (nvme_io_align (np_mode N))"
  have "?a < 2 ^ 32" using unsigned_less [of "nvme_io_align (np_mode N)"] by simp
  then have "layout_ok 4096 ?a \<longleftrightarrow> is_power_of_two ?a" by (auto simp: layout_ok_def)
  then show ?thesis
    by (auto simp: nvme_device_new_def recv_serial_num_def alloc_uninit_aligned_def pbind_def pure_def
        nvme_send_Controller to_result_def Let_def split: prod.splits outcome.splits)
qed

lemma version_debug_minor:
  "version_debug (Version [0, 1, 3, 0]) = (1, 1, 0)" "version_display (Version [0, 1, 3, 0]) = (1, 3, 0)"
  by (simp_all add: version_debug_def version_display_def version_major_def version_minor_def version_tertiary_def)

end
