(* ===== verification/Readers.thy ===== *)
theory Readers imports Prelude begin

text \<open>
  The readers of \<^verbatim>\<open>src/io.rs\<close>. \<^verbatim>\<open>acid_io\<close>'s traits \<^verbatim>\<open>Read\<close> and \<^verbatim>\<open>Seek\<close> are a record of
  two operations over a reader's state. A read is given the length of the destination slice
  and returns the bytes written to its front; \<^verbatim>\<open>Ok(n)\<close> of the code is their number. What
  a failed read leaves in the destination is not modelled.

  Positions are 64-bit words, offsets are their signed reading; plain arithmetic wraps.
\<close>

datatype seek_from = Start u64 | End u64 | Current u64

text \<open>The offsets of \<^verbatim>\<open>End\<close> and \<^verbatim>\<open>Current\<close> are \<^verbatim>\<open>i64\<close>: words read by \<^verbatim>\<open>sint\<close>.\<close>

datatype 'e io_error = InvalidInput | Other 'e

record ('s, 'e) reader =
  rd :: "nat \<Rightarrow> ('s, 'e io_error, u8 list) prog"
  sk :: "seek_from \<Rightarrow> ('s, 'e io_error, u64) prog"

text \<open>\<^verbatim>\<open>Seek::rewind\<close>\<close>

definition rewind :: "('s, 'e) reader \<Rightarrow> ('s, 'e io_error, unit) prog" where
  "rewind R = pbind (sk R (Start 0)) (\<lambda>_. pure (Ok ()))"

text \<open>Integer conversions: \<^verbatim>\<open>u64::try_from(i64)\<close> and \<^verbatim>\<open>checked_add\<close> and friends.\<close>

definition u64_of_int :: "int \<Rightarrow> u64 option" where
  "u64_of_int i = (if 0 \<le> i \<and> i < 2 ^ 64 then Some (word_of_int i) else None)"

definition i64_of_int :: "int \<Rightarrow> u64 option" where
  "i64_of_int i = (if - (2 ^ 63) \<le> i \<and> i < 2 ^ 63 then Some (word_of_int i) else None)"

section \<open>BlockIoReader\<close>

text \<open>
  The firmware's Block I/O protocol: the media descriptor and the call that reads blocks
  into a buffer of a given length, from the media id and the first block.
\<close>

record 'e block_io =
  media_id :: u32
  media_block_size :: u32
  io_read_blocks :: "u32 \<Rightarrow> u64 \<Rightarrow> nat \<Rightarrow> ('e, u8 list) outcome"

record 'e block_io_reader =
  bio :: "'e block_io"
  bio_media_id :: u32
  start_lba :: u64
  bio_size :: u64
  bio_cursor :: u64
  block_size :: u64

definition block_io_reader_new :: "'e block_io \<Rightarrow> u64 \<Rightarrow> u64 \<Rightarrow> 'e block_io_reader" where
  "block_io_reader_new inner start end_lba =
     (let bs = ucast (media_block_size inner);
          first = start * bs;
          last = (end_lba + 1) * bs
      in \<lparr>bio = inner, bio_media_id = media_id inner, start_lba = start, bio_size = last - first,
          bio_cursor = 0, block_size = bs\<rparr>)"

definition read_blocks :: "nat \<Rightarrow> 'e block_io_reader \<Rightarrow> ('e io_error, u8 list) outcome" where
  "read_blocks n s =
     (if block_size s = 0 then Panic
      else map_err Other (io_read_blocks (bio s) (bio_media_id s) (start_lba s + bio_cursor s div block_size s) n))"

definition advance :: "nat \<Rightarrow> 'e block_io_reader \<Rightarrow> 'e block_io_reader" where
  "advance n s = s\<lparr>bio_cursor := bio_cursor s + word_of_nat n\<rparr>"

text \<open>
  The part of \<^verbatim>\<open>read\<close> after the cursor has been aligned; \<open>done\<close> are the bytes copied so far
  and \<open>n\<close> the length of the rest of the destination.
\<close>

definition bio_read_aligned :: "u8 list \<Rightarrow> nat \<Rightarrow> ('e block_io_reader, 'e io_error, u8 list) prog" where
  "bio_read_aligned done n s =
     (let bsz = unat (block_size s) in
      if n < bsz then
        pbind (\<lambda>s. (read_blocks bsz s, s)) (\<lambda>block.
        pbind (pure (slice block 0 n)) (\<lambda>b s. (Ok (done @ b), advance n s))) s
      else
        let full = n div bsz * bsz in
        pbind (\<lambda>s. (read_blocks full s, s)) (\<lambda>b s. (Ok (done @ b), advance full s)) s)"

definition bio_read :: "nat \<Rightarrow> ('e block_io_reader, 'e io_error, u8 list) prog" where
  "bio_read len s =
     (if bio_cursor s \<ge> bio_size s then (Ok [], s)
      else
        let left = unat (bio_size s - bio_cursor s);
            len = (if left < len then left else len)
        in if \<not> block_size s \<le> 4096 \<or> block_size s = 0 then (Panic, s)
        else
          let bsz = unat (block_size s); off = unat (bio_cursor s mod block_size s)
          in if off \<noteq> 0 then
            pbind (\<lambda>s. (read_blocks bsz s, s)) (\<lambda>block.
            pbind (pure (slice block off (length block))) (\<lambda>block s.
              if len \<le> length block then
                pbind (pure (slice block 0 len)) (\<lambda>b s. (Ok b, advance len s)) s
              else bio_read_aligned block (len - length block) (advance (length block) s))) s
          else bio_read_aligned [] len s)"

definition bio_seek :: "seek_from \<Rightarrow> ('e block_io_reader, 'e io_error, u64) prog" where
  "bio_seek pos s =
     (case (case pos of
         Start offset \<Rightarrow> Some offset
       | End offset \<Rightarrow> u64_of_int (sint (bio_size s + offset))
       | Current offset \<Rightarrow> u64_of_int (sint (bio_cursor s + offset))) of
        Some c \<Rightarrow> (Ok c, s\<lparr>bio_cursor := c\<rparr>)
      | None \<Rightarrow> (Err InvalidInput, s))"

definition block_io_ops :: "('e block_io_reader, 'e) reader" where
  "block_io_ops = \<lparr>rd = bio_read, sk = bio_seek\<rparr>"

section \<open>PartialReader\<close>

record 's partial_reader =
  part_inner :: 's
  part_start :: u64
  part_size :: u64
  part_cursor :: u64
  need_reset :: bool

definition partial_reader_new :: "'s \<Rightarrow> u64 \<Rightarrow> u64 \<Rightarrow> 's partial_reader" where
  "partial_reader_new inner start sz =
     \<lparr>part_inner = inner, part_start = start, part_size = sz, part_cursor = 0, need_reset = True\<rparr>"

abbreviation part_zoom :: "('s, 'e, 'a) prog \<Rightarrow> ('s partial_reader, 'e, 'a) prog" where
  "part_zoom \<equiv> zoom part_inner (\<lambda>t s. s\<lparr>part_inner := t\<rparr>)"

definition unwrap :: "'a option \<Rightarrow> ('e, 'a) outcome" where
  "unwrap x = (case x of Some a \<Rightarrow> Ok a | None \<Rightarrow> Panic)"

definition u64_checked_add :: "u64 \<Rightarrow> u64 \<Rightarrow> u64 option" where
  "u64_checked_add a b = u64_of_int (uint a + uint b)"

definition part_target :: "seek_from \<Rightarrow> 's partial_reader \<Rightarrow> ('e io_error, seek_from) outcome" where
  "part_target pos s =
     (case pos of
        Start p \<Rightarrow> obind (unwrap (u64_checked_add (part_start s) p)) (\<lambda>p. Ok (Start p))
      | Current p \<Rightarrow> Ok (Current p)
      | End p \<Rightarrow>
          obind (unwrap (i64_of_int (sint (part_start s + part_size s) + sint p))) (\<lambda>e.
          obind (unwrap (u64_of_int (sint e))) (\<lambda>e. Ok (Start e))))"

definition part_seek :: "('s, 'e) reader \<Rightarrow> seek_from \<Rightarrow> ('s partial_reader, 'e io_error, u64) prog" where
  "part_seek R pos s =
     pbind (\<lambda>s. (Ok (), s\<lparr>need_reset := False\<rparr>)) (\<lambda>_ s.
     pbind (pure (part_target pos s)) (\<lambda>target.
     pbind (part_zoom (sk R target)) (\<lambda>p s.
     if part_start s > p then (Err InvalidInput, s)
     else (Ok (p - part_start s), s\<lparr>part_cursor := p - part_start s\<rparr>))) s) s"

definition part_read :: "('s, 'e) reader \<Rightarrow> nat \<Rightarrow> ('s partial_reader, 'e io_error, u8 list) prog" where
  "part_read R len s =
     pbind (\<lambda>s. if need_reset s
         then pbind (part_seek R (Start 0)) (\<lambda>_. pure (Ok ())) (s\<lparr>need_reset := False\<rparr>)
         else (Ok (), s)) (\<lambda>_ s.
     if part_cursor s \<ge> part_size s then (Ok [], s)
     else
       let left = unat (part_size s - part_cursor s);
           len = (if len > left then left else len)
       in pbind (part_zoom (rd R len)) (\<lambda>b s.
          case u64_checked_add (part_cursor s) (word_of_nat (length b)) of
            None \<Rightarrow> (Panic, s)
          | Some c \<Rightarrow> (Ok b, s\<lparr>part_cursor := c\<rparr>)) s) s"

definition part_ops :: "('s, 'e) reader \<Rightarrow> ('s partial_reader, 'e) reader" where
  "part_ops R = \<lparr>rd = part_read R, sk = part_seek R\<rparr>"

section \<open>OptimizedSeek\<close>

record 's optimized_seek =
  opt_inner :: 's
  opt_cursor :: "u64 option"
  opt_end :: "u64 option"
  total_seeks_n :: u64
  unstopped_seeks :: u64

definition optimized_seek_new :: "'s \<Rightarrow> 's optimized_seek" where
  "optimized_seek_new inner =
     \<lparr>opt_inner = inner, opt_cursor = None, opt_end = None, total_seeks_n = 0, unstopped_seeks = 0\<rparr>"

definition total_seeks :: "'s optimized_seek \<Rightarrow> u64" where
  "total_seeks s = total_seeks_n s"

definition stopped_seeks :: "'s optimized_seek \<Rightarrow> u64" where
  "stopped_seeks s = total_seeks_n s - unstopped_seeks s"

abbreviation opt_zoom :: "('s, 'e, 'a) prog \<Rightarrow> ('s optimized_seek, 'e, 'a) prog" where
  "opt_zoom \<equiv> zoom opt_inner (\<lambda>t s. s\<lparr>opt_inner := t\<rparr>)"

definition opt_read :: "('s, 'e) reader \<Rightarrow> nat \<Rightarrow> ('s optimized_seek, 'e io_error, u8 list) prog" where
  "opt_read R len =
     pbind (opt_zoom (rd R len)) (\<lambda>b s.
     (Ok b, s\<lparr>opt_cursor := map_option (\<lambda>c. c + word_of_nat (length b)) (opt_cursor s)\<rparr>))"

definition add_end_offset :: "u64 \<Rightarrow> u64 \<Rightarrow> u64 option" where
  "add_end_offset e offset =
     Option.bind (i64_of_int (uint e)) (\<lambda>e.
     Option.bind (i64_of_int (sint e - sint offset)) (\<lambda>pos. u64_of_int (sint pos)))"

definition i64_checked_neg :: "u64 \<Rightarrow> u64 option" where
  "i64_checked_neg a = i64_of_int (- sint a)"

text \<open>The three arms of the \<^verbatim>\<open>match\<close> that answer without a seek.\<close>

definition opt_shortcut :: "seek_from \<Rightarrow> 's optimized_seek \<Rightarrow> u64 option" where
  "opt_shortcut pos s =
     (case opt_cursor s of None \<Rightarrow> None
      | Some cursor \<Rightarrow>
          (case pos of
             Start p \<Rightarrow> if p = cursor then Some cursor else None
           | Current p \<Rightarrow> if p = 0 then Some cursor else None
           | End offset \<Rightarrow>
               (case opt_end s of None \<Rightarrow> None
                | Some e \<Rightarrow> if Some cursor = add_end_offset e offset then Some cursor else None)))"

definition opt_seek :: "('s, 'e) reader \<Rightarrow> seek_from \<Rightarrow> ('s optimized_seek, 'e io_error, u64) prog" where
  "opt_seek R pos s =
     (let s = s\<lparr>total_seeks_n := total_seeks_n s + 1\<rparr> in
      case opt_shortcut pos s of
        Some cursor \<Rightarrow> (Ok cursor, s)
      | None \<Rightarrow>
          pbind (opt_zoom (sk R pos)) (\<lambda>new_pos s.
          let s = s\<lparr>opt_cursor := Some new_pos\<rparr>
          in (Ok new_pos,
              case pos of
                End offset \<Rightarrow>
                  (if opt_end s = None
                   then s\<lparr>opt_end := Option.bind (i64_checked_neg offset) (add_end_offset new_pos)\<rparr>
                   else s)
              | _ \<Rightarrow> s)) (s\<lparr>unstopped_seeks := unstopped_seeks s + 1\<rparr>))"

definition opt_ops :: "('s, 'e) reader \<Rightarrow> ('s optimized_seek, 'e) reader" where
  "opt_ops R = \<lparr>rd = opt_read R, sk = opt_seek R\<rparr>"

section \<open>IgnoreWriteWrapper\<close>

text \<open>
  \<^verbatim>\<open>ErrorWrapper\<close> and the wrapper are newtypes; the traits of \<^verbatim>\<open>fatfs\<close> they implement have
  their own \<^verbatim>\<open>SeekFrom\<close>.
\<close>

datatype 'e error_wrapper = ErrorWrapper "'e io_error"

datatype fat_seek_from = FatStart u64 | FatEnd u64 | FatCurrent u64

fun from_fat_seek :: "fat_seek_from \<Rightarrow> seek_from" where
  "from_fat_seek (FatStart pos) = Start pos"
| "from_fat_seek (FatCurrent pos) = Current pos"
| "from_fat_seek (FatEnd pos) = End pos"

definition fat_read :: "('s, 'e) reader \<Rightarrow> nat \<Rightarrow> ('s, 'e error_wrapper, u8 list) prog" where
  "fat_read R len = pmap_err ErrorWrapper (rd R len)"

definition fat_seek :: "('s, 'e) reader \<Rightarrow> fat_seek_from \<Rightarrow> ('s, 'e error_wrapper, u64) prog" where
  "fat_seek R pos = pmap_err ErrorWrapper (sk R (from_fat_seek pos))"

definition fat_write :: "u8 list \<Rightarrow> ('s, 'e error_wrapper, nat) prog" where
  "fat_write buf = pure (Ok (length buf))"

definition fat_flush :: "('s, 'e error_wrapper, unit) prog" where
  "fat_flush = pure (Ok ())"

end
