(* ===== verification/Errors.thy ===== *)
theory Errors imports Uefi Readers begin

text \<open>
  The error type of the greeter, \<^verbatim>\<open>src/error.rs\<close>: an optional source and a context. The
  source location, which only the formatter prints, is left out here; the theory \<open>Texts\<close> has the
  formatter. The errors of external crates are a parameter: the type \<open>'x\<close> of their values.
\<close>

datatype 'x error_source =
    FileNotFound
  | OpalSource "uefi_error error"
  | UefiSource status
  | Utf8Source 'x
  | TomlSource 'x
  | CString16FromStrError 'x
  | IoSource "'x io_error"
  | LuksSource 'x
  | FatSource "'x io_error"

record 'x greeter_error =
  err_source :: "'x error_source option"
  err_context :: string

definition error_new :: "'x error_source \<Rightarrow> string \<Rightarrow> 'x greeter_error" where
  "error_new src ctx = \<lparr>err_source = Some src, err_context = ctx\<rparr>"

definition error_new_from_uefi :: "status \<Rightarrow> string \<Rightarrow> 'x greeter_error" where
  "error_new_from_uefi s ctx = \<lparr>err_source = Some (UefiSource s), err_context = ctx\<rparr>"

definition error_new_without_source :: "string \<Rightarrow> 'x greeter_error" where
  "error_new_without_source msg = \<lparr>err_source = None, err_context = msg\<rparr>"

text \<open>
  The trait \<^verbatim>\<open>Context\<close>: its implementation for errors that convert to a source, the conversion
  being the argument, and the one for errors of the crate \<^verbatim>\<open>uefi\<close>.
\<close>

definition context_from :: "('e \<Rightarrow> 'x error_source) \<Rightarrow> string \<Rightarrow> ('s, 'e, 'a) prog \<Rightarrow> ('s, 'x greeter_error, 'a) prog" where
  "context_from into ctx = pmap_err (\<lambda>e. error_new (into e) ctx)"

definition uefi_context :: "string \<Rightarrow> ('s, status, 'a) prog \<Rightarrow> ('s, 'x greeter_error, 'a) prog" where
  "uefi_context ctx = pmap_err (\<lambda>s. error_new_from_uefi s ctx)"

lemma context_Ok_iff [ok_iff]:
  "context_from into ctx m s = (Ok a, t) \<longleftrightarrow> m s = (Ok a, t)" "uefi_context ctx m s = (Ok a, t) \<longleftrightarrow> m s = (Ok a, t)"
  by (simp_all add: context_from_def uefi_context_def ok_iff)

lemma keeps_context:
  "keeps R m \<Longrightarrow> keeps R (context_from into ctx m)" "keeps R m \<Longrightarrow> keeps R (uefi_context ctx m)"
  by (simp_all add: context_from_def uefi_context_def keeps_pmap_err)

end
