(* ===== verification/Ata.thy ===== *)
theory Ata imports Errors Laws begin

text \<open>
  SATA drives: \<^verbatim>\<open>src/low_level/ata_passthru.rs\<close>, the pass-thru protocol with its command
  block, and the device that offers it as a \<^verbatim>\<open>SecureProtocol\<close>. The firmware's \<^verbatim>\<open>PassThru\<close>,
  \<^verbatim>\<open>GetNextPort\<close>, \<^verbatim>\<open>GetNextDevice\<close> and \<^verbatim>\<open>GetDevice\<close> are parameters. Names that occur in the
  NVMe code too have the prefix \<open>ata\<close>.
\<close>

section \<open>Commands\<close>

datatype ata_command = AtaIdentify | IfRecv | IfSend

fun ata_command_u8 :: "ata_command \<Rightarrow> u8" where
  "ata_command_u8 AtaIdentify = 0xec"
| "ata_command_u8 IfRecv = 0x5c"
| "ata_command_u8 IfSend = 0x5e"

datatype io_mode = Identify | IoRecv u8 u16 | IoSend u8 u16 "u8 list"

datatype ata_passthru_protocol = PioDataIn | PioDataOut

fun ata_protocol_u8 :: "ata_passthru_protocol \<Rightarrow> u8" where
  "ata_protocol_u8 PioDataIn = 0x4"
| "ata_protocol_u8 PioDataOut = 0x5"

definition NO_DATA_TRANSFER :: u8 where "NO_DATA_TRANSFER = 0"
definition LENGTH_BYTES :: u8 where "LENGTH_BYTES = 0x80"
definition LENGTH_SECTOR_COUNT :: u8 where "LENGTH_SECTOR_COUNT = 0x20"

record ata_status_block =
  asb_reserved1 :: "u8 list"
  asb_status :: u8
  asb_error :: u8
  asb_sector_number :: u8
  asb_cylinder_low :: u8
  asb_cylinder_high :: u8
  asb_device_head :: u8
  asb_sector_number_exp :: u8
  asb_cylinder_low_exp :: u8
  asb_cylinder_high_exp :: u8
  asb_reserved2 :: u8
  asb_sector_count :: u8
  asb_sector_count_exp :: u8
  asb_reserved3 :: "u8 list"

definition ata_status_block_default :: ata_status_block where
  "ata_status_block_default =
     \<lparr>asb_reserved1 = [0, 0], asb_status = 0, asb_error = 0, asb_sector_number = 0, asb_cylinder_low = 0,
      asb_cylinder_high = 0, asb_device_head = 0, asb_sector_number_exp = 0, asb_cylinder_low_exp = 0,
      asb_cylinder_high_exp = 0, asb_reserved2 = 0, asb_sector_count = 0, asb_sector_count_exp = 0,
      asb_reserved3 = replicate 6 0\<rparr>"

definition size_of_ata_status_block :: nat where "size_of_ata_status_block = 20"

record ata_command_block =
  acb_reserved1 :: "u8 list"
  acb_command :: ata_command
  features :: u8
  sector_number :: u8
  cylinder_low :: u8
  cylinder_high :: u8
  device_head :: u8
  sector_number_exp :: u8
  cylinder_low_exp :: u8
  cylinder_high_exp :: u8
  features_exp :: u8
  sector_count :: u8
  sector_count_exp :: u8
  acb_reserved2 :: "u8 list"

definition ata_command_block_default :: ata_command_block where
  "ata_command_block_default =
     \<lparr>acb_reserved1 = [0, 0], acb_command = AtaIdentify, features = 0, sector_number = 0, cylinder_low = 0,
      cylinder_high = 0, device_head = 0, sector_number_exp = 0, cylinder_low_exp = 0, cylinder_high_exp = 0,
      features_exp = 0, sector_count = 0, sector_count_exp = 0, acb_reserved2 = replicate 6 0\<rparr>"

record ata_packet =
  packet_asb :: ata_status_block
  packet_acb :: ata_command_block
  ata_timeout :: u64
  in_data_buffer :: "u8 list"
  out_data_buffer :: "u8 list option"
  in_transfer_length :: u32
  out_transfer_length :: u32
  packet_protocol :: ata_passthru_protocol
  packet_length :: u8

section \<open>The pass-thru protocol\<close>

record ata_mode =
  ata_attributes :: u32
  ata_io_align :: u32

text \<open>
  \<open>ata_pass_thru\<close> takes port, port multiplier port and packet and returns the status and the
  bytes transferred into the packet's in-buffer.
\<close>

record 'd ata_passthru =
  ap_mode :: ata_mode
  ap_pass_thru :: "u16 \<Rightarrow> u16 \<Rightarrow> ata_packet \<Rightarrow> 'd \<Rightarrow> status \<times> u8 list \<times> 'd"
  ap_get_next_port :: "u16 \<Rightarrow> 'd \<Rightarrow> status \<times> u16 \<times> 'd"
  ap_get_next_device :: "u16 \<Rightarrow> u16 \<Rightarrow> 'd \<Rightarrow> status \<times> u16 \<times> 'd"
  ap_get_device :: "device_path \<Rightarrow> 'd \<Rightarrow> status \<times> (u16 \<times> u16) \<times> 'd"

fun io_command :: "io_mode \<Rightarrow> ata_command" where
  "io_command Identify = AtaIdentify"
| "io_command (IoRecv pr cid) = IfRecv"
| "io_command (IoSend pr cid data) = IfSend"

fun io_protocol :: "io_mode \<Rightarrow> ata_passthru_protocol" where
  "io_protocol Identify = PioDataIn"
| "io_protocol (IoRecv pr cid) = PioDataIn"
| "io_protocol (IoSend pr cid data) = PioDataOut"

definition security_block :: "u8 \<Rightarrow> u16 \<Rightarrow> ata_command_block \<Rightarrow> ata_command_block" where
  "security_block pr cid acb =
     acb\<lparr>features := pr, cylinder_high := ucast (drop_bit 8 cid), cylinder_low := ucast cid, device_head := 0x40\<rparr>"

definition io_command_block :: "u16 \<Rightarrow> io_mode \<Rightarrow> ata_command_block" where
  "io_command_block pmp mode =
     (let acb = ata_command_block_default\<lparr>acb_command := io_command mode,
          device_head := push_bit 7 1 OR push_bit 6 1 OR push_bit 5 1 OR ucast (push_bit 4 pmp)\<rparr>
      in case mode of Identify \<Rightarrow> acb
         | IoRecv pr cid \<Rightarrow> security_block pr cid acb
         | IoSend pr cid data \<Rightarrow> security_block pr cid acb)"

definition rounded_len :: "nat \<Rightarrow> nat" where
  "rounded_len n = (n + 512 - 1) div 512 * 512"

definition out_buffer :: "u8 list \<Rightarrow> nat \<Rightarrow> ('e, u8 list) outcome" where
  "out_buffer data al =
     obind (alloc_init_aligned (rounded_len (length data)) al) (\<lambda>buf. Ok (overwrite buf 0 data))"

definition do_io :: "'d ata_passthru \<Rightarrow> u16 \<Rightarrow> u16 \<Rightarrow> io_mode \<Rightarrow> ('d, status, u8 list) prog" where
  "do_io A port pmp mode =
     (let al = unat (ata_io_align (ap_mode A)) in
      pbind (pure (alloc_aligned_t size_of_ata_status_block ata_status_block_default al)) (\<lambda>asb.
      let acb = io_command_block pmp mode in
      pbind (pure (alloc_init_aligned 2048 al)) (\<lambda>return_data.
      let packet = \<lparr>packet_asb = asb, packet_acb = acb, ata_timeout = 3 * 10000000, in_data_buffer = return_data,
            out_data_buffer = None, in_transfer_length = word_of_nat (length return_data),
            out_transfer_length = 0, packet_protocol = io_protocol mode,
            packet_length = LENGTH_BYTES OR LENGTH_SECTOR_COUNT\<rparr>
      in pbind (case mode of
           IoSend pr cid data \<Rightarrow>
             pbind (pure (out_buffer data al)) (\<lambda>out_buf.
             pure (Ok (packet\<lparr>out_data_buffer := Some out_buf, out_transfer_length := word_of_nat (length out_buf)\<rparr>)))
         | _ \<Rightarrow> pure (Ok packet)) (\<lambda>packet d.
      case ap_pass_thru A port pmp packet d of (s, bytes_in, d') \<Rightarrow>
        (to_result s (landed return_data bytes_in), d')))))"

definition find_first_dev :: "'d ata_passthru \<Rightarrow> ('d, status, u16 \<times> u16) prog" where
  "find_first_dev A d =
     (case ap_get_next_port A 0xFFFF d of (s, port, d) \<Rightarrow>
        pbind (pure (to_result s ())) (\<lambda>_ d.
        case ap_get_next_device A port 0xFFFF d of (s, pmp, d) \<Rightarrow> (to_result s (port, pmp), d)) d)"

text \<open>\<^verbatim>\<open>byteswap\<close> swaps the bytes of every pair; a last odd byte stays.\<close>

fun byteswap :: "u8 list \<Rightarrow> u8 list" where
  "byteswap (a # b # v) = b # a # byteswap v"
| "byteswap v = v"

definition get_serial_num :: "'d ata_passthru \<Rightarrow> u16 \<Rightarrow> u16 \<Rightarrow> ('d, status, u8 list) prog" where
  "get_serial_num A port pmp =
     pbind (do_io A port pmp Identify) (\<lambda>identify. pure (Ok (byteswap (take 20 (drop 20 identify)))))"

section \<open>The device\<close>

record 'd ata_protocol =
  ata_fw :: 'd
  ata_port :: u16
  ata_pmp :: u16
  ata_serial :: "u8 list"
  ata_handle :: nat

definition try_make ::
  "'d ata_passthru \<Rightarrow> device_path \<Rightarrow> nat \<Rightarrow> ('d, 'x greeter_error, 'd ata_protocol) prog" where
  "try_make A devpath h =
     pbind (uefi_context ''error mapping device''
       (\<lambda>d. case ap_get_device A devpath d of (s, ports, d') \<Rightarrow> (to_result s ports, d'))) (\<lambda>(port, pmp).
     pbind (uefi_context ''get serial num'' (get_serial_num A port pmp)) (\<lambda>sn d.
     (Ok \<lparr>ata_fw = d, ata_port = port, ata_pmp = pmp, ata_serial = sn, ata_handle = h\<rparr>, d)))"

abbreviation on_ata :: "('d, 'e, 'a) prog \<Rightarrow> ('d ata_protocol, 'e, 'a) prog" where
  "on_ata \<equiv> zoom ata_fw (\<lambda>d s. s\<lparr>ata_fw := d\<rparr>)"

definition ata_recv :: "'d ata_passthru \<Rightarrow> u8 \<Rightarrow> u16 \<Rightarrow> u8 list \<Rightarrow> ('d ata_protocol, uefi_error, u8 list) prog" where
  "ata_recv A pr cid buffer s =
     pbind (pmap_err UefiError (on_ata (do_io A (ata_port s) (ata_pmp s) (IoRecv pr cid)))) (\<lambda>data.
     let n = min (length data) (length buffer) in pure (Ok (overwrite buffer 0 (take n data)))) s"

definition ata_send :: "'d ata_passthru \<Rightarrow> u8 \<Rightarrow> u16 \<Rightarrow> u8 list \<Rightarrow> ('d ata_protocol, uefi_error, unit) prog" where
  "ata_send A pr cid data s =
     pbind (pmap_err UefiError (on_ata (do_io A (ata_port s) (ata_pmp s) (IoSend pr cid data)))) (\<lambda>_. pure (Ok ())) s"

definition ata_secure_protocol ::
  "'d ata_passthru \<Rightarrow> 'd boot_services \<Rightarrow> ('d ata_protocol, uefi_error) secure_protocol" where
  "ata_secure_protocol A bs =
     \<lparr>secure_send = ata_send A,
      secure_recv = ata_recv A,
      reconnect_controller = (\<lambda>s. on_ata (uefi_reconnect bs (ata_handle s)) s),
      align = (\<lambda>s. unat (ata_io_align (ap_mode A))),
      serial_num = ata_serial\<rparr>"

section \<open>A command in closed form\<close>

lemma rounded_len_bounds: "n \<le> rounded_len n" "rounded_len n < n + 512" "512 dvd rounded_len n"
  using div_mult_mod_eq [of "n + 511" 512] mod_less_divisor [of 512 "n + 511"]
  by (simp_all add: rounded_len_def)

lemma out_buffer_Ok:
  "out_buffer data al = Ok b \<longleftrightarrow> layout_ok (rounded_len (length data)) al \<and>
     b = data @ replicate (rounded_len (length data) - length data) 0"
  using rounded_len_bounds [of "length data"]
  by (auto simp: out_buffer_def ok_iff alloc_init_aligned_def overwrite_def)

definition io_packet :: "u16 \<Rightarrow> io_mode \<Rightarrow> u8 list option \<Rightarrow> ata_packet" where
  "io_packet pmp mode out =
     \<lparr>packet_asb = ata_status_block_default, packet_acb = io_command_block pmp mode, ata_timeout = 30000000,
      in_data_buffer = replicate 2048 0, out_data_buffer = out, in_transfer_length = 2048,
      out_transfer_length = (case out of Some b \<Rightarrow> word_of_nat (length b) | None \<Rightarrow> 0),
      packet_protocol = io_protocol mode, packet_length = 0xA0\<rparr>"

lemma length_bits: "LENGTH_BYTES OR LENGTH_SECTOR_COUNT = 0xA0"
  by (simp add: LENGTH_BYTES_def LENGTH_SECTOR_COUNT_def)

lemma do_io_recv_eq:
  assumes "\<And>pr cid data. mode \<noteq> IoSend pr cid data"
  shows "do_io A port pmp mode d =
     (if layout_ok 2048 (unat (ata_io_align (ap_mode A)))
      then (case ap_pass_thru A port pmp (io_packet pmp mode None) d of (s, bs, d') \<Rightarrow>
              (to_result s (landed (replicate 2048 0) bs), d'))
      else (Panic, d))"
proof -
  have "layout_ok 20 a \<or> \<not> layout_ok 2048 a" for a by (auto simp: layout_ok_def)
  then show ?thesis
    using assms by (cases mode)
      (auto simp: do_io_def Let_def alloc_aligned_t_def alloc_init_aligned_def size_of_ata_status_block_def
        io_packet_def length_bits pure_def)
qed

lemma do_io_send_eq:
  "do_io A port pmp (IoSend pr cid data) d =
     (if layout_ok 2048 (unat (ata_io_align (ap_mode A)))
      then pbind (pure (out_buffer data (unat (ata_io_align (ap_mode A))))) (\<lambda>out d.
           case ap_pass_thru A port pmp (io_packet pmp (IoSend pr cid data) (Some out)) d of (s, bs, d') \<Rightarrow>
             (to_result s (landed (replicate 2048 0) bs), d')) d
      else (Panic, d))"
proof -
  have "layout_ok 20 a \<or> \<not> layout_ok 2048 a" for a by (auto simp: layout_ok_def)
  then show ?thesis
    by (auto simp: do_io_def Let_def pbind_assoc alloc_aligned_t_def alloc_init_aligned_def size_of_ata_status_block_def
        io_packet_def length_bits pure_def)
qed

lemma do_io_length: "do_io A port pmp mode d = (Ok b, d') \<Longrightarrow> length b = 2048"
  by (cases mode) (auto simp: do_io_recv_eq do_io_send_eq ok_iff case_prod_unfold split: if_splits)

section \<open>The laws\<close>

lemma ata_recv_length: "ata_recv A pr cid buf s = (Ok b, s') \<Longrightarrow> length b = length buf"
  by (auto simp: ata_recv_def ok_iff Let_def)

interpretation ata: protocol_laws "ata_secure_protocol A bs" for A bs
  by unfold_locales
    (auto simp: ata_secure_protocol_def ata_send_def ata_recv_def Let_def pmap_err_def zoom_def pbind_def
      pure_def ok_iff dest: ata_recv_length split: prod.splits outcome.splits)

section \<open>Byte order\<close>

lemma length_byteswap [simp]: "length (byteswap v) = length v"
  by (induction v rule: byteswap.induct) auto

lemma byteswap_byteswap [simp]: "byteswap (byteswap v) = v"
  by (induction v rule: byteswap.induct) auto

lemma byteswap_nth:
  "even (length v) \<Longrightarrow> i < length v \<Longrightarrow> byteswap v ! i = v ! (if even i then i + 1 else i - 1)"
proof (induction v arbitrary: i rule: byteswap.induct)
  case (1 a b v)
  consider "i = 0" | "i = 1" | j where "i = Suc (Suc j)" by (metis One_nat_def not0_implies_Suc)
  then show ?case
  proof cases
    case 3
    with 1 show ?thesis by (cases "even j") (auto elim: oddE)
  qed simp_all
qed auto

section \<open>A firmware with a log\<close>

definition logged_ata :: "'d ata_passthru \<Rightarrow> ('d \<times> (u16 \<times> u16 \<times> ata_packet) list) ata_passthru" where
  "logged_ata A =
     \<lparr>ap_mode = ap_mode A,
      ap_pass_thru = (\<lambda>port pmp p (d, l). case ap_pass_thru A port pmp p d of (s, out, d') \<Rightarrow> (s, out, d', l @ [(port, pmp, p)])),
      ap_get_next_port = (\<lambda>n (d, l). case ap_get_next_port A n d of (s, n', d') \<Rightarrow> (s, n', d', l)),
      ap_get_next_device = (\<lambda>port n (d, l). case ap_get_next_device A port n d of (s, n', d') \<Rightarrow> (s, n', d', l)),
      ap_get_device = (\<lambda>path (d, l). case ap_get_device A path d of (s, ports, d') \<Rightarrow> (s, ports, d', l))\<rparr>"

definition ata_log :: "('d \<times> (u16 \<times> u16 \<times> ata_packet) list) ata_protocol \<Rightarrow> (u16 \<times> u16 \<times> ata_packet) list" where
  "ata_log s = snd (ata_fw s)"

text \<open>
  A Trusted Send or Trusted Receive of the ATA command set for security protocol 1: the
  protocol in the features register, the communication id in the two cylinder registers; what is
  sent is a whole number of sectors.
\<close>

definition trusted_command :: "u16 \<Rightarrow> ata_packet \<Rightarrow> bool" where
  "trusted_command cid p \<longleftrightarrow>
     (let acb = packet_acb p in
      features acb = 1 \<and> unat (cylinder_high acb) * 256 + unat (cylinder_low acb) = unat cid \<and>
      device_head acb = 0x40 \<and>
      (ata_command_u8 (acb_command acb) = 0x5c \<and> packet_protocol p = PioDataIn \<and> out_data_buffer p = None \<and>
         out_transfer_length p = 0 \<or>
       ata_command_u8 (acb_command acb) = 0x5e \<and> packet_protocol p = PioDataOut \<and>
         (\<exists>b. out_data_buffer p = Some b \<and> 512 dvd length b \<and> out_transfer_length p = word_of_nat (length b))) \<and>
      length (in_data_buffer p) = 2048 \<and> in_transfer_length p = 2048)"

definition only_trusted ::
  "u16 \<Rightarrow> ('d \<times> (u16 \<times> u16 \<times> ata_packet) list) ata_protocol \<Rightarrow> ('d \<times> (u16 \<times> u16 \<times> ata_packet) list) ata_protocol \<Rightarrow> bool" where
  "only_trusted cid s s' \<longleftrightarrow> ata_port s' = ata_port s \<and> ata_pmp s' = ata_pmp s \<and>
     (\<exists>cs. ata_log s' = ata_log s @ cs \<and>
        (\<forall>c\<in>set cs. fst c = ata_port s \<and> fst (snd c) = ata_pmp s \<and> trusted_command cid (snd (snd c))))"

lemma security_block_sel:
  "features (security_block pr cid acb) = pr" "device_head (security_block pr cid acb) = 0x40"
  "acb_command (security_block pr cid acb) = acb_command acb"
  "unat (cylinder_high (security_block pr cid acb)) * 256 + unat (cylinder_low (security_block pr cid acb)) = unat cid"
  by (simp_all add: security_block_def com_id_bytes)

lemma trusted_recv: "trusted_command cid (io_packet pmp (IoRecv 1 cid) None)"
  by (simp add: trusted_command_def io_packet_def io_command_block_def Let_def security_block_sel)

lemma trusted_send:
  assumes "(out_buffer data al :: ('e, _) outcome) = Ok out"
  shows "trusted_command cid (io_packet pmp (IoSend 1 cid data) (Some out))"
proof -
  have "length out = rounded_len (length data)"
    using assms rounded_len_bounds [of "length data"] by (simp add: out_buffer_Ok)
  then have "512 dvd length out" using rounded_len_bounds(3) by simp
  then show ?thesis
    by (simp add: trusted_command_def io_packet_def io_command_block_def Let_def security_block_sel)
qed

lemma only_trusted_preorder: "reflp (only_trusted cid)" "transp (only_trusted cid)"
  by (auto intro!: reflpI transpI simp: only_trusted_def) fastforce+

lemma do_io_log:
  assumes "do_io (logged_ata A) port pmp mode d = (r, d')"
  shows "snd d' = snd d \<or> (\<exists>out. snd d' = snd d @ [(port, pmp, io_packet pmp mode out)] \<and>
    (case mode of IoSend pr cid data \<Rightarrow> \<exists>b al. out = Some b \<and> out_buffer data al = (Ok b :: (status, _) outcome)
     | _ \<Rightarrow> out = None))"
proof (cases mode)
  case (IoSend pr cid data)
  then show ?thesis using assms
    by (cases d) (auto simp: do_io_send_eq logged_ata_def pure_def case_prod_unfold split: if_splits elim!: pbind_cases)
qed (use assms in \<open>auto simp: do_io_recv_eq logged_ata_def case_prod_unfold split: if_splits\<close>)

lemma on_ata_log:
  assumes "mode = IoRecv 1 cid \<or> (\<exists>data. mode = IoSend 1 cid data)"
  shows "only_trusted cid s (snd (on_ata (do_io (logged_ata A) (ata_port s) (ata_pmp s) mode) s))"
proof -
  obtain r d' where d': "do_io (logged_ata A) (ata_port s) (ata_pmp s) mode (ata_fw s) = (r, d')"
    by (metis surj_pair)
  from do_io_log [OF this] assms d' show ?thesis
    by (auto simp: zoom_def only_trusted_def ata_log_def trusted_recv trusted_send)
qed

lemma ata_send_fw:
  "snd (ata_send A pr cid buf s) = snd (on_ata (do_io A (ata_port s) (ata_pmp s) (IoSend pr cid buf)) s)"
  "snd (ata_recv A pr cid buf s) = snd (on_ata (do_io A (ata_port s) (ata_pmp s) (IoRecv pr cid)) s)"
  by (simp_all add: ata_send_def ata_recv_def pbind_def pmap_err_def Let_def pure_def split: prod.splits outcome.splits)

lemma ata_log_methods:
  "keeps (only_trusted cid) (ata_send (logged_ata A) 1 cid buf)" "keeps (only_trusted cid) (ata_recv (logged_ata A) 1 cid buf)"
  by (auto simp: keeps_def ata_send_fw intro!: on_ata_log)

lemma ata_reconnect_log:
  "keeps (only_trusted cid) (\<lambda>s. on_ata (uefi_reconnect (logged_services bs) (ata_handle s)) s)"
  by (simp add: keeps_def only_trusted_def ata_log_def zoom_def case_prod_unfold uefi_reconnect_log)

interpretation ata_commands: protocol_invariant "ata_secure_protocol (logged_ata A) (logged_services bs)" cid "only_trusted cid"
  for A bs cid
  by unfold_locales (simp_all add: only_trusted_preorder ata_secure_protocol_def ata_log_methods ata_reconnect_log)

section \<open>Properties\<close>

text \<open>
  C14: an unlock of a SATA drive, however it ends, gives the firmware no command but Trusted
  Send and Trusted Receive of security protocol 1 for the communication id the drive was opened
  with, on the port of the drive, and sends whole sectors only.
\<close>

theorem ata_unlock_commands:
  assumes "unlock (ata_secure_protocol (logged_ata A) (logged_services bs)) fuel kdf pwd d = (r, d')"
  shows "\<exists>cs. ata_log (device (drive_dev d')) = ata_log (device (drive_dev d)) @ cs \<and>
    (\<forall>(port, pmp, p)\<in>set cs. port = ata_port (device (drive_dev d)) \<and> pmp = ata_pmp (device (drive_dev d)) \<and>
       trusted_command (com_id (drive_dev d)) p)"
  using ata_commands.unlock_keeps [OF assms refl] by (fastforce simp: only_trusted_def)

text \<open>
  What a session hands to a SATA drive arrives as the front of the buffer it sends, the
  rest of the last sector being zero, unless the buffer cannot be laid out.
\<close>

theorem ata_send_pads:
  assumes "layout_ok 2048 (unat (ata_io_align (ap_mode A)))"
    and "layout_ok (length data + 512) (unat (ata_io_align (ap_mode A)))"
  shows "\<exists>p out n. ata_send A pr cid data s =
      (case ap_pass_thru A (ata_port s) (ata_pmp s) p (ata_fw s) of
         (st, _, d') \<Rightarrow> (if st = STATUS_SUCCESS then Ok () else Err (UefiError st), s\<lparr>ata_fw := d'\<rparr>)) \<and>
    out_data_buffer p = Some out \<and> out = data @ replicate n 0 \<and> n < 512 \<and> 512 dvd length out \<and>
    out_transfer_length p = word_of_nat (length out) \<and> features (packet_acb p) = pr"
proof -
  let ?n = "rounded_len (length data) - length data"
  let ?p = "io_packet (ata_pmp s) (IoSend pr cid data) (Some (data @ replicate ?n 0))"
  note b = rounded_len_bounds [of "length data"]
  have "layout_ok (rounded_len (length data)) (unat (ata_io_align (ap_mode A)))"
    using assms(2) b(2) by (auto simp: layout_ok_def)
  then have out: "out_buffer data (unat (ata_io_align (ap_mode A))) = (Ok (data @ replicate ?n 0) :: (status, _) outcome)"
    by (simp add: out_buffer_Ok)
  have "ata_send A pr cid data s =
      (case ap_pass_thru A (ata_port s) (ata_pmp s) ?p (ata_fw s) of
         (st, _, d') \<Rightarrow> (if st = STATUS_SUCCESS then Ok () else Err (UefiError st), s\<lparr>ata_fw := d'\<rparr>))"
    using assms(1) by (simp add: ata_send_def do_io_send_eq out pbind_def pmap_err_def zoom_def pure_def
        to_result_def split: prod.splits)
  moreover have "features (packet_acb ?p) = pr"
    by (simp add: io_packet_def io_command_block_def Let_def security_block_sel)
  ultimately show ?thesis
    using b by (intro exI [of _ ?p] exI [of _ "data @ replicate ?n 0"] exI [of _ ?n]) (simp add: io_packet_def)
qed

text \<open>
  C38: opening a SATA device yields the serial number of the identify data, bytes 20 to 39,
  with the bytes of every 16-bit word exchanged, on the port the firmware names.
\<close>

theorem ata_serial_number:
  assumes "layout_ok 2048 (unat (ata_io_align (ap_mode A)))"
    and "ap_get_device A path d = (STATUS_SUCCESS, (port, pmp), d1)"
    and "\<And>p. ata_command_u8 (acb_command (packet_acb p)) = 0xec \<Longrightarrow> packet_protocol p = PioDataIn \<Longrightarrow>
      ap_pass_thru A port pmp p d1 = (STATUS_SUCCESS, identify, d2)"
    and "40 \<le> length identify" "length identify \<le> 2048"
  shows "\<exists>dv. try_make A path h d = (Ok dv, d2) \<and> length (ata_serial dv) = 20 \<and>
    (\<forall>i<10. ata_serial dv ! (2 * i) = identify ! (20 + 2 * i + 1) \<and> ata_serial dv ! (2 * i + 1) = identify ! (20 + 2 * i)) \<and>
    ata_port dv = port \<and> ata_pmp dv = pmp"
proof -
  let ?v = "take 20 (drop 20 (landed (replicate 2048 0) identify))"
  have v: "?v = take 20 (drop 20 identify)" using assms(4,5) by (simp add: landed_def take_drop)
  have "ap_pass_thru A port pmp (io_packet pmp Identify None) d1 = (STATUS_SUCCESS, identify, d2)"
    by (rule assms(3)) (simp_all add: io_packet_def io_command_block_def)
  then have "do_io A port pmp Identify d1 = (Ok (landed (replicate 2048 0) identify), d2)"
    using assms(1) by (simp add: do_io_recv_eq to_result_def)
  then have "try_make A path h d = (Ok \<lparr>ata_fw = d2, ata_port = port, ata_pmp = pmp, ata_serial = byteswap ?v, ata_handle = h\<rparr>, d2)"
    by (simp add: try_make_def get_serial_num_def uefi_context_def pmap_err_def pbind_def pure_def assms(2) to_result_def)
  moreover have "byteswap ?v ! (2 * i) = identify ! (20 + 2 * i + 1)" "byteswap ?v ! (2 * i + 1) = identify ! (20 + 2 * i)"
    if "i < 10" for i
    using that assms(4) byteswap_nth [of ?v "2 * i"] byteswap_nth [of ?v "2 * i + 1"] unfolding v by simp_all
  ultimately show ?thesis
    using assms(4)
    by (intro exI [of _ "\<lparr>ata_fw = d2, ata_port = port, ata_pmp = pmp, ata_serial = byteswap ?v, ata_handle = h\<rparr>"])
      (simp add: v)
qed

text \<open>A port whose device answers everything with the bytes of a ramp.\<close>

definition ramp_ata :: "unit ata_passthru" where
  "ramp_ata =
     \<lparr>ap_mode = \<lparr>ata_attributes = 0, ata_io_align = 4\<rparr>,
      ap_pass_thru = (\<lambda>port pmp p d. (STATUS_SUCCESS, map word_of_nat [0..<40], d)),
      ap_get_next_port = (\<lambda>n d. (STATUS_SUCCESS, 0, d)),
      ap_get_next_device = (\<lambda>port n d. (STATUS_SUCCESS, 0, d)),
      ap_get_device = (\<lambda>path d. (STATUS_SUCCESS, (2, 5), d))\<rparr>"

lemma ramp_ata_sel [simp]:
  "ap_pass_thru ramp_ata port pmp p d = (STATUS_SUCCESS, map word_of_nat [0..<40], d)"
  "ata_io_align (ap_mode ramp_ata) = 4" "ap_get_device ramp_ata path d = (STATUS_SUCCESS, (2, 5), d)"
  by (simp_all add: ramp_ata_def)

lemma layout_small [simp]: "layout_ok 2048 4" "layout_ok 515 4"
  by (simp_all add: layout_ok_def is_power_of_two_def)

definition ramp_disk :: "'d \<Rightarrow> 'd ata_protocol opal_drive" where
  "ramp_disk d = \<lparr>drive_dev = \<lparr>device = \<lparr>ata_fw = d, ata_port = 2, ata_pmp = 5, ata_serial = [1], ata_handle = 0\<rparr>,
     com_id = 7, is_eprise = False, was_locked = True\<rparr>\<rparr>"

theorem ata_unlock_commands_witness:
  "\<exists>d' cs. unlock (ata_secure_protocol (logged_ata ramp_ata) (logged_services calm_services)) 1 (\<lambda>p s n k. None)
      (Raw (replicate 32 7)) (ramp_disk ((), [])) = d' \<and>
    ata_log (device (drive_dev (snd d'))) = cs \<and> (\<forall>(port, pmp, p)\<in>set cs. port = 2 \<and> pmp = 5 \<and> trusted_command 7 p)"
proof -
  obtain r d' where "unlock (ata_secure_protocol (logged_ata ramp_ata) (logged_services calm_services)) 1 (\<lambda>p s n k. None)
      (Raw (replicate 32 7)) (ramp_disk ((), [])) = (r, d')" by fastforce
  from ata_unlock_commands [OF this] this show ?thesis by (auto simp: ramp_disk_def ata_log_def)
qed

theorem ata_send_pads_witness:
  "\<exists>(p :: ata_packet) out. ata_send ramp_ata 1 7 [1, 2, 3] (device (drive_dev (ramp_disk ()))) = (Ok (), device (drive_dev (ramp_disk ()))) \<and>
    out_data_buffer p = Some out \<and> take 3 out = [1, 2, 3] \<and> 512 dvd length out"
proof -
  let ?s = "device (drive_dev (ramp_disk ()))"
  have "layout_ok 2048 (unat (ata_io_align (ap_mode ramp_ata)))"
    "layout_ok (length [1, 2, 3 :: u8] + 512) (unat (ata_io_align (ap_mode ramp_ata)))" by simp_all
  from ata_send_pads [OF this, of 1 7 ?s]
  obtain p out n where run: "ata_send ramp_ata 1 7 [1, 2, 3] ?s =
      (case ap_pass_thru ramp_ata (ata_port ?s) (ata_pmp ?s) p (ata_fw ?s) of
         (st, _, d') \<Rightarrow> (if st = STATUS_SUCCESS then Ok () else Err (UefiError st), ?s\<lparr>ata_fw := d'\<rparr>))"
    and out: "out_data_buffer p = Some out" "out = [1, 2, 3] @ replicate n 0" "512 dvd length out" by blast
  have "ata_send ramp_ata 1 7 [1, 2, 3] ?s = (Ok (), ?s)" using run by (simp add: ramp_disk_def)
  moreover have "take 3 out = [1, 2, 3]" using out by simp
  ultimately show ?thesis using out by blast
qed

theorem ata_serial_number_witness:
  "\<exists>dv. try_make ramp_ata [] 0 () = ((Ok dv :: (unit greeter_error, _) outcome), ()) \<and> ata_serial dv ! 0 = 21 \<and> ata_serial dv ! 1 = 20 \<and> ata_port dv = 2"
proof -
  obtain dv where "try_make ramp_ata [] 0 () = ((Ok dv :: (unit greeter_error, _) outcome), ())" "ata_port dv = 2"
    "\<forall>i<10. ata_serial dv ! (2 * i) = map word_of_nat [0..<40] ! (20 + 2 * i + 1) \<and>
       ata_serial dv ! (2 * i + 1) = map word_of_nat [0..<40] ! (20 + 2 * i)"
    using ata_serial_number [of ramp_ata "[]" "()" 2 5 "()" "map word_of_nat [0..<40]" "()" 0] by auto
  from this(1,2) spec [OF this(3), of 0] show ?thesis by (intro exI [of _ dv]) simp
qed

text \<open>
  A receive delivers the front of what the device has transferred, zeroes after it; the
  buffer of a session, of 2048 bytes, is filled completely, a longer one keeps its rest.
\<close>

theorem ata_recv_delivers:
  assumes "layout_ok 2048 (unat (ata_io_align (ap_mode A)))" "ata_recv A pr cid buf s = (Ok buf', s')"
  shows "\<exists>bs. ap_pass_thru A (ata_port s) (ata_pmp s) (io_packet (ata_pmp s) (IoRecv pr cid) None) (ata_fw s) =
      (STATUS_SUCCESS, bs, ata_fw s') \<and>
    take (length buf) (take 2048 (bs @ replicate 2048 0)) = take 2048 buf' \<and> drop 2048 buf' = drop 2048 buf"
proof -
  obtain st bs d' where run: "ap_pass_thru A (ata_port s) (ata_pmp s) (io_packet (ata_pmp s) (IoRecv pr cid) None) (ata_fw s) = (st, bs, d')"
    by (metis prod_cases3)
  then have bs: "st = STATUS_SUCCESS" "ata_fw s' = d'"
    and buf': "buf' = overwrite buf 0 (take (min 2048 (length buf)) (landed (replicate 2048 0) bs))"
    using assms by (auto simp: ata_recv_def ok_iff do_io_recv_eq Let_def)
  have land: "landed (replicate 2048 0) bs = take 2048 (bs @ replicate 2048 0)" (is "_ = ?z")
    by (simp add: landed_def)
  define z where "z = ?z"
  have z: "length z = 2048" by (simp add: z_def)
  have "buf' = take (min 2048 (length buf)) z @ drop (min 2048 (length buf)) buf"
    unfolding buf' land overwrite_def z_def [symmetric] using z by simp
  then have "take (length buf) z = take 2048 buf' \<and> drop 2048 buf' = drop 2048 buf"
    using z by (cases "length buf \<le> 2048") simp_all
  then show ?thesis using run bs unfolding z_def by blast
qed

theorem ata_recv_delivers_witness:
  "\<exists>buf'. ata_recv ramp_ata 1 7 (replicate 50 9) (device (drive_dev (ramp_disk ()))) = (Ok buf', device (drive_dev (ramp_disk ()))) \<and>
    take 50 (take 2048 (map word_of_nat [0..<40] @ replicate 2048 0)) = take 2048 buf'"
proof -
  let ?s = "device (drive_dev (ramp_disk ()))"
  obtain buf' where run: "ata_recv ramp_ata 1 7 (replicate 50 9) ?s = (Ok buf', ?s)"
    by (auto simp: ata_recv_def do_io_recv_eq pbind_def pmap_err_def zoom_def to_result_def pure_def Let_def ramp_disk_def)
  from ata_recv_delivers [OF _ run] run show ?thesis by auto
qed

end
