(* ===== verification/Ui.thy ===== *)
theory Ui imports Errors begin

text \<open>
  The text interface: \<^verbatim>\<open>src/ui.rs\<close> and the timer of \<^verbatim>\<open>src/util.rs\<close>. The console and the
  timer are the firmware's, a record of operations on the state \<open>'w\<close> of the machine. Fuel
  bounds the number of keys and wake-ups that a prompt sees; it has none in the code.

  The specification side is a console fed from a list of keys: prompts on it are line editing,
  and the menu is a walk around the selectable entries.
\<close>

section \<open>The console\<close>

datatype scan_code = ScanCode u16

definition SCAN_UP :: scan_code where "SCAN_UP = ScanCode 0x01"
definition SCAN_DOWN :: scan_code where "SCAN_DOWN = ScanCode 0x02"
definition SCAN_ESCAPE :: scan_code where "SCAN_ESCAPE = ScanCode 0x17"

lemmas scan_code_defs = SCAN_UP_def SCAN_DOWN_def SCAN_ESCAPE_def

datatype uefi_key = Printable u16 | Special scan_code

text \<open>
  \<open>con_write_str\<close> is \<^verbatim>\<open>fmt::Write::write_str\<close> of the crate's output, which reports success or
  failure only.
\<close>

record 'w console =
  con_read_key :: "('w, status, uefi_key option) prog"
  con_wait_for_key :: "('w, status, unit) prog"
  con_output_string :: "u16 list \<Rightarrow> ('w, status, unit) prog"
  con_write_str :: "string \<Rightarrow> 'w \<Rightarrow> bool \<times> 'w"
  con_cursor_row :: "'w \<Rightarrow> u64"
  con_set_cursor :: "u64 \<Rightarrow> u64 \<Rightarrow> ('w, status, unit) prog"
  con_create_timer :: "('w, status, nat) prog"
  con_set_timer :: "nat \<Rightarrow> u64 \<Rightarrow> ('w, status, unit) prog"
  con_wait_for_event :: "nat \<Rightarrow> ('w, status, unit) prog"
  con_stall :: "u64 \<Rightarrow> 'w \<Rightarrow> 'w"

text \<open>\<^verbatim>\<open>unwrap\<close> of a firmware call.\<close>

definition unwrapped :: "('w, 'e, 'a) prog \<Rightarrow> ('w, 'f, 'a) prog" where
  "unwrapped m w = (case m w of (Ok a, w') \<Rightarrow> (Ok a, w') | (Err e, w') \<Rightarrow> (Panic, w') | (Halt h, w') \<Rightarrow> (Halt h, w'))"

definition write_str :: "'w console \<Rightarrow> string \<Rightarrow> ('w, 'e, unit) prog" where
  "write_str C str w = (case con_write_str C str w of (b, w') \<Rightarrow> (if b then Ok () else Panic, w'))"

section \<open>Sleeping\<close>

text \<open>The event that is set and waited for is the same one; it is not closed.\<close>

definition sleep :: "'w console \<Rightarrow> u64 \<Rightarrow> u32 \<Rightarrow> ('w, 'e, unit) prog" where
  "sleep C secs subsec_nanos w =
     (let nanos = secs * 1000000000 + ucast subsec_nanos in
      case con_create_timer C w of
        (Ok event, w') \<Rightarrow>
          pbind (unwrapped (con_set_timer C event (nanos div 100))) (\<lambda>_. unwrapped (con_wait_for_event C event)) w'
      | (Err s, w') \<Rightarrow> if s = STATUS_INVALID_PARAMETER then (Ok (), con_stall C (nanos div 1000) w') else (Panic, w')
      | (Halt h, w') \<Rightarrow> (Halt h, w'))"

section \<open>Keys\<close>

fun key :: "'w console \<Rightarrow> nat \<Rightarrow> ('w, 'x greeter_error, uefi_key) prog" where
  "key C 0 = pure (Halt OutOfFuel)"
| "key C (Suc fuel) =
     pbind (uefi_context ''error waiting for key event'' (con_wait_for_key C)) (\<lambda>_.
     pbind (uefi_context ''error reading key'' (con_read_key C)) (\<lambda>k.
     case k of Some c \<Rightarrow> pure (Ok c) | None \<Rightarrow> key C fuel))"

fun drain_keys :: "'w console \<Rightarrow> nat \<Rightarrow> ('w, 'x greeter_error, unit) prog" where
  "drain_keys C 0 = pure (Halt OutOfFuel)"
| "drain_keys C (Suc fuel) =
     pbind (uefi_context ''can't read key to consume old stale events'' (con_read_key C)) (\<lambda>k.
     case k of Some c \<Rightarrow> drain_keys C fuel | None \<Rightarrow> pure (Ok ()))"

definition consume_old_keypresses :: "'w console \<Rightarrow> nat \<Rightarrow> ('w, 'x greeter_error, unit) prog" where
  "consume_old_keypresses C fuel = pbind (sleep C 0 10000000) (\<lambda>_. drain_keys C fuel)"

section \<open>Reading a line\<close>

definition write_char :: "'w console \<Rightarrow> u16 \<Rightarrow> ('w, 'x greeter_error, unit) prog" where
  "write_char C ch = uefi_context '''' (con_output_string C [ch, 0])"

fun read_loop :: "'w console \<Rightarrow> nat \<Rightarrow> u16 option \<Rightarrow> u16 list \<Rightarrow> ('w, 'x greeter_error, u16 list) prog" where
  "read_loop C 0 replacement data = pure (Halt OutOfFuel)"
| "read_loop C (Suc fuel) replacement data =
     pbind (key C (Suc fuel)) (\<lambda>k.
     case k of
       Printable k \<Rightarrow>
         (if k \<in> {0xD, 0xA} \<and> data \<noteq> [] then
            pbind (write_char C 0x0D) (\<lambda>_. pbind (write_char C 0x0A) (\<lambda>_. pure (Ok data)))
          else if k = 0x8 then
            (if data \<noteq> []
             then pbind (write_char C 0x08) (\<lambda>_. read_loop C fuel replacement (butlast data))
             else read_loop C fuel replacement data)
          else
            pbind (write_char C (case replacement of Some c \<Rightarrow> c | None \<Rightarrow> k)) (\<lambda>_.
            read_loop C fuel replacement (data @ [k])))
     | Special sc \<Rightarrow> (if sc = SCAN_ESCAPE then pure (Halt (ResetTo SHUTDOWN)) else read_loop C fuel replacement data))"

definition password :: "'w console \<Rightarrow> nat \<Rightarrow> ('w, 'x greeter_error, u16 list) prog" where
  "password C fuel = pbind (consume_old_keypresses C fuel) (\<lambda>_. read_loop C fuel (Some 0x2A) [])"

definition line :: "'w console \<Rightarrow> nat \<Rightarrow> ('w, 'x greeter_error, u16 list) prog" where
  "line C fuel = pbind (consume_old_keypresses C fuel) (\<lambda>_. read_loop C fuel None [])"

section \<open>The menu\<close>

text \<open>
  \<^verbatim>\<open>next_selectable\<close>: the index is an \<^verbatim>\<open>i32\<close>, its conversion to \<^verbatim>\<open>usize\<close> extends the sign.
\<close>

fun next_selectable_loop :: "nat \<Rightarrow> u32 \<Rightarrow> (bool \<times> 'a) list \<Rightarrow> u32 \<Rightarrow> ('e, nat) outcome" where
  "next_selectable_loop 0 dir options i = Halt OutOfFuel"
| "next_selectable_loop (Suc fuel) dir options i =
     (let i = i + dir;
          i = (if i = word_of_nat (length options) then 0
               else if i = - 1 then ucast (word_of_nat (length options) - 1 :: u64)
               else i)
      in obind (index options (unat (scast i :: u64))) (\<lambda>opt.
         if fst opt then Ok (unat (scast i :: u64)) else next_selectable_loop fuel dir options i))"

definition next_selectable :: "nat \<Rightarrow> nat \<Rightarrow> (bool \<times> 'a) list \<Rightarrow> bool \<Rightarrow> ('e, nat) outcome" where
  "next_selectable fuel current options up =
     next_selectable_loop fuel (if up then - 1 else 1) options (word_of_nat current)"

definition draw_menu :: "'w console \<Rightarrow> u64 \<Rightarrow> (bool \<times> string) list \<Rightarrow> nat \<Rightarrow> ('w, 'x greeter_error, unit) prog" where
  "draw_menu C next_row options chosen w =
     (let row = con_cursor_row C w in
      pbind (uefi_context ''can't set cursor position to overwrite old `>`'' (con_set_cursor C 0 row)) (\<lambda>_.
      pbind (write_str C '' '') (\<lambda>_.
      pbind (uefi_context ''can't set cursor position to write `>`''
        (con_set_cursor C 0 (next_row - word_of_nat (length options) + word_of_nat chosen))) (\<lambda>_.
      write_str C ''>''))) w)"

text \<open>The two loops in one: \<open>redraw\<close> tells whether the outer one begins again.\<close>

fun choose_loop ::
  "'w console \<Rightarrow> nat \<Rightarrow> u64 \<Rightarrow> (bool \<times> string) list \<Rightarrow> nat \<Rightarrow> bool \<Rightarrow> ('w, 'x greeter_error, nat) prog" where
  "choose_loop C 0 next_row options chosen redraw = pure (Halt OutOfFuel)"
| "choose_loop C (Suc fuel) next_row options chosen redraw =
     pbind (if redraw then draw_menu C next_row options chosen else pure (Ok ())) (\<lambda>_.
     pbind (key C (Suc fuel)) (\<lambda>k.
     if k = Special SCAN_DOWN then
       pbind (pure (next_selectable (length options) chosen options False)) (\<lambda>c. choose_loop C fuel next_row options c True)
     else if k = Special SCAN_UP then
       pbind (pure (next_selectable (length options) chosen options True)) (\<lambda>c. choose_loop C fuel next_row options c True)
     else if k = Printable 0xD \<or> k = Printable 0xA then
       pbind (uefi_context ''can't reset cursor position'' (con_set_cursor C 0 next_row)) (\<lambda>_. pure (Ok chosen))
     else choose_loop C fuel next_row options chosen False))"

definition menu_text :: "(bool \<times> string) list \<Rightarrow> string" where
  "menu_text options = concat (map (\<lambda>opt. ''  '' @ snd opt @ [CHR 0x0D, CHR 0x0A]) options)"

definition ui_choose :: "'w console \<Rightarrow> nat \<Rightarrow> (bool \<times> string) list \<Rightarrow> ('w, 'x greeter_error, nat) prog" where
  "ui_choose C fuel options =
     pbind (consume_old_keypresses C fuel) (\<lambda>_.
     pbind (pure (index options 0)) (\<lambda>opt.
     pbind (pure (if fst opt then Ok 0 else next_selectable (length options) 0 options False)) (\<lambda>chosen.
     pbind (write_str C (menu_text options)) (\<lambda>_ w.
     choose_loop C fuel (con_cursor_row C w) options chosen True w))))"

section \<open>Walking around the menu\<close>

text \<open>Indices below \<open>2 ^ 31\<close> survive the conversions; the wrap-around of the code is modular.\<close>

lemma index_word:
  assumes "i < 2 ^ 31"
  shows "unat (scast (word_of_nat i :: u32) :: u64) = i"
proof -
  have i: "i < 2 ^ 32" "i < 2 ^ 64" using assms by simp_all
  have "int i < int (2 ^ 31)" using assms by (simp only: of_nat_less_iff)
  then have s: "signed_take_bit 31 (int i) = int i"
    by (intro signed_take_bit_int_eq_self) simp_all
  have "unat (word_of_nat i :: u32) = i" using unat_of_nat_small [of i, where 'a = 32] i(1) by simp
  then have "uint (word_of_nat i :: u32) = int i" by (simp only: uint_nat)
  then have "sint (word_of_nat i :: u32) = int i"
    using s by (simp add: sint_uint)
  then have "(scast (word_of_nat i :: u32) :: u64) = word_of_nat i"
    by (simp add: scast_eq)
  then show ?thesis using unat_of_nat_small [of i, where 'a = 64] i(2) by simp
qed

lemma word_index_inj: "i < 2 ^ 31 \<Longrightarrow> j < 2 ^ 31 \<Longrightarrow> (word_of_nat i :: u32) = word_of_nat j \<longleftrightarrow> i = j"
  by (metis index_word)

lemma word_index_not_m1: "i < 2 ^ 31 \<Longrightarrow> (word_of_nat i :: u32) \<noteq> - 1"
proof
  assume i: "i < 2 ^ 31" "(word_of_nat i :: u32) = - 1"
  have "unat (- 1 :: u32) = 2 ^ 32 - 1" by (simp add: unsigned_minus_1_eq_mask mask_eq_exp_minus_1)
  then show False using i unat_of_nat_small [of i, where 'a = 32] by simp
qed

lemma last_index_word:
  assumes "0 < n" "n < 2 ^ 31"
  shows "(ucast (word_of_nat n - 1 :: u64) :: u32) = word_of_nat (n - 1)"
proof -
  have "(word_of_nat n - 1 :: u64) = word_of_nat (n - 1)" using assms(1) by (simp add: of_nat_diff)
  moreover have "unat (word_of_nat (n - 1) :: u64) = n - 1"
    using unat_of_nat_small [of "n - 1", where 'a = 64] assms(2) by simp
  moreover have "(ucast x :: u32) = word_of_nat (unat x)" for x :: u64 by simp
  ultimately show ?thesis by metis
qed

lemma wrap_down:
  assumes "i < n" "n < 2 ^ 31"
  shows "(let i = word_of_nat i + 1 in if i = word_of_nat n then 0 else if i = - 1 then ucast (word_of_nat n - 1 :: u64) else i)
    = (word_of_nat ((i + 1) mod n) :: u32)"
proof -
  have e: "(word_of_nat i + 1 :: u32) = word_of_nat (i + 1)" by simp
  show ?thesis
  proof (cases "i + 1 = n")
    case False
    then show ?thesis
      unfolding e Let_def using assms word_index_inj [of "i + 1" n] word_index_not_m1 [of "i + 1"] by simp
  qed (simp add: e Let_def)
qed

lemma wrap_up:
  assumes "i < n" "n < 2 ^ 31"
  shows "(let i = word_of_nat i + - 1 in if i = word_of_nat n then 0 else if i = - 1 then ucast (word_of_nat n - 1 :: u64) else i)
    = (word_of_nat ((i + (n - 1)) mod n) :: u32)"
proof (cases i)
  case 0
  then show ?thesis using assms word_index_not_m1 [of n] last_index_word [of n] by (simp add: Let_def)
next
  case (Suc j)
  then have e: "(word_of_nat i + - 1 :: u32) = word_of_nat j" by simp
  have "(i + (n - 1)) mod n = j" using Suc assms(1) by (simp add: mod_if)
  then show ?thesis
    unfolding e Let_def using Suc assms word_index_inj [of j n] word_index_not_m1 [of j] by simp
qed

text \<open>
  The specification: the positions of a walk from \<open>i\<close> around \<open>n\<close> entries, the \<open>k\<close>-th one in
  closed form, and the first selectable of them.
\<close>

definition selectable :: "(bool \<times> 'a) list \<Rightarrow> nat \<Rightarrow> bool" where
  "selectable options i \<longleftrightarrow> i < length options \<and> fst (options ! i)"

definition walk :: "nat \<Rightarrow> bool \<Rightarrow> nat \<Rightarrow> nat \<Rightarrow> nat" where
  "walk n up i k = (i + (if up then n - 1 else 1) * k) mod n"

lemma walk_less: "0 < n \<Longrightarrow> walk n up i k < n"
  by (simp add: walk_def)

lemma walk_Suc: "walk n up (walk n up i 1) k = walk n up i (Suc k)"
  by (simp add: walk_def mod_simps algebra_simps)

lemma walk_reaches:
  assumes "i < n" "j < n"
  shows "\<exists>k. 1 \<le> k \<and> k \<le> n \<and> walk n up i k = j"
proof (cases up)
  case True
  obtain m where m: "n = Suc m" using assms(1) by (cases n) auto
  show ?thesis
  proof (cases "j < i")
    case True
    define k where "k = i - j"
    then have k: "i = j + k" "1 \<le> k" "k \<le> n" using True assms(1) by auto
    then have "i + (n - 1) * k = j + n * k" by (simp add: m)
    then have "walk n up i k = j" using \<open>up\<close> assms(2) by (simp only: walk_def if_True mod_mult_self2 mod_less)
    then show ?thesis using k by blast
  next
    case False
    define l where "l = i + n - Suc j"
    then have l: "j + Suc l = i + n" "l < n" using False assms by auto
    then have "i + (n - 1) * Suc l = j + n * l" by (simp add: m)
    then have "walk n up i (Suc l) = j" using \<open>up\<close> assms(2) by (simp only: walk_def if_True mod_mult_self2 mod_less)
    then show ?thesis using l by (intro exI [of _ "Suc l"]) simp
  qed
next
  case False
  define k where "k = (if i < j then j - i else j + n - i)"
  have "1 \<le> k" "k \<le> n" "i + k = j \<or> i + k = j + n" using assms by (auto simp: k_def)
  then show ?thesis using False assms by (intro exI [of _ k]) (auto simp: walk_def)
qed

lemma next_selectable_loop_walk:
  assumes "i < length options" "length options < 2 ^ 31"
  shows "next_selectable_loop (Suc fuel) (if up then - 1 else 1) options (word_of_nat i) =
    (let j = walk (length options) up i 1 in
     if selectable options j then Ok j
     else next_selectable_loop fuel (if up then - 1 else 1) options (word_of_nat j))"
proof -
  let ?n = "length options" and ?j = "walk (length options) up i 1"
  have j: "?j < ?n" using assms by (intro walk_less) auto
  have w: "(let i = word_of_nat i + (if up then - 1 else 1) in
      if i = word_of_nat ?n then 0 else if i = - 1 then ucast (word_of_nat ?n - 1 :: u64) else i)
    = (word_of_nat ?j :: u32)"
    using wrap_down [OF assms] wrap_up [OF assms] by (simp add: walk_def)
  have "unat (scast (word_of_nat ?j :: u32) :: u64) = ?j" using j assms(2) by (intro index_word) simp
  with w j show ?thesis by (simp add: Let_def index_def selectable_def)
qed

lemma next_selectable_loop_spec:
  assumes "length options < 2 ^ 31" "i < length options" "1 \<le> k" "k \<le> fuel"
    "selectable options (walk (length options) up i k)"
    "\<And>m. 1 \<le> m \<Longrightarrow> m < k \<Longrightarrow> \<not> selectable options (walk (length options) up i m)"
  shows "next_selectable_loop fuel (if up then - 1 else 1) options (word_of_nat i) = Ok (walk (length options) up i k)"
  using assms(2-)
proof (induction k arbitrary: i fuel)
  case (Suc k)
  let ?j = "walk (length options) up i 1"
  obtain f where f: "fuel = Suc f" using Suc.prems by (cases fuel) auto
  show ?case
  proof (cases "k = 0")
    case True
    then show ?thesis using Suc.prems unfolding f next_selectable_loop_walk [OF Suc.prems(1) assms(1)] by (simp add: Let_def)
  next
    case False
    then have "\<not> selectable options ?j" using Suc.prems(5) [of 1] by simp
    moreover have "?j < length options" using Suc.prems(1) by (intro walk_less) auto
    moreover have "\<not> selectable options (walk (length options) up ?j m)" if "1 \<le> m" "m < k" for m
      using Suc.prems(5) [of "Suc m"] that unfolding walk_Suc by simp
    ultimately show ?thesis
      using Suc.IH [of ?j f] Suc.prems False unfolding f next_selectable_loop_walk [OF Suc.prems(1) assms(1)]
      by (cases up) (simp_all add: Let_def walk_Suc [simplified])
  qed
qed simp

lemma next_selectable_first:
  assumes "length options < 2 ^ 31" "i < length options" "\<exists>j. selectable options j" "length options \<le> fuel"
  shows "\<exists>k. 1 \<le> k \<and> k \<le> length options \<and> next_selectable fuel i options up = Ok (walk (length options) up i k) \<and>
    selectable options (walk (length options) up i k) \<and>
    (\<forall>m. 1 \<le> m \<longrightarrow> m < k \<longrightarrow> \<not> selectable options (walk (length options) up i m))"
proof -
  let ?P = "\<lambda>k. 1 \<le> k \<and> selectable options (walk (length options) up i k)"
  obtain j where j: "selectable options j" using assms(3) by blast
  then have "j < length options" by (simp add: selectable_def)
  then obtain k where k: "1 \<le> k" "k \<le> length options" "walk (length options) up i k = j"
    using walk_reaches [OF assms(2)] by blast
  then have "?P k" using j by simp
  define l where "l = (LEAST k. ?P k)"
  have l: "?P l" "l \<le> k" unfolding l_def by (rule LeastI [of ?P, OF \<open>?P k\<close>]) (rule Least_le [of ?P, OF \<open>?P k\<close>])
  moreover have "\<not> selectable options (walk (length options) up i m)" if "1 \<le> m" "m < l" for m
    using not_less_Least [of m ?P] that unfolding l_def by blast
  ultimately show ?thesis
    using next_selectable_loop_spec [OF assms(1,2), of l fuel up] k assms(4)
    by (intro exI [of _ l]) (auto simp: next_selectable_def)
qed

lemma next_selectable_none:
  assumes "\<not> (\<exists>j. selectable options j)" "length options < 2 ^ 31" "i < length options"
  shows "next_selectable fuel i options up = Halt OutOfFuel"
proof -
  have "next_selectable_loop fuel (if up then - 1 else 1) options (word_of_nat i) = Halt OutOfFuel"
    using assms(3)
  proof (induction fuel arbitrary: i)
    case (Suc fuel)
    moreover have "walk (length options) up i 1 < length options" using Suc.prems by (intro walk_less) auto
    ultimately show ?case
      unfolding next_selectable_loop_walk [OF Suc.prems assms(2)] using assms(1) by (simp add: Let_def)
  qed simp
  then show ?thesis by (simp add: next_selectable_def)
qed

section \<open>The menu selects what can be selected\<close>

lemma next_selectable_loop_selectable:
  "next_selectable_loop fuel dir options i = Ok j \<Longrightarrow> selectable options j"
  by (induction fuel arbitrary: i) (auto simp: Let_def ok_iff selectable_def simp del: of_nat_diff split: if_splits)

lemma choose_loop_selectable:
  assumes "choose_loop C fuel next_row options chosen redraw w = (Ok i, w')" "selectable options chosen"
  shows "selectable options i"
  using assms
proof (induction fuel arbitrary: chosen redraw w)
  case (Suc fuel)
  from Suc.prems(1) show ?case
    unfolding choose_loop.simps pbind_Ok_iff
    using Suc.prems(2)
    by (auto simp: ok_iff next_selectable_def simp del: key.simps split: if_splits
        dest!: next_selectable_loop_selectable dest: Suc.IH)
qed (simp add: ok_iff)

lemma choose_selectable:
  assumes "ui_choose C fuel options w = (Ok i, w')"
  shows "selectable options i"
  using assms unfolding ui_choose_def pbind_Ok_iff
  by (auto simp: ok_iff next_selectable_def selectable_def split: if_splits
      dest!: next_selectable_loop_selectable choose_loop_selectable)

section \<open>Line editing\<close>

text \<open>
  The keys that make up a line: enter ends a line that is not empty, backspace takes back the
  last character, other printable keys are added, special keys are ignored. The result is the line and the
  keys after it, or nothing while the line is not finished.
\<close>

fun edit_line :: "u16 list \<Rightarrow> uefi_key list \<Rightarrow> (u16 list \<times> uefi_key list) option" where
  "edit_line data [] = None"
| "edit_line data (Printable k # ks) =
     (if k \<in> {0xD, 0xA} \<and> data \<noteq> [] then Some (data, ks)
      else if k = 0x8 then edit_line (butlast data) ks
      else edit_line (data @ [k]) ks)"
| "edit_line data (Special sc # ks) = (if sc = SCAN_ESCAPE then None else edit_line data ks)"

text \<open>Plain text followed by enter is the text, unless it is empty.\<close>

definition plain :: "u16 list \<Rightarrow> bool" where
  "plain line_text \<longleftrightarrow> (\<forall>k\<in>set line_text. k \<notin> {0xD, 0xA, 0x8})"

lemma edit_line_plain:
  "plain line_text \<Longrightarrow> data @ line_text \<noteq> [] \<Longrightarrow> edit_line data (map Printable line_text @ Printable 0xD # ks) = Some (data @ line_text, ks)"
  by (induction line_text arbitrary: data) (auto simp: plain_def)

text \<open>
  A console with keys that are pending when the program begins to look and keys that come
  while it waits; \<open>screen\<close> is what is written to it. Waiting without a key to come does not end.
\<close>

record typed =
  pending :: "uefi_key list"
  coming :: "uefi_key list"
  screen :: "u16 list"

definition typed_console :: "typed console" where
  "typed_console =
     \<lparr>con_read_key = (\<lambda>w. case pending w of [] \<Rightarrow> (Ok None, w) | k # ks \<Rightarrow> (Ok (Some k), w\<lparr>pending := ks\<rparr>)),
      con_wait_for_key = (\<lambda>w. if pending w \<noteq> [] then (Ok (), w) else
        (case coming w of [] \<Rightarrow> (Halt OutOfFuel, w) | k # ks \<Rightarrow> (Ok (), w\<lparr>pending := [k], coming := ks\<rparr>))),
      con_output_string = (\<lambda>str w. (Ok (), w\<lparr>screen := screen w @ butlast str\<rparr>)),
      con_write_str = (\<lambda>str w. (True, w\<lparr>screen := screen w @ map of_char str\<rparr>)),
      con_cursor_row = (\<lambda>w. 0),
      con_set_cursor = (\<lambda>x y w. (Ok (), w)),
      con_create_timer = (\<lambda>w. (Ok 0, w)),
      con_set_timer = (\<lambda>e t w. (Ok (), w)),
      con_wait_for_event = (\<lambda>e w. (Ok (), w)),
      con_stall = (\<lambda>t w. w)\<rparr>"

lemma typed_drain:
  "length ks < fuel \<Longrightarrow> drain_keys typed_console fuel \<lparr>pending = ks, coming = cs, screen = s\<rparr> =
     (Ok (), \<lparr>pending = [], coming = cs, screen = s\<rparr>)"
proof (induction ks arbitrary: fuel)
  case Nil
  then show ?case by (cases fuel) (auto simp: pbind_def pure_def uefi_context_def pmap_err_def typed_console_def)
next
  case (Cons k ks)
  then obtain f where "fuel = Suc f" by (cases fuel) auto
  with Cons show ?case by (simp add: pbind_def uefi_context_def pmap_err_def typed_console_def)
qed

lemma typed_sleep: "sleep typed_console a b w = (Ok (), w)"
  by (simp add: sleep_def pbind_def unwrapped_def typed_console_def)

lemma typed_consume:
  "length ks < fuel \<Longrightarrow> consume_old_keypresses typed_console fuel \<lparr>pending = ks, coming = cs, screen = s\<rparr> =
     (Ok (), \<lparr>pending = [], coming = cs, screen = s\<rparr>)"
  using typed_drain [of ks fuel cs s] by (simp add: consume_old_keypresses_def pbind_def typed_sleep)

lemma typed_key:
  "key typed_console (Suc fuel) \<lparr>pending = [], coming = k # ks, screen = s\<rparr> = (Ok k, \<lparr>pending = [], coming = ks, screen = s\<rparr>)"
  by (simp add: pbind_def uefi_context_def pmap_err_def typed_console_def pure_def)

lemma typed_key_bind:
  "pbind (key typed_console (Suc fuel)) g \<lparr>pending = [], coming = k # ks, screen = s\<rparr> = g k \<lparr>pending = [], coming = ks, screen = s\<rparr>"
  by (rule pbind_run) (rule typed_key)

lemma typed_write:
  "write_char typed_console c \<lparr>pending = p, coming = ks, screen = s\<rparr> = (Ok (), \<lparr>pending = p, coming = ks, screen = s @ [c]\<rparr>)"
  by (simp add: write_char_def uefi_context_def pmap_err_def typed_console_def)

lemma typed_write_bind:
  "pbind (write_char typed_console c) g \<lparr>pending = p, coming = ks, screen = s\<rparr> = g () \<lparr>pending = p, coming = ks, screen = s @ [c]\<rparr>"
  by (rule pbind_run) (rule typed_write)

text \<open>What may appear on the screen while a line is read.\<close>

definition echo_ok :: "u16 option \<Rightarrow> u16 list \<Rightarrow> bool" where
  "echo_ok replacement e \<longleftrightarrow> (\<forall>c. replacement = Some c \<longrightarrow> set e \<subseteq> {c, 0x8, 0xD, 0xA})"

lemma echo_ok_step: "echo_ok r e \<Longrightarrow> c \<in> {0x8, 0xD, 0xA} \<or> r = Some c \<or> r = None \<Longrightarrow> echo_ok r (c # e)"
  by (auto simp: echo_ok_def)

lemma typed_read_loop:
  assumes "edit_line data ks = Some (line_text, rest)" "length ks \<le> fuel"
  shows "\<exists>e. read_loop typed_console fuel r data \<lparr>pending = [], coming = ks, screen = s\<rparr> =
    (Ok line_text, \<lparr>pending = [], coming = rest, screen = s @ e\<rparr>) \<and> echo_ok r e"
  using assms
proof (induction ks arbitrary: data s fuel)
  case (Cons k ks)
  then obtain f where f: "fuel = Suc f" "length ks \<le> f" by (cases fuel) auto
  note run = read_loop.simps(2) [of typed_console f r data] typed_key_bind typed_write_bind
  note IH = Cons.IH [OF _ f(2)]
  show ?case
  proof (cases k)
    case (Special sc)
    then show ?thesis using IH [of data s] Cons.prems(1) by (auto simp del: key.simps simp: f(1) run split: if_splits)
  next
    case (Printable c)
    consider "c \<in> {0xD, 0xA} \<and> data \<noteq> []" | "\<not> (c \<in> {0xD, 0xA} \<and> data \<noteq> [])" "c = 0x8" "data \<noteq> []"
      | "c = 0x8" "data = []" | "\<not> (c \<in> {0xD, 0xA} \<and> data \<noteq> [])" "c \<noteq> 0x8" by blast
    then show ?thesis
    proof cases
      case 1
      then show ?thesis using Cons.prems(1)
        by (intro exI [of _ "[0xD, 0xA]"]) (auto simp del: key.simps simp: f(1) run Printable pure_def echo_ok_def)
    next
      case 2
      then show ?thesis using IH [of "butlast data" "s @ [0x8]"] Cons.prems(1)
        by (auto simp del: key.simps simp: f(1) run Printable) (metis append_Cons append_Nil append_assoc echo_ok_step insertI1)
    next
      case 3
      then show ?thesis using IH [of "[]" s] Cons.prems(1) by (auto simp del: key.simps simp: f(1) run Printable)
    next
      case 4
      define e where "e = (case r of Some c \<Rightarrow> c | None \<Rightarrow> c)"
      then have "r = Some e \<or> r = None" by (cases r) auto
      then show ?thesis using IH [of "data @ [c]" "s @ [e]"] Cons.prems(1) 4
        by (auto simp del: key.simps simp: f(1) run Printable e_def [symmetric]) (metis append_Cons append_Nil append_assoc echo_ok_step)+
    qed
  qed
qed simp

lemma typed_password:
  assumes "length stale < fuel"
  shows "password typed_console fuel \<lparr>pending = stale, coming = ks, screen = s\<rparr> =
    read_loop typed_console fuel (Some 0x2A) [] \<lparr>pending = [], coming = ks, screen = s\<rparr>"
  unfolding password_def by (rule pbind_run) (rule typed_consume [OF assms])

section \<open>Properties\<close>

text \<open>
  C21: moving in the menu goes to the next selectable entry around the list, in the direction of
  the key, coming back to the entry itself if it is the only one; as many steps as there are
  entries are enough to find it.
\<close>

theorem next_selectable_cyclic:
  assumes "length options < 2 ^ 31" "i < length options" "\<exists>j. selectable options j"
  shows "\<exists>k. 1 \<le> k \<and> k \<le> length options \<and>
    (\<forall>fuel \<ge> length options. next_selectable fuel i options up = (Ok (walk (length options) up i k) :: ('e, nat) outcome)) \<and>
    selectable options (walk (length options) up i k) \<and>
    (\<forall>m. 1 \<le> m \<longrightarrow> m < k \<longrightarrow> \<not> selectable options (walk (length options) up i m))"
proof -
  obtain k where k: "1 \<le> k" "k \<le> length options" "selectable options (walk (length options) up i k)"
    "\<forall>m. 1 \<le> m \<longrightarrow> m < k \<longrightarrow> \<not> selectable options (walk (length options) up i m)"
    using next_selectable_first [OF assms order.refl, of up, where 'b = unit] by blast
  have "next_selectable fuel i options up = (Ok (walk (length options) up i k) :: ('e, nat) outcome)"
    if "length options \<le> fuel" for fuel
    using next_selectable_loop_spec [OF assms(1,2) k(1) _ k(3), of fuel] k(2,4) that by (simp add: next_selectable_def)
  with k show ?thesis by blast
qed

theorem next_selectable_cyclic_witness:
  "\<exists>k. next_selectable 3 0 [(True, ''a''), (False, ''b''), (True, ''c'')] True = (Ok (walk 3 True 0 k) :: (unit, nat) outcome) \<and>
    selectable [(True, ''a''), (False, ''b''), (True, ''c'')] (walk 3 True 0 k)"
proof -
  let ?o = "[(True, ''a''), (False, ''b''), (True, ''c'')]"
  have "selectable ?o 0" by (simp add: selectable_def)
  then obtain k where "\<forall>fuel \<ge> length ?o. next_selectable fuel 0 ?o True = (Ok (walk (length ?o) True 0 k) :: (unit, nat) outcome)"
    "selectable ?o (walk (length ?o) True 0 k)"
    using next_selectable_cyclic [of ?o 0 True] by auto
  then show ?thesis by (intro exI [of _ k]) (simp add: numeral_3_eq_3)
qed

text \<open>
  C20: whatever the console does, an entry that the menu returns is one of the list and
  selectable.
\<close>

theorem choose_selects:
  assumes "ui_choose C fuel options w = (Ok i, w')"
  shows "i < length options \<and> fst (options ! i)"
  using choose_selectable [OF assms] by (simp add: selectable_def)

lemma typed_write_str: "write_str typed_console str w = (Ok (), w\<lparr>screen := screen w @ map of_char str\<rparr>)"
  by (simp add: write_str_def typed_console_def)

lemma typed_cursor:
  "con_set_cursor typed_console x y w = (Ok (), w)" "con_cursor_row typed_console w = 0"
  by (simp_all add: typed_console_def)

lemma typed_draw: "\<exists>s'. draw_menu typed_console r options c w = (Ok (), w\<lparr>screen := s'\<rparr>)"
  by (auto simp: draw_menu_def pbind_def uefi_context_def pmap_err_def typed_cursor typed_write_str Let_def)

theorem choose_selects_witness:
  "\<exists>i. fst (ui_choose typed_console (Suc (Suc 0)) [(True, ''a''), (True, ''b'')]
      \<lparr>pending = [], coming = [Special SCAN_DOWN, Printable 0xD], screen = []\<rparr>) = (Ok i :: (unit greeter_error, nat) outcome) \<and> i < 2"
proof -
  let ?o = "[(True, ''a''), (True, ''b'')]" and ?w = "\<lambda>ks s. \<lparr>pending = [], coming = ks, screen = s\<rparr>"
  have b: "next_selectable (Suc (Suc 0)) 0 ?o False = (Ok (Suc 0) :: (unit greeter_error, nat) outcome)"
    by (simp add: next_selectable_def Let_def index_def)
  have loop: "\<exists>w'. choose_loop typed_console (Suc (Suc 0)) r ?o 0 True (?w [Special SCAN_DOWN, Printable 0xD] s) =
      ((Ok 1 :: (unit greeter_error, nat) outcome), w')" for r s
  proof -
    obtain s1 where s1: "draw_menu typed_console r ?o 0 (?w [Special SCAN_DOWN, Printable 0xD] s) =
        ((Ok () :: (unit greeter_error, unit) outcome), ?w [Special SCAN_DOWN, Printable 0xD] s1)"
      using typed_draw [of r ?o 0 "?w [Special SCAN_DOWN, Printable 0xD] s"] by auto
    obtain s2 where s2: "draw_menu typed_console r ?o 1 (?w [Printable 0xD] s1) =
        ((Ok () :: (unit greeter_error, unit) outcome), ?w [Printable 0xD] s2)"
      using typed_draw [of r ?o 1 "?w [Printable 0xD] s1"] by auto
    show ?thesis
      by (simp add: pbind_def s1 [unfolded scan_code_defs] s2 [simplified] typed_key b pure_def scan_code_defs uefi_context_def pmap_err_def
          typed_cursor del: key.simps)
  qed
  obtain i w' where "ui_choose typed_console (Suc (Suc 0)) ?o (?w [Special SCAN_DOWN, Printable 0xD] []) =
      ((Ok i :: (unit greeter_error, nat) outcome), w')"
    using loop by (fastforce simp: ui_choose_def pbind_def typed_consume index_def typed_write_str pure_def simp del: choose_loop.simps)
  from choose_selects [OF this] this show ?thesis by simp
qed

text \<open>
  C22: a password is what is typed after the prompt, edited by backspace and ended by enter; keys
  typed before the prompt are dropped, keys after it stay, and nothing but asterisks, backspaces
  and the end of the line reaches the screen.
\<close>

theorem password_typed:
  assumes "edit_line [] ks = Some (pwd, rest)" "length stale < fuel" "length ks \<le> fuel"
  shows "\<exists>e. password typed_console fuel \<lparr>pending = stale, coming = ks, screen = s\<rparr> =
      (Ok pwd, \<lparr>pending = [], coming = rest, screen = s @ e\<rparr>) \<and> set e \<subseteq> {0x2A, 0x8, 0xD, 0xA}"
  unfolding typed_password [OF assms(2)]
  using typed_read_loop [OF assms(1,3), of "Some 0x2A" s] by (simp add: echo_ok_def)

theorem password_typed_witness:
  "\<exists>e. password typed_console 9 \<lparr>pending = [Printable 0x78], coming = [Printable 0x61, Printable 0x62, Printable 0x8, Printable 0xD], screen = []\<rparr> =
      (Ok [0x61], \<lparr>pending = [], coming = [], screen = e\<rparr>) \<and> set e \<subseteq> {0x2A, 0x8, 0xD, 0xA}"
  using password_typed [of "[Printable 0x61, Printable 0x62, Printable 0x8, Printable 0xD]" "[0x61]" "[]" "[Printable 0x78]" 9 "[]"]
  by simp

text \<open>
  C37: enter at an empty prompt does not end the line, it becomes its first character: a
  password typed after it is read with a carriage return in front.
\<close>

theorem empty_enter_is_typed:
  assumes "plain pwd" "length pwd + 2 \<le> fuel" "length stale < fuel"
  shows "\<exists>s'. password typed_console fuel
      \<lparr>pending = stale, coming = Printable 0xD # map Printable pwd @ [Printable 0xD], screen = s\<rparr> =
      (Ok (0xD # pwd), \<lparr>pending = [], coming = [], screen = s'\<rparr>)"
proof -
  let ?ks = "Printable 0xD # map Printable pwd @ [Printable 0xD]"
  have "edit_line [] ?ks = Some (0xD # pwd, [])" using edit_line_plain [OF assms(1), of "[0xD]" "[]"] by simp
  from typed_read_loop [OF this, of fuel "Some 0x2A" s] show ?thesis
    unfolding typed_password [OF assms(3)] using assms(2) by auto
qed

theorem empty_enter_is_typed_witness:
  "\<exists>s'. password typed_console 9 \<lparr>pending = [], coming = [Printable 0xD, Printable 0x61, Printable 0xD], screen = []\<rparr> =
      (Ok [0xD, 0x61], \<lparr>pending = [], coming = [], screen = s'\<rparr>)"
  using empty_enter_is_typed [of "[0x61]" 9 "[]" "[]"] by (simp add: plain_def)

end
