(* ===== verification/Config.thy ===== *)
theory Config imports Errors "HOL-Library.List_Lexorder" "HOL-Library.Char_ord" begin

text \<open>
  The configuration, \<^verbatim>\<open>src/config.rs\<close>, and what it uses of Rust's strings and ordered maps. A
  string is the list of its UTF-8 bytes, as characters; a \<^verbatim>\<open>BTreeMap\<close> is its list of entries in
  the order of the keys. The decoder of TOML is a parameter of the loader (theory \<open>Boot\<close>); the
  two functions of the program that it calls for keyslots and partitions are here.
\<close>

section \<open>Strings\<close>

definition string_of_bytes :: "u8 list \<Rightarrow> string" where
  "string_of_bytes bs = map (\<lambda>b. char_of (unat b)) bs"

text \<open>\<^verbatim>\<open>core::str::from_utf8\<close> accepts well-formed UTF-8: no overlong forms, no surrogates.\<close>

definition continuation :: "u8 \<Rightarrow> bool" where
  "continuation b \<longleftrightarrow> 0x80 \<le> b \<and> b \<le> 0xBF"

fun valid_utf8 :: "u8 list \<Rightarrow> bool" where
  "valid_utf8 [] = True"
| "valid_utf8 (a # bs) =
     (if a \<le> 0x7F then valid_utf8 bs
      else case bs of
        b # cs \<Rightarrow>
          (if 0xC2 \<le> a \<and> a \<le> 0xDF \<and> continuation b then valid_utf8 cs
           else case cs of
             c # ds \<Rightarrow>
               (if continuation c \<and>
                   (a = 0xE0 \<and> 0xA0 \<le> b \<and> b \<le> 0xBF \<or> 0xE1 \<le> a \<and> a \<le> 0xEC \<and> continuation b \<or>
                    a = 0xED \<and> 0x80 \<le> b \<and> b \<le> 0x9F \<or> 0xEE \<le> a \<and> a \<le> 0xEF \<and> continuation b)
                then valid_utf8 ds
                else case ds of
                  d # es \<Rightarrow>
                    continuation c \<and> continuation d \<and>
                    (a = 0xF0 \<and> 0x90 \<le> b \<and> b \<le> 0xBF \<or> 0xF1 \<le> a \<and> a \<le> 0xF3 \<and> continuation b \<or>
                     a = 0xF4 \<and> 0x80 \<le> b \<and> b \<le> 0x8F) \<and> valid_utf8 es
                | [] \<Rightarrow> False)
           | [] \<Rightarrow> False)
      | [] \<Rightarrow> False)"

definition from_utf8 :: "u8 list \<Rightarrow> string option" where
  "from_utf8 bs = (if valid_utf8 bs then Some (string_of_bytes bs) else None)"

text \<open>
  \<^verbatim>\<open>str::trim\<close> removes the characters with the property White\_Space at both ends. They are
  given by their encodings.
\<close>

definition whitespace :: "u8 list set" where
  "whitespace = {[0x09], [0x0A], [0x0B], [0x0C], [0x0D], [0x20], [0xC2, 0x85], [0xC2, 0xA0], [0xE1, 0x9A, 0x80],
     [0xE2, 0x80, 0x80], [0xE2, 0x80, 0x81], [0xE2, 0x80, 0x82], [0xE2, 0x80, 0x83], [0xE2, 0x80, 0x84],
     [0xE2, 0x80, 0x85], [0xE2, 0x80, 0x86], [0xE2, 0x80, 0x87], [0xE2, 0x80, 0x88], [0xE2, 0x80, 0x89],
     [0xE2, 0x80, 0x8A], [0xE2, 0x80, 0xA8], [0xE2, 0x80, 0xA9], [0xE2, 0x80, 0xAF], [0xE2, 0x81, 0x9F],
     [0xE3, 0x80, 0x80]}"

function trim_front :: "(u8 list \<Rightarrow> u8 list) \<Rightarrow> u8 list \<Rightarrow> u8 list" where
  "trim_front enc bs =
     (if bs \<noteq> [] \<and> enc (take 1 bs) \<in> whitespace then trim_front enc (drop 1 bs)
      else if bs \<noteq> [] \<and> enc (take 2 bs) \<in> whitespace then trim_front enc (drop 2 bs)
      else if bs \<noteq> [] \<and> enc (take 3 bs) \<in> whitespace then trim_front enc (drop 3 bs)
      else bs)"
  by pat_completeness auto
termination
  by (relation "measure (\<lambda>(enc, bs). length bs)") auto

declare trim_front.simps [simp del]

definition trim :: "u8 list \<Rightarrow> u8 list" where
  "trim bs = rev (trim_front rev (rev (trim_front (\<lambda>c. c) bs)))"

section \<open>Ordered maps\<close>

type_synonym 'v btree_map = "(string \<times> 'v) list"

fun btree_insert :: "string \<Rightarrow> 'v \<Rightarrow> 'v btree_map \<Rightarrow> 'v btree_map" where
  "btree_insert k v [] = [(k, v)]"
| "btree_insert k v ((k', v') # m) =
     (if k < k' then (k, v) # (k', v') # m
      else if k = k' then (k, v) # m
      else (k', v') # btree_insert k v m)"

text \<open>\<^verbatim>\<open>collect\<close> inserts the entries in order.\<close>

definition btree_collect :: "(string \<times> 'v) list \<Rightarrow> 'v btree_map" where
  "btree_collect es = fold (\<lambda>(k, v). btree_insert k v) es []"

text \<open>\<^verbatim>\<open>map[key]\<close> panics without an entry.\<close>

definition btree_index :: "'v btree_map \<Rightarrow> string \<Rightarrow> ('e, 'v) outcome" where
  "btree_index m k = (case map_of m k of Some v \<Rightarrow> Ok v | None \<Rightarrow> Panic)"

section \<open>The configuration\<close>

record config_file =
  cf_partition :: string
  cf_extra_partitions :: "string list"
  cf_file :: string

datatype keyslot_source = Stdin | KeyFile config_file

record keyslot =
  ks_name :: string
  ks_source :: keyslot_source

record partition =
  pt_name :: string
  pt_parent :: "string option"
  pt_uuid :: string
  pt_keyslot :: "string option"

datatype initrd = Single config_file | Multiple "config_file list"

record additional_initrd_file =
  ai_source :: config_file
  ai_target_file :: string

record boot_entry =
  be_name :: string
  be_file :: config_file
  be_initrd :: "initrd option"
  be_additional_initrd_files :: "additional_initrd_file list option"
  be_options :: "string option"
  be_default :: bool

datatype log_level = Off | ErrorLevel | WarnLevel | InfoLevel | DebugLevel | TraceLevel

text \<open>The order of \<^verbatim>\<open>LevelFilter\<close>: its discriminants.\<close>

fun log_level_nat :: "log_level \<Rightarrow> nat" where
  "log_level_nat Off = 0"
| "log_level_nat ErrorLevel = 1"
| "log_level_nat WarnLevel = 2"
| "log_level_nat InfoLevel = 3"
| "log_level_nat DebugLevel = 4"
| "log_level_nat TraceLevel = 5"

lemma log_level_nat_inj: "log_level_nat a = log_level_nat b \<Longrightarrow> a = b"
  by (cases a; cases b) simp_all

instantiation log_level :: linorder
begin

definition less_eq_log_level :: "log_level \<Rightarrow> log_level \<Rightarrow> bool" where
  "less_eq_log_level a b \<longleftrightarrow> log_level_nat a \<le> log_level_nat b"

definition less_log_level :: "log_level \<Rightarrow> log_level \<Rightarrow> bool" where
  "less_log_level a b \<longleftrightarrow> log_level_nat a < log_level_nat b"

instance
  by intro_classes (auto simp: less_eq_log_level_def less_log_level_def intro: log_level_nat_inj)

end

text \<open>The two buffers of the configuration, which change, are part of the state in theory \<open>Boot\<close>.\<close>

record config =
  keyslots :: "keyslot btree_map"
  partitions :: "partition btree_map"
  boot_entries :: "boot_entry list"
  log_level :: log_level

fun initrd_iter :: "initrd \<Rightarrow> config_file list" where
  "initrd_iter (Single file) = [file]"
| "initrd_iter (Multiple files) = files"

text \<open>What the two deserializers do with the vector the decoder hands them.\<close>

definition collect_keyslots :: "keyslot list \<Rightarrow> keyslot btree_map" where
  "collect_keyslots kss = btree_collect (map (\<lambda>ks. (ks_name ks, ks)) kss)"

definition collect_partitions :: "partition list \<Rightarrow> partition btree_map" where
  "collect_partitions ps = btree_collect (map (\<lambda>p. (pt_name p, p)) ps)"

text \<open>
  The source of a keyslot is the word \<^verbatim>\<open>stdin\<close> or a file. \<open>helper\<close> is the derived decoder of an
  enumeration with this one word, whose result is dropped.
\<close>

definition deserialize_stdin :: "('d \<Rightarrow> ('x, unit) outcome) \<Rightarrow> 'd \<Rightarrow> ('x, unit) outcome" where
  "deserialize_stdin helper d = obind (helper d) (\<lambda>_. Ok ())"

section \<open>Lemmas on ordered maps\<close>

lemma map_of_btree_insert: "map_of (btree_insert k v m) = (map_of m)(k \<mapsto> v)"
  by (induction m) (auto simp: fun_eq_iff)

lemma set_btree_insert: "set (map fst (btree_insert k v m)) = insert k (set (map fst m))"
  by (induction k v m rule: btree_insert.induct) (simp_all add: insert_commute)

lemma sorted_btree_insert:
  "sorted_wrt (<) (map fst m) \<Longrightarrow> sorted_wrt (<) (map fst (btree_insert k v m))"
proof (induction m)
  case (Cons e m)
  obtain k' v' where e: "e = (k', v')" by (cases e)
  have "\<forall>x\<in>set (map fst (btree_insert k v m)). k' < x" if "\<not> k < k'" "k \<noteq> k'"
    unfolding set_btree_insert using that Cons.prems e by (auto simp: not_less)
  then show ?case using Cons e by (auto simp: less_trans)
qed simp

lemma btree_collect_fold:
  "map_of (fold (\<lambda>(k, v). btree_insert k v) es m) = map_of m ++ map_of (rev es)"
  "sorted_wrt (<) (map fst m) \<Longrightarrow> sorted_wrt (<) (map fst (fold (\<lambda>(k, v). btree_insert k v) es m))"
  by (induction es arbitrary: m)
    (auto simp: map_of_btree_insert sorted_btree_insert map_add_def fun_eq_iff split: option.splits)

lemma map_of_btree_collect: "map_of (btree_collect es) = map_of (rev es)"
  by (simp add: btree_collect_def btree_collect_fold)

lemma sorted_btree_collect: "sorted_wrt (<) (map fst (btree_collect es))"
  by (simp add: btree_collect_def btree_collect_fold)

text \<open>
  The partitions of the configuration are found by their names, in the order of the names;
  of several entries with one name the last in the file counts.
\<close>

theorem partitions_by_name:
  "map_of (collect_partitions ps) n = List.find (\<lambda>p. pt_name p = n) (rev ps) \<and>
   sorted_wrt (<) (map fst (collect_partitions ps)) \<and>
   list_all (\<lambda>(k, p). pt_name p = k) (collect_partitions ps)"
proof -
  have find: "map_of (map (\<lambda>p. (pt_name p, p)) qs) n = List.find (\<lambda>p. pt_name p = n) qs" for qs and n
    by (induction qs) auto
  have "pt_name p = k" if "(k, p) \<in> set (collect_partitions ps)" for k p
  proof -
    have "distinct (map fst (collect_partitions ps))"
      using sorted_btree_collect [of "map (\<lambda>p. (pt_name p, p)) ps"] by (simp add: collect_partitions_def strict_sorted_iff)
    then have "map_of (collect_partitions ps) k = Some p" using that by simp
    then show ?thesis
      by (auto simp: collect_partitions_def map_of_btree_collect rev_map find find_Some_iff)
  qed
  then show ?thesis
    using sorted_btree_collect by (auto simp: collect_partitions_def map_of_btree_collect rev_map find list_all_iff)
qed

end
