(* ===== verification/Files.thy ===== *)
theory Files imports Config begin

text \<open>
  Reading files through the firmware's Simple File System protocol: the second half of
  \<^verbatim>\<open>src/util.rs\<close> and the search for UEFI images at the end of \<^verbatim>\<open>src/main.rs\<close>. The protocol is a
  parameter, a record of calls; directories and files are numbers the firmware hands out.
\<close>

datatype file_type = RegularFile nat | Directory nat

record 'w file_system =
  fs_protocol :: "nat \<Rightarrow> ('w, status, nat) prog"
  fs_open_volume :: "nat \<Rightarrow> ('w, status, nat) prog"
  fs_open :: "nat \<Rightarrow> string \<Rightarrow> ('w, status, nat) prog"
  fs_into_type :: "nat \<Rightarrow> ('w, status, file_type) prog"
  fs_file_size :: "nat \<Rightarrow> ('w, status, u64) prog"
  fs_read :: "nat \<Rightarrow> nat \<Rightarrow> ('w, unit, u8 list) prog"
  fs_dir_name :: "nat \<Rightarrow> ('w, status, string) prog"
  fs_read_entry :: "nat \<Rightarrow> ('w, status, string option) prog"

section \<open>Reading a file\<close>

text \<open>
  \<open>read_to_vec\<close> returns the vector and the number of bytes read; \<open>len\<close> is the length of the
  vector it is given, and \<open>fs_read\<close> returns the bytes it has put to the front of a buffer of a
  given length.
\<close>

definition read_to_vec ::
  "'w file_system \<Rightarrow> nat \<Rightarrow> string \<Rightarrow> nat \<Rightarrow> bool \<Rightarrow> ('w, 'x greeter_error, nat \<times> u8 list) prog" where
  "read_to_vec F dev file len full =
     pbind (uefi_context (''can't get SimpleFileSystem from device to get file '' @ file) (fs_protocol F dev)) (\<lambda>sfs.
     pbind (uefi_context (''can't open SimpleFileSystem to get file '' @ file) (fs_open_volume F sfs)) (\<lambda>vol.
     pbind (uefi_context (''can't open file '' @ file) (fs_open F vol file)) (\<lambda>h.
     pbind (uefi_context (''error converting file handle to file type for file '' @ file) (fs_into_type F h)) (\<lambda>t.
     case t of
       RegularFile f \<Rightarrow>
         pbind (if full then
             pbind (uefi_context (''can't get file info for file '' @ file) (fs_file_size F f)) (\<lambda>sz. pure (Ok (unat sz)))
           else pure (Ok len)) (\<lambda>len.
         pbind (uefi_context (''error reading from file '' @ file)
           (pmap_err (\<lambda>_. STATUS_BUFFER_TOO_SMALL) (fs_read F f len))) (\<lambda>bs.
         pure (Ok (length bs, bs))))
     | Directory d \<Rightarrow> pure (Err (error_new_without_source (''file '' @ file @ '' note found'')))))))"

definition read_full_file_to_vec :: "'w file_system \<Rightarrow> nat \<Rightarrow> string \<Rightarrow> nat \<Rightarrow> ('w, 'x greeter_error, u8 list) prog" where
  "read_full_file_to_vec F dev file len = pbind (read_to_vec F dev file len True) (\<lambda>(n, v). pure (Ok v))"

definition read_partial_file_to_vec :: "'w file_system \<Rightarrow> nat \<Rightarrow> string \<Rightarrow> nat \<Rightarrow> ('w, 'x greeter_error, nat \<times> u8 list) prog" where
  "read_partial_file_to_vec F dev file len = read_to_vec F dev file len False"

definition read_full_file :: "'w file_system \<Rightarrow> nat \<Rightarrow> string \<Rightarrow> ('w, 'x greeter_error, u8 list) prog" where
  "read_full_file F dev file = read_full_file_to_vec F dev file 0"

section \<open>Searching for images\<close>

text \<open>
  \<open>to_ucs2\<close> decides whether a name converts to a \<^verbatim>\<open>CString16\<close>, or gives the error. The fuel bounds
  the entries of a directory and the depth of the tree. A failing \<^verbatim>\<open>unwrap\<close> of \<^verbatim>\<open>align_buf\<close> cannot
  happen for a buffer of 1024 bytes.
\<close>

fun find_efi_files_rec ::
  "'w file_system \<Rightarrow> (string \<Rightarrow> 'x option) \<Rightarrow> nat \<Rightarrow> nat \<Rightarrow> string list \<Rightarrow> string \<Rightarrow> nat \<Rightarrow> ('w, 'x greeter_error, string list) prog"
and find_efi_files_loop ::
  "'w file_system \<Rightarrow> (string \<Rightarrow> 'x option) \<Rightarrow> nat \<Rightarrow> nat \<Rightarrow> string list \<Rightarrow> string \<Rightarrow> nat \<Rightarrow> ('w, 'x greeter_error, string list) prog" where
  "find_efi_files_rec F to_ucs2 0 dev files prefix dir = pure (Halt OutOfFuel)"
| "find_efi_files_rec F to_ucs2 (Suc fuel) dev files prefix dir =
     pbind (uefi_context ''can't get FileInfo from directory'' (fs_dir_name F dir)) (\<lambda>name.
     find_efi_files_loop F to_ucs2 fuel dev files (prefix @ name @ [CHR 0x5C]) dir)"
| "find_efi_files_loop F to_ucs2 0 dev files prefix dir = pure (Halt OutOfFuel)"
| "find_efi_files_loop F to_ucs2 (Suc fuel) dev files prefix dir =
     pbind (uefi_context ''can't read directory entry'' (fs_read_entry F dir)) (\<lambda>entry.
     case entry of
       None \<Rightarrow> pure (Ok files)
     | Some name \<Rightarrow>
         (if name = ''.'' \<or> name = ''..'' then find_efi_files_loop F to_ucs2 fuel dev files prefix dir
          else
            pbind (uefi_context (''can't open file '' @ name) (fs_open F dir name)) (\<lambda>h.
            pbind (uefi_context (''can't get file type of file '' @ name) (fs_into_type F h)) (\<lambda>t.
            case t of
              RegularFile f \<Rightarrow>
                (case to_ucs2 (prefix @ name) of
                   Some e \<Rightarrow> pure (Err (error_new (CString16FromStrError e) ''file name not UTF-16 compatible''))
                 | None \<Rightarrow>
                     pbind (read_partial_file_to_vec F dev (prefix @ name) 2) (\<lambda>(n, hd).
                     find_efi_files_loop F to_ucs2 fuel dev
                       (if n = 2 \<and> hd = [0x4D, 0x5A] then files @ [prefix @ name] else files) prefix dir))
            | Directory d \<Rightarrow>
                pbind (find_efi_files_rec F to_ucs2 fuel dev files prefix d) (\<lambda>files.
                find_efi_files_loop F to_ucs2 fuel dev files prefix dir)))))"

definition find_efi_files :: "'w file_system \<Rightarrow> (string \<Rightarrow> 'x option) \<Rightarrow> nat \<Rightarrow> nat \<Rightarrow> ('w, 'x greeter_error, string list) prog" where
  "find_efi_files F to_ucs2 fuel dev =
     pbind (uefi_context ''can't get SimpleFileSystem from partition handle'' (fs_protocol F dev)) (\<lambda>sfs.
     pbind (uefi_context ''can't open volume of SimpleFileSystem'' (fs_open_volume F sfs)) (\<lambda>dir.
     find_efi_files_rec F to_ucs2 fuel dev [] '''' dir))"

end
