(* ===== verification/Platform.thy ===== *)
theory Platform imports Nvme Ata Ui Files Readers begin

text \<open>
  The machine the greeter runs on, and the functions of \<^verbatim>\<open>src/main.rs\<close> that look at it: the
  lists of block devices and partitions, the probes for NVMe and SATA drives, the console mode.
  What the firmware does is a record of calls on its state \<open>'w\<close>; handles are numbers.

  \<open>'x\<close> is the type of the errors of external crates.
\<close>

section \<open>The firmware\<close>

record media =
  lowest_aligned_lba :: u64
  last_block :: u64
  is_logical_partition :: bool

record partition_info =
  esp_entry :: bool

record 'w platform =
  pf_console :: "'w console"
  pf_services :: "'w boot_services"
  pf_files :: "'w file_system"
  pf_block_handles :: "('w, status, nat list) prog"
  pf_open_block_io :: "nat \<Rightarrow> ('w, status, media \<times> status block_io) prog"
  pf_partition_handles :: "('w, status, nat list) prog"
  pf_open_partition_info :: "nat \<Rightarrow> ('w, status, partition_info) prog"
  pf_open_device_path :: "nat \<Rightarrow> ('w, status, device_path) prog"
  pf_get_device_path :: "nat \<Rightarrow> ('w, status, device_path) prog"
  pf_path_text :: "device_path \<Rightarrow> ('w, string, string option) prog"
  pf_locate_nvme :: "device_path \<Rightarrow> ('w, status, nat) prog"
  pf_open_nvme :: "nat \<Rightarrow> ('w, status, 'w nvme_express_passthru) prog"
  pf_locate_ata :: "device_path \<Rightarrow> 'w \<Rightarrow> (status, nat) outcome \<times> device_path \<times> 'w"
  pf_open_ata :: "nat \<Rightarrow> ('w, status, 'w ata_passthru) prog"
  pf_memory :: "'w \<Rightarrow> u8 list"
  pf_reset_stdout :: "('w, status, unit) prog"
  pf_clear_stdout :: "('w, status, unit) prog"
  pf_modes :: "'w \<Rightarrow> (nat \<times> nat) list"
  pf_set_mode :: "nat \<times> nat \<Rightarrow> ('w, status, unit) prog"
  pf_set_watchdog :: "nat \<Rightarrow> nat \<Rightarrow> ('w, status, unit) prog"

section \<open>Block devices and partitions\<close>

text \<open>A handle that cannot be opened is skipped, as is a logical partition.\<close>

fun filter_block_devices :: "'w platform \<Rightarrow> nat list \<Rightarrow> ('w, 'e, (nat \<times> u64 \<times> u64) list) prog" where
  "filter_block_devices F [] = pure (Ok [])"
| "filter_block_devices F (h # hs) = (\<lambda>w.
     case pf_open_block_io F h w of
       (Ok (m, io), w) \<Rightarrow>
         pbind (filter_block_devices F hs) (\<lambda>ds.
         pure (Ok (if is_logical_partition m then ds else (h, lowest_aligned_lba m, last_block m) # ds))) w
     | (Err s, w) \<Rightarrow> filter_block_devices F hs w
     | (Halt x, w) \<Rightarrow> (Halt x, w))"

definition block_devices :: "'w platform \<Rightarrow> ('w, 'x greeter_error, (nat \<times> u64 \<times> u64) list) prog" where
  "block_devices F =
     pbind (uefi_context ''error getting list of BlockIO Handles'' (pf_block_handles F)) (filter_block_devices F)"

text \<open>Both calls that reconnect a controller may fail without consequence.\<close>

definition ignoring :: "('w, 'e, 'a) prog \<Rightarrow> ('w, 'f, unit) prog" where
  "ignoring m w = (case m w of (Halt h, w') \<Rightarrow> (Halt h, w') | (_, w') \<Rightarrow> (Ok (), w'))"

fun reconnect_all :: "'w platform \<Rightarrow> nat list \<Rightarrow> ('w, 'e, unit) prog" where
  "reconnect_all F [] = pure (Ok ())"
| "reconnect_all F (h # hs) =
     pbind (ignoring (call_status (disconnect_controller (pf_services F) h))) (\<lambda>_.
     pbind (ignoring (call_status (connect_controller (pf_services F) h))) (\<lambda>_. reconnect_all F hs))"

fun find_esp :: "'w platform \<Rightarrow> nat list \<Rightarrow> nat option \<Rightarrow> ('w, 'x greeter_error, nat option) prog" where
  "find_esp F [] res = pure (Ok res)"
| "find_esp F (h # hs) res =
     pbind (uefi_context ''open partinfo'' (pf_open_partition_info F h)) (\<lambda>pinfo.
     if esp_entry pinfo then (if res \<noteq> None then pure (Ok None) else find_esp F hs (Some h))
     else find_esp F hs res)"

definition find_boot_partition :: "'w platform \<Rightarrow> ('w, 'x greeter_error, nat option) prog" where
  "find_boot_partition F =
     pbind (block_devices F) (\<lambda>ds.
     pbind (reconnect_all F (map fst ds)) (\<lambda>_.
     pbind (uefi_context ''list partitions'' (pf_partition_handles F)) (\<lambda>hs. find_esp F hs None)))"

definition path_text :: "'w platform \<Rightarrow> string \<Rightarrow> device_path \<Rightarrow> ('w, 'x greeter_error, string) prog" where
  "path_text F ctx path =
     pbind (pmap_err (\<lambda>e. error_new_without_source (ctx @ e)) (pf_path_text F path)) (\<lambda>t.
     pure (case t of Some t \<Rightarrow> Ok t | None \<Rightarrow> Panic))"

definition find_random_esp_path :: "'w platform \<Rightarrow> ('w, 'x greeter_error, device_path option) prog" where
  "find_random_esp_path F =
     pbind (find_boot_partition F) (\<lambda>part.
     case part of None \<Rightarrow> pure (Ok None)
     | Some part \<Rightarrow>
         pbind (uefi_context ''can't get DevicePath of BlockIO-Handle'' (pf_open_device_path F part)) (\<lambda>path.
         pbind (path_text F ''devicepath print error: '' path) (\<lambda>_. pure (Ok (Some path)))))"

fun boot_partitions_loop :: "'w platform \<Rightarrow> nat list \<Rightarrow> ('w, 'x greeter_error, nat list) prog" where
  "boot_partitions_loop F [] = pure (Ok [])"
| "boot_partitions_loop F (h # hs) =
     pbind (uefi_context ''can't get partition info from handle'' (pf_open_partition_info F h)) (\<lambda>pinfo.
     pbind (boot_partitions_loop F hs) (\<lambda>res. pure (Ok (if esp_entry pinfo then h # res else res))))"

text \<open>The handles of the result; the partition entries beside them are the firmware's.\<close>

definition find_boot_partitions :: "'w platform \<Rightarrow> ('w, 'x greeter_error, nat list) prog" where
  "find_boot_partitions F =
     pbind (uefi_context ''error getting all partition handles'' (pf_partition_handles F)) (boot_partitions_loop F)"

section \<open>Drives\<close>

text \<open>The device and the interface it was opened with, which it holds a pointer to.\<close>

definition try_get_nvme_device ::
  "'w platform \<Rightarrow> nat \<Rightarrow> ('w, 'x greeter_error, ('w nvme_express_passthru \<times> 'w nvme_device) option) prog" where
  "try_get_nvme_device F h =
     pbind (uefi_context ''can't get DevicePath of BlockIO-Handle'' (pf_open_device_path F h)) (\<lambda>path w.
     case pf_locate_nvme F path w of
       (Ok nvme, w) \<Rightarrow>
         pbind (uefi_context ''error creating NvmExpressPassthru handle'' (pf_open_nvme F nvme)) (\<lambda>N.
         pbind (uefi_context ''error creating NvmeDevice from NvmExpressPassthru-Handle''
           (\<lambda>w. nvme_device_new N (pf_memory F w) w)) (\<lambda>dv. pure (Ok (Some (N, dv))))) w
     | (Err s, w) \<Rightarrow> (Ok None, w)
     | (Halt x, w) \<Rightarrow> (Halt x, w))"

text \<open>
  Opening a drive runs on the state of the machine; the drive's copy of it, which the next call
  replaces, is of no account.
\<close>

definition opal_on :: "('d \<Rightarrow> 'w) \<Rightarrow> ('w \<Rightarrow> 'd \<Rightarrow> 'd) \<Rightarrow> ('d, 'err) secure_protocol \<Rightarrow> 'd \<Rightarrow> ('w, 'err error, 'd opal_drive) prog" where
  "opal_on gw pw P d w = (case opal_drive_new P (pw w d) of (r, d') \<Rightarrow> (r, gw d'))"

abbreviation ata_world :: "'w \<Rightarrow> 'w ata_protocol \<Rightarrow> 'w ata_protocol" where
  "ata_world w d \<equiv> d\<lparr>ata_fw := w\<rparr>"

abbreviation nvme_world :: "'w \<Rightarrow> 'w restartable_nvme_device \<Rightarrow> 'w restartable_nvme_device" where
  "nvme_world w d \<equiv> d\<lparr>res_dev := (res_dev d)\<lparr>nvme_fw := w\<rparr>\<rparr>"

abbreviation nvme_of :: "'w restartable_nvme_device \<Rightarrow> 'w" where
  "nvme_of d \<equiv> nvme_fw (res_dev d)"

definition try_get_ata_device ::
  "'w platform \<Rightarrow> nat \<Rightarrow> ('w, 'x greeter_error, ('w ata_passthru \<times> 'w ata_protocol opal_drive) option) prog" where
  "try_get_ata_device F h =
     pbind (uefi_context ''can't get DevicePath of BlockIO-Handle'' (pf_get_device_path F h)) (\<lambda>path.
     pbind (path_text F ''dtos: '' path) (\<lambda>_ w.
     case pf_locate_ata F path w of (located, path, w) \<Rightarrow>
     pbind (path_text F ''dtos: '' path) (\<lambda>_.
     case located of
       Ok ata \<Rightarrow>
         pbind (uefi_context ''error creating AtaPassthru handle'' (pf_open_ata F ata)) (\<lambda>A.
         pbind (try_make A path h) (\<lambda>proto.
         pbind (context_from OpalSource ''error opening opal''
           (opal_on ata_fw ata_world (ata_secure_protocol A (pf_services F)) proto)) (\<lambda>opal.
         pure (Ok (Some (A, opal))))))
     | Err s \<Rightarrow> pure (Ok None)
     | Halt x \<Rightarrow> pure (Halt x)) w))"

section \<open>The console mode\<close>

text \<open>
  \<^verbatim>\<open>max_by_key\<close> returns the last of the maxima. Rows times columns wrap at 64 bits.
\<close>

definition mode_key :: "nat \<times> nat \<Rightarrow> nat" where
  "mode_key m = fst m * snd m mod 2 ^ 64"

fun max_by_key :: "('a \<Rightarrow> nat) \<Rightarrow> 'a list \<Rightarrow> 'a option" where
  "max_by_key f [] = None"
| "max_by_key f (x # xs) = (case max_by_key f xs of None \<Rightarrow> Some x | Some y \<Rightarrow> Some (if f x > f y then x else y))"

definition config_stdout :: "'w platform \<Rightarrow> ('w, status, unit) prog" where
  "config_stdout F =
     pbind (pf_reset_stdout F) (\<lambda>_.
     pbind (pf_clear_stdout F) (\<lambda>_ w.
     case max_by_key mode_key (pf_modes F w) of
       Some m \<Rightarrow> pf_set_mode F m w
     | None \<Rightarrow> (Ok (), w)))"

section \<open>Properties\<close>

text \<open>
  C31: the boot partition is the EFI system partition if there is exactly one; with none or with
  several nothing is chosen.
\<close>

lemma find_esp_filter:
  assumes "\<And>h. h \<in> set hs \<Longrightarrow> pf_open_partition_info F h w = (Ok \<lparr>esp_entry = esp h\<rparr>, w)"
  shows "find_esp F hs res w =
    (Ok (case filter esp hs of [] \<Rightarrow> res | [h] \<Rightarrow> (if res = None then Some h else None) | _ \<Rightarrow> None), w)"
  using assms
  by (induction hs arbitrary: res)
    (auto simp: pbind_def uefi_context_def pmap_err_def pure_def split: list.splits option.splits)

theorem boot_partition_unique:
  assumes "block_devices F w = ((Ok ds :: ('x greeter_error, _) outcome), w1)"
    and "reconnect_all F (map fst ds) w1 = ((Ok () :: ('x greeter_error, _) outcome), w2)"
    and "pf_partition_handles F w2 = (Ok hs, w3)"
    and "\<And>h. h \<in> set hs \<Longrightarrow> pf_open_partition_info F h w3 = (Ok \<lparr>esp_entry = esp h\<rparr>, w3)"
  shows "find_boot_partition F w =
    ((Ok (if length (filter esp hs) = 1 then Some (hd (filter esp hs)) else None) :: ('x greeter_error, _) outcome), w3)"
proof -
  have "find_esp F hs None w3 =
      ((Ok (if length (filter esp hs) = 1 then Some (hd (filter esp hs)) else None) :: ('x greeter_error, _) outcome), w3)"
    by (subst find_esp_filter [OF assms(4)]) (auto split: list.splits)
  then show ?thesis
    using assms(1-3) by (simp add: find_boot_partition_def pbind_def uefi_context_def pmap_err_def)
qed

text \<open>
  The console is put into a mode with the most characters, the last of them in the order of the
  firmware.
\<close>

lemma max_by_key_last:
  "max_by_key f xs = Some x \<Longrightarrow>
     \<exists>as bs. xs = as @ x # bs \<and> (\<forall>y\<in>set as. f y \<le> f x) \<and> (\<forall>y\<in>set bs. f y < f x)"
proof (induction xs arbitrary: x)
  case (Cons a xs)
  show ?case
  proof (cases "max_by_key f xs")
    case None
    then have "xs = []" by (cases xs) (auto split: option.splits)
    then show ?thesis using Cons.prems by (intro exI [of _ "[]"]) simp
  next
    case (Some y)
    obtain as bs where y: "xs = as @ y # bs" "\<forall>z\<in>set as. f z \<le> f y" "\<forall>z\<in>set bs. f z < f y"
      using Cons.IH [OF Some] by blast
    show ?thesis
    proof (cases "f a > f y")
      case True
      then have "x = a" using Cons.prems Some by simp
      then show ?thesis using True y by (intro exI [of _ "[]"] exI [of _ xs]) auto
    next
      case False
      then have "x = y" using Cons.prems Some by simp
      then show ?thesis using False y by (intro exI [of _ "a # as"] exI [of _ bs]) auto
    qed
  qed
qed simp

lemma max_by_key_Nil: "max_by_key f xs = None \<longleftrightarrow> xs = []"
  by (induction xs) (auto split: option.splits)

lemma config_stdout_mode:
  assumes "config_stdout F w = (Ok (), w')"
  shows "\<exists>w2. pf_modes F w2 = [] \<and> w' = w2 \<or>
    (\<exists>as m bs. pf_modes F w2 = as @ m # bs \<and> pf_set_mode F m w2 = (Ok (), w') \<and>
       (\<forall>y\<in>set as. mode_key y \<le> mode_key m) \<and> (\<forall>y\<in>set bs. mode_key y < mode_key m))"
proof -
  obtain w2 where w2: "(case max_by_key mode_key (pf_modes F w2) of Some m \<Rightarrow> pf_set_mode F m w2 | None \<Rightarrow> (Ok (), w2)) = (Ok (), w')"
    using assms by (auto simp: config_stdout_def ok_iff)
  show ?thesis
  proof (cases "max_by_key mode_key (pf_modes F w2)")
    case None
    then show ?thesis using w2 by (auto simp: max_by_key_Nil)
  next
    case (Some m)
    with w2 have "pf_set_mode F m w2 = (Ok (), w')" by simp
    with max_by_key_last [OF Some] show ?thesis by blast
  qed
qed

text \<open>A machine without devices but two partitions, the second of which is the boot partition.\<close>

definition idle_platform :: "'w platform" where
  "idle_platform =
     \<lparr>pf_console =
        \<lparr>con_read_key = (\<lambda>w. (Ok None, w)), con_wait_for_key = (\<lambda>w. (Ok (), w)), con_output_string = (\<lambda>s w. (Ok (), w)),
         con_write_str = (\<lambda>s w. (True, w)), con_cursor_row = (\<lambda>w. 0), con_set_cursor = (\<lambda>x y w. (Ok (), w)),
         con_create_timer = (\<lambda>w. (Ok 0, w)), con_set_timer = (\<lambda>e t w. (Ok (), w)), con_wait_for_event = (\<lambda>e w. (Ok (), w)),
         con_stall = (\<lambda>t w. w)\<rparr>,
      pf_services = calm_services,
      pf_files =
        \<lparr>fs_protocol = (\<lambda>h w. (Err STATUS_NOT_FOUND, w)), fs_open_volume = (\<lambda>h w. (Err STATUS_NOT_FOUND, w)),
         fs_open = (\<lambda>h n w. (Err STATUS_NOT_FOUND, w)), fs_into_type = (\<lambda>h w. (Err STATUS_NOT_FOUND, w)),
         fs_file_size = (\<lambda>h w. (Err STATUS_NOT_FOUND, w)), fs_read = (\<lambda>h n w. (Err (), w)),
         fs_dir_name = (\<lambda>h w. (Err STATUS_NOT_FOUND, w)), fs_read_entry = (\<lambda>h w. (Ok None, w))\<rparr>,
      pf_block_handles = (\<lambda>w. (Ok [], w)),
      pf_open_block_io = (\<lambda>h w. (Err STATUS_NOT_FOUND, w)),
      pf_partition_handles = (\<lambda>w. (Ok [3, 4], w)),
      pf_open_partition_info = (\<lambda>h w. (Ok \<lparr>esp_entry = (h = 4)\<rparr>, w)),
      pf_open_device_path = (\<lambda>h w. (Ok [], w)),
      pf_get_device_path = (\<lambda>h w. (Ok [], w)),
      pf_path_text = (\<lambda>p w. (Ok (Some ''''), w)),
      pf_locate_nvme = (\<lambda>p w. (Err STATUS_NOT_FOUND, w)),
      pf_open_nvme = (\<lambda>h w. (Err STATUS_NOT_FOUND, w)),
      pf_locate_ata = (\<lambda>p w. (Err STATUS_NOT_FOUND, p, w)),
      pf_open_ata = (\<lambda>h w. (Err STATUS_NOT_FOUND, w)),
      pf_memory = (\<lambda>w. []),
      pf_reset_stdout = (\<lambda>w. (Ok (), w)),
      pf_clear_stdout = (\<lambda>w. (Ok (), w)),
      pf_modes = (\<lambda>w. [(80, 25)]),
      pf_set_mode = (\<lambda>m w. (Ok (), w)),
      pf_set_watchdog = (\<lambda>t c w. (Ok (), w))\<rparr>"

theorem boot_partition_unique_witness:
  "find_boot_partition idle_platform () = ((Ok (Some 4) :: (unit greeter_error, _) outcome), ())"
proof -
  have "block_devices idle_platform () = ((Ok [] :: (unit greeter_error, _) outcome), ())"
    by (simp add: block_devices_def idle_platform_def pbind_def uefi_context_def pmap_err_def pure_def)
  moreover have "reconnect_all idle_platform (map fst []) () = ((Ok () :: (unit greeter_error, _) outcome), ())"
    by (simp add: pure_def)
  moreover have "pf_partition_handles idle_platform () = (Ok [3, 4], ())"
    "\<And>h. pf_open_partition_info idle_platform h () = (Ok \<lparr>esp_entry = (h = 4)\<rparr>, ())"
    by (simp_all add: idle_platform_def)
  ultimately show ?thesis
    using boot_partition_unique [of idle_platform "()" "[]" "()" "()" "[3, 4]" "()" "\<lambda>h. h = 4"] by simp
qed

end
