(* ===== verification/Streams.thy ===== *)
theory Streams imports Readers begin

text \<open>
  The contract of a readable and seekable stream, and who keeps it. \<open>rep s xs p\<close> says that
  the reader in state \<open>s\<close> stands at position \<open>p\<close> of the bytes \<open>xs\<close>. The contract speaks
  of calls that succeed (a failed call may leave any position behind), of absolute seeks up
  to the end of the stream and of seeks from its end that do not leave it.

  \<open>BlockIoReader\<close> keeps the full contract on every disk. \<open>OptimizedSeek\<close> keeps the one
  without seeks from the end over every reader that does, and \<open>PartialReader\<close>, once
  positioned, makes of such a reader the full contract for its window.
\<close>

section \<open>The contract\<close>

locale stream =
  fixes R :: "('s, 'e) reader" and rep :: "'s \<Rightarrow> u8 list \<Rightarrow> nat \<Rightarrow> bool"
  assumes rep_small: "rep s xs p \<Longrightarrow> p < 2 ^ 63 \<and> length xs < 2 ^ 63"
    and rd_ok: "rep s xs p \<Longrightarrow> rd R n s = (Ok bs, s') \<Longrightarrow>
      rep s' xs (p + length bs) \<and> length bs \<le> n \<and> bs = take (length bs) (drop p xs)"
    and rd_progress: "rep s xs p \<Longrightarrow> rd R n s = (Ok [], s') \<Longrightarrow> n = 0 \<or> length xs \<le> p"
    and rd_returns: "rep s xs p \<Longrightarrow> rd R n s \<noteq> (Halt h, s')"
    and sk_start: "rep s xs p \<Longrightarrow> unat off \<le> length xs \<Longrightarrow> sk R (Start off) s = (Ok q, s') \<Longrightarrow>
      q = off \<and> rep s' xs (unat off)"
    and sk_current: "rep s xs p \<Longrightarrow> sk R (Current off) s = (Ok q, s') \<Longrightarrow>
      int (unat q) = int p + sint off \<and> rep s' xs (unat q)"
    and sk_returns: "rep s xs p \<Longrightarrow> unat off \<le> length xs \<Longrightarrow> sk R (Start off) s \<noteq> (Halt h, s')"
begin

lemma rewind_rep: "rep s xs p \<Longrightarrow> rewind R s = (Ok (), s') \<Longrightarrow> rep s' xs 0"
  using sk_start [of s xs p 0] by (auto simp: rewind_def ok_iff)

end

locale full_stream = stream +
  assumes sk_end: "rep s xs p \<Longrightarrow> sint off \<le> 0 \<Longrightarrow> sk R (End off) s = (Ok q, s') \<Longrightarrow>
      int (unat q) = int (length xs) + sint off \<and> rep s' xs (unat q)"

section \<open>Reading to the end\<close>

text \<open>
  The loop of \<^verbatim>\<open>find_read_file_internal\<close> that reads a file through a buffer until a read
  returns nothing. The fuel bounds the number of reads.
\<close>

fun read_to_end_loop :: "('s, 'e) reader \<Rightarrow> nat \<Rightarrow> nat \<Rightarrow> u8 list \<Rightarrow> ('s, 'e io_error, u8 list) prog" where
  "read_to_end_loop R 0 buf acc = pure (Halt OutOfFuel)"
| "read_to_end_loop R (Suc fuel) buf acc =
     pbind (rd R buf) (\<lambda>b. if b = [] then pure (Ok acc) else read_to_end_loop R fuel buf (acc @ b))"

context stream
begin

lemma read_to_end_ok:
  assumes "rep s xs p" "0 < buf" "read_to_end_loop R fuel buf acc s = (Ok bs, s')"
  shows "bs = acc @ drop p xs"
  using assms
proof (induction fuel arbitrary: s p acc)
  case (Suc fuel)
  from Suc.prems(3) show ?case unfolding read_to_end_loop.simps
  proof (cases rule: pbind_cases)
    case (Ok b s1)
    note ok = rd_ok [OF Suc.prems(1) Ok(1)]
    show ?thesis
    proof (cases "b = []")
      case True
      then show ?thesis using Ok rd_progress [OF Suc.prems(1), of buf s1] Suc.prems(2) by (simp add: pure_def)
    next
      case False
      then have "bs = (acc @ b) @ drop (p + length b) xs"
        using Suc.IH [of s1 "p + length b" "acc @ b"] ok Ok(2) Suc.prems(2) by simp
      moreover have "drop p xs = b @ drop (length b) (drop p xs)" using ok by (metis append_take_drop_id)
      ultimately show ?thesis by (simp add: add.commute)
    qed
  qed simp_all
qed (simp add: pure_def)

text \<open>One read more than there are bytes left is enough fuel.\<close>

lemma read_to_end_terminates:
  assumes "rep s xs p" "0 < buf" "length xs - p < fuel"
  shows "read_to_end_loop R fuel buf acc s \<noteq> (Halt OutOfFuel, s')"
  using assms
proof (induction fuel arbitrary: s p acc)
  case (Suc fuel)
  obtain r s1 where run: "rd R buf s = (r, s1)" by fastforce
  show ?case
  proof (cases r)
    case (Ok b)
    note ok = rd_ok [OF Suc.prems(1) run [unfolded Ok]]
    have "read_to_end_loop R fuel buf (acc @ b) s1 \<noteq> (Halt OutOfFuel, s')" if "b \<noteq> []"
    proof -
      have "0 < length b" "length b \<le> length xs - p"
        using that ok by (simp, metis length_drop length_take min.cobounded1)
      then have "length xs - (p + length b) < fuel" using Suc.prems(3) by arith
      then show ?thesis using Suc.IH [of s1 "p + length b"] ok Suc.prems(2) by blast
    qed
    then show ?thesis using run Ok by (simp add: pbind_def pure_def)
  qed (use run rd_returns [OF Suc.prems(1), of buf] in \<open>auto simp: pbind_def\<close>)
qed simp

end

section \<open>The block reader\<close>

text \<open>
  What the code relies on in the firmware: a successful \<^verbatim>\<open>ReadBlocks\<close> fills the buffer with
  the disk's bytes from the requested block on, and the call comes back.
\<close>

definition reads_disk :: "'e block_io \<Rightarrow> u32 \<Rightarrow> nat \<Rightarrow> u8 list \<Rightarrow> bool" where
  "reads_disk io m bsz dsk \<longleftrightarrow> (\<forall>lba n.
     (\<forall>bs. io_read_blocks io m lba n = Ok bs \<longrightarrow> bs = take n (drop (unat lba * bsz) dsk) \<and> length bs = n) \<and>
     (\<forall>h. io_read_blocks io m lba n \<noteq> Halt h))"

definition on_disk :: "'e block_io_reader \<Rightarrow> u8 list \<Rightarrow> bool" where
  "on_disk s img \<longleftrightarrow> block_size s \<noteq> 0 \<and> block_size s \<le> 4096 \<and>
     unat (start_lba s) + unat (bio_size s) < 2 ^ 63 \<and>
     (\<exists>dsk. reads_disk (bio s) (bio_media_id s) (unat (block_size s)) dsk \<and>
        img = drop (unat (start_lba s) * unat (block_size s)) dsk)"

definition block_rep :: "'e block_io_reader \<Rightarrow> u8 list \<Rightarrow> nat \<Rightarrow> bool" where
  "block_rep s xs p \<longleftrightarrow> p = unat (bio_cursor s) \<and> p < 2 ^ 63 \<and>
     (\<exists>img. on_disk s img \<and> xs = take (unat (bio_size s)) img \<and> length xs = unat (bio_size s))"

lemma advance_sel [simp]:
  "bio (advance n s) = bio s" "bio_media_id (advance n s) = bio_media_id s" "start_lba (advance n s) = start_lba s"
  "bio_size (advance n s) = bio_size s" "block_size (advance n s) = block_size s"
  "bio_cursor (advance n s) = bio_cursor s + word_of_nat n"
  by (simp_all add: advance_def)

lemma on_disk_advance [simp]: "on_disk (advance n s) = on_disk s"
  by (simp add: on_disk_def fun_eq_iff)

lemma mult_div_mod_drop: "drop (c mod b) (take b (drop (c div b * b) xs)) = take (b - c mod b) (drop c xs)"
  for c b :: nat
  by (simp add: drop_take add.commute)

text \<open>A block read at the cursor starts at the block the cursor is in.\<close>

lemma read_blocks_disk:
  assumes "on_disk s img" "unat (bio_cursor s) < unat (bio_size s)" "read_blocks n s = Ok b"
  shows "b = take n (drop (unat (bio_cursor s) div unat (block_size s) * unat (block_size s)) img) \<and> length b = n"
proof -
  let ?bs = "unat (block_size s)" and ?c = "unat (bio_cursor s)"
  obtain dsk where dsk: "reads_disk (bio s) (bio_media_id s) ?bs dsk"
    and img: "img = drop (unat (start_lba s) * ?bs) dsk"
    using assms(1) by (auto simp: on_disk_def)
  let ?lba = "start_lba s + bio_cursor s div block_size s"
  have div: "unat (bio_cursor s div block_size s) = ?c div ?bs" by (rule unat_div_distrib)
  have "?c div ?bs \<le> ?c" "unat (start_lba s) + ?c < 2 ^ 64" using assms(1,2) by (simp_all add: on_disk_def)
  then have sum: "unat (start_lba s) + unat (bio_cursor s div block_size s) < 2 ^ 64"
    unfolding div by linarith
  have lba: "unat ?lba = unat (start_lba s) + ?c div ?bs"
    using unat_add_lem [of "start_lba s" "bio_cursor s div block_size s"] sum div by simp
  have "io_read_blocks (bio s) (bio_media_id s) ?lba n = Ok b"
    using assms(1,3) by (auto simp: read_blocks_def ok_iff on_disk_def split: if_splits)
  then have "b = take n (drop (unat ?lba * ?bs) dsk) \<and> length b = n"
    using dsk by (auto simp: reads_disk_def)
  then show ?thesis 
    unfolding lba img add_mult_distrib drop_drop add.commute [of "?c div ?bs * ?bs"] .
qed

lemma on_disk_block: "on_disk s img \<Longrightarrow> 0 < unat (block_size s)"
  by (auto simp: on_disk_def unsigned_eq_0_iff intro: gr0I)

lemma read_blocks_returns: "on_disk s img \<Longrightarrow> read_blocks n s \<noteq> Halt h"
  by (auto simp: read_blocks_def on_disk_def reads_disk_def)

lemma div_mod_0: "c mod b = 0 \<Longrightarrow> c div b * b = c" for c b :: nat
  by auto

lemma next_block:
  assumes "0 < b"
  shows "(c + (b - c mod b)) mod b = (0 :: nat)"
proof -
  have "c + (b - c mod b) = c div b * b + b"
    using div_mult_mod_eq [of c b] mod_less_divisor [OF assms, of c] by linarith
  then show ?thesis by simp
qed

lemma bio_read_aligned_ok:
  assumes disk: "on_disk s img" and c: "unat (bio_cursor s) < unat (bio_size s)"
    and al: "unat (bio_cursor s) mod unat (block_size s) = 0"
    and run: "bio_read_aligned pre n s = (Ok bs, s')"
  shows "\<exists>m \<le> n. bs = pre @ take m (drop (unat (bio_cursor s)) img) \<and> length bs = length pre + m \<and>
    s' = advance m s \<and> (0 < n \<longrightarrow> 0 < m)"
proof (cases "n < unat (block_size s)")
  case True
  then obtain block where "read_blocks (unat (block_size s)) s = Ok block"
    and fin: "n \<le> length block" "bs = pre @ take n block" "s' = advance n s"
    using run by (auto simp: bio_read_aligned_def Let_def ok_iff)
  then have "block = take (unat (block_size s)) (drop (unat (bio_cursor s)) img)" "length block = unat (block_size s)"
    using read_blocks_disk [OF disk c] div_mod_0 [OF al] by auto
  with True fin show ?thesis by (intro exI [of _ n]) simp
next
  case False
  let ?full = "n div unat (block_size s) * unat (block_size s)"
  obtain b where "read_blocks ?full s = Ok b" and fin: "bs = pre @ b" "s' = advance ?full s"
    using run False by (auto simp: bio_read_aligned_def Let_def ok_iff)
  then have "b = take ?full (drop (unat (bio_cursor s)) img)" "length b = ?full"
    using read_blocks_disk [OF disk c] div_mod_0 [OF al] by auto
  moreover have "0 < ?full"
    using on_disk_block [OF disk] False by (simp add: div_greater_zero_iff)
  ultimately show ?thesis using fin by (intro exI [of _ ?full]) simp
qed

lemma bio_read_ok:
  assumes disk: "on_disk s img" and run: "bio_read len s = (Ok bs, s')"
    and c: "unat (bio_cursor s) < unat (bio_size s)"
  shows "\<exists>m \<le> min len (unat (bio_size s) - unat (bio_cursor s)).
    bs = take m (drop (unat (bio_cursor s)) img) \<and> length bs = m \<and> s' = advance m s \<and> (0 < len \<longrightarrow> 0 < m)"
proof -
  let ?c = "unat (bio_cursor s)" and ?bs = "unat (block_size s)"
  have left: "unat (bio_size s - bio_cursor s) = unat (bio_size s) - ?c"
    using c by (intro unat_sub) (simp add: word_le_nat_alt)
  define len' where "len' = (if unat (bio_size s) - ?c < len then unat (bio_size s) - ?c else len)"
  have len': "len' \<le> min len (unat (bio_size s) - ?c)" "0 < len \<longrightarrow> 0 < len'"
    using c by (auto simp: len'_def)
  have bs: "0 < ?bs" "block_size s \<noteq> 0" "block_size s \<le> 4096"
    using disk by (auto simp: on_disk_def unsigned_eq_0_iff intro: gr0I)
  have off: "unat (bio_cursor s mod block_size s) = ?c mod ?bs" by (rule unat_mod_distrib)
  have nge: "\<not> bio_size s \<le> bio_cursor s" using c by (simp add: word_le_nat_alt)
  show ?thesis
  proof (cases "?c mod ?bs = 0")
    case True
    then have "bio_read_aligned [] len' s = (Ok bs, s')"
      using run nge bs off by (simp add: bio_read_def Let_def left len'_def)
    from bio_read_aligned_ok [OF disk c True this] show ?thesis using len' by fastforce
  next
    case False
    then have "bio_read len s =
        pbind (\<lambda>s. (read_blocks ?bs s, s)) (\<lambda>block.
        pbind (pure (slice block (?c mod ?bs) (length block))) (\<lambda>block s.
          if len' \<le> length block then
            pbind (pure (slice block 0 len')) (\<lambda>b s. (Ok b, advance len' s)) s
          else bio_read_aligned block (len' - length block) (advance (length block) s))) s"
      unfolding bio_read_def Let_def left len'_def off using nge bs by simp
    note run [unfolded this]
    then obtain b1 where b1: "read_blocks ?bs s = Ok b1" and fin:
      "(if len' \<le> length b1 - ?c mod ?bs
       then (Ok (take len' (drop (?c mod ?bs) b1)), advance len' s)
       else bio_read_aligned (drop (?c mod ?bs) b1) (len' - (length b1 - ?c mod ?bs))
         (advance (length b1 - ?c mod ?bs) s)) = (Ok bs, s')"
      by (auto simp: ok_iff split: if_splits)
    let ?k = "?bs - ?c mod ?bs"
    have k: "length b1 = ?bs" "drop (?c mod ?bs) b1 = take ?k (drop ?c img)"
      using read_blocks_disk [OF disk c b1] mult_div_mod_drop [of ?c ?bs img] by auto
    have lk: "length (take ?k (drop ?c img)) = ?k" using k by (metis length_drop)
    show ?thesis
    proof (cases "len' \<le> ?k")
      case True
      then show ?thesis using fin k lk len' by (intro exI [of _ len']) (auto simp: min_def)
    next
      case False
      have small: "?c + ?k < 2 ^ 64" "?c + ?k < unat (bio_size s)"
        using False len' disk by (auto simp: on_disk_def)
      let ?s = "advance ?k s"
      have c': "unat (bio_cursor ?s) = ?c + ?k" using unat_add_small [OF small(1)] by simp
      have al: "(?c + ?k) mod ?bs = 0" using bs(1)
        by (rule next_block)
      have aligned: "bio_read_aligned (take ?k (drop ?c img)) (len' - ?k) ?s = (Ok bs, s')"
        using fin False k by simp
      have d: "on_disk ?s img" using disk by (simp only: on_disk_advance)
      have cu: "unat (bio_cursor ?s) < unat (bio_size ?s)"
        unfolding c' advance_sel(4) by (rule small(2))
      have "unat (bio_cursor ?s) mod unat (block_size ?s) = 0"
        unfolding c' advance_sel(5) by (rule al)
      from bio_read_aligned_ok [OF d cu this aligned, unfolded c' lk]
      obtain m where m: "m \<le> len' - ?k" "bs = take ?k (drop ?c img) @ take m (drop (?c + ?k) img)"
        "length bs = ?k + m" "s' = advance m ?s"
        by blast
      have "bs = take (?k + m) (drop ?c img)" 
        unfolding m(2) take_add drop_drop by (simp only: add.commute)
      moreover have "s' = advance (?k + m) s" using m(4) by (simp add: advance_def add.assoc)
      moreover have "?k + m \<le> len'" "0 < ?k" using m(1) False bs(1) by auto
      ultimately show ?thesis using m(3) len' by (intro exI [of _ "?k + m"]) auto
    qed
  qed
qed

text \<open>No read panics: every slice the code takes is in bounds.\<close>

lemma read_blocks_length:
  assumes "on_disk s img" "read_blocks n s = Ok b"
  shows "length b = n"
  using assms by (auto simp: on_disk_def reads_disk_def read_blocks_def ok_iff split: if_splits)

lemma bio_read_aligned_returns:
  assumes "on_disk s img"
  shows "bio_read_aligned pre n s \<noteq> (Halt h, s')"
  using read_blocks_returns [OF assms] read_blocks_length [OF assms]
  by (auto simp: bio_read_aligned_def pbind_def pure_def slice_def Let_def split: outcome.splits)

lemma bio_read_returns:
  assumes "on_disk s img"
  shows "bio_read len s \<noteq> (Halt h, s')"
proof -
  have bs: "block_size s \<noteq> 0" "block_size s \<le> 4096" using assms by (auto simp: on_disk_def)
  have "unat (bio_cursor s mod block_size s) \<le> unat (block_size s)"
    using on_disk_block [OF assms] by (simp add: unat_mod_distrib)
  moreover have "\<And>k pre n. bio_read_aligned pre n (advance k s) \<noteq> (Halt h, s')" "\<And>pre n. bio_read_aligned pre n s \<noteq> (Halt h, s')"
    using assms by (simp_all add: bio_read_aligned_returns)
  ultimately show ?thesis
    using bs read_blocks_returns [OF assms] read_blocks_length [OF assms]
    by (auto simp: bio_read_def pbind_def pure_def slice_def Let_def split: outcome.splits)
qed

lemma block_rep_cursor:
  assumes "block_rep s xs p" "unat (bio_cursor t) = q" "q < 2 ^ 63"
    and "bio t = bio s" "bio_media_id t = bio_media_id s" "start_lba t = start_lba s" "bio_size t = bio_size s"
      "block_size t = block_size s"
  shows "block_rep t xs q"
  using assms by (auto simp: block_rep_def on_disk_def)

lemma block_rep_read:
  assumes rep: "block_rep s xs p" and run: "bio_read n s = (Ok bs, s')"
  shows "block_rep s' xs (p + length bs) \<and> length bs \<le> n \<and> bs = take (length bs) (drop p xs) \<and>
    (bs = [] \<longrightarrow> n = 0 \<or> length xs \<le> p)"
proof (cases "bio_size s \<le> bio_cursor s")
  case True
  then have "bs = []" "s' = s" "length xs \<le> p"
    using rep run by (auto simp: bio_read_def block_rep_def word_le_nat_alt)
  then show ?thesis using rep by simp
next
  case False
  obtain img where img: "on_disk s img" "xs = take (unat (bio_size s)) img" "length xs = unat (bio_size s)"
    and p: "p = unat (bio_cursor s)" using rep by (auto simp: block_rep_def)
  have c: "unat (bio_cursor s) < unat (bio_size s)" using False by (simp add: word_le_nat_alt)
  obtain m where m: "m \<le> min n (unat (bio_size s) - p)" "bs = take m (drop p img)" "length bs = m"
    "s' = advance m s" "0 < n \<longrightarrow> 0 < m"
    using bio_read_ok [OF img(1) run c] unfolding p by blast
  have "p + m < 2 ^ 63" using m(1) c p img(1) by (auto simp: on_disk_def)
  then have "unat (bio_cursor s') = p + m"
    using unat_add_small [of "bio_cursor s" m] p m(4) by simp
  then have "block_rep s' xs (p + m)"
    using block_rep_cursor [OF rep, of s'] \<open>p + m < 2 ^ 63\<close> m(4) by simp
  moreover have "bs = take m (drop p xs)"
    using m(1,2) c p img(2) by (simp add: drop_take min_absorb1)
  ultimately show ?thesis using m by auto
qed

lemma u64_of_int_Some: "u64_of_int i = Some w \<longleftrightarrow> int (unat w) = i"
proof
  assume "u64_of_int i = Some w"
  then show "int (unat w) = i"
    by (auto simp: u64_of_int_def uint_word_of_int split: if_splits)
next
  assume i: "int (unat w) = i"
  then have "0 \<le> i" "i < 2 ^ 64" "word_of_int i = w" using unsigned_less [of w] by auto
  then show "u64_of_int i = Some w" by (simp add: u64_of_int_def)
qed

lemma block_rep_signed:
  assumes rep: "block_rep s xs p" and base: "unat (a :: u64) < 2 ^ 63"
    and c: "u64_of_int (sint (a + off)) = Some c"
  shows "int (unat c) = int (unat a) + sint off \<and> block_rep (s\<lparr>bio_cursor := c\<rparr>) xs (unat c)"
proof -
  have e: "int (unat c) = sint (a + off)" using c by (simp add: u64_of_int_Some)
  have "0 \<le> sint (a + off)" unfolding e [symmetric] by simp
  from sint_add_offset [OF base this] have "int (unat c) = int (unat a) + sint off" by (simp only: e)
  moreover have "int (unat c) < int (2 ^ 63)" unfolding e using sint64_bounds [of "a + off"] by simp
  then have "unat c < 2 ^ 63" by (simp only: of_nat_less_iff)
  ultimately show ?thesis using block_rep_cursor [OF rep, of "s\<lparr>bio_cursor := c\<rparr>"] by simp
qed

interpretation block_reader: full_stream block_io_ops block_rep
proof (unfold_locales, goal_cases)
  case (1 s xs p)
  then show ?case by (auto simp: block_rep_def on_disk_def)
next
  case (2 s xs p n bs s')
  then show ?case using block_rep_read [of s xs p n bs s'] by (simp add: block_io_ops_def)
next
  case (3 s xs p n s')
  then show ?case using block_rep_read [of s xs p n "[]" s'] by (simp add: block_io_ops_def)
next
  case (4 s xs p n h s')
  then show ?case by (auto simp: block_io_ops_def block_rep_def bio_read_returns)
next
  case (5 s xs p off q s')
  then have "unat off < 2 ^ 63" by (auto simp: block_rep_def on_disk_def)
  then show ?case
    using 5 block_rep_cursor [OF 5(1), of "s\<lparr>bio_cursor := off\<rparr>"] by (auto simp: block_io_ops_def bio_seek_def)
next
  case (6 s xs p off q s')
  then have "unat (bio_cursor s) < 2 ^ 63" "p = unat (bio_cursor s)" by (auto simp: block_rep_def)
  then show ?case
    using 6 block_rep_signed [OF 6(1), of "bio_cursor s" off q]
    by (auto simp: block_io_ops_def bio_seek_def split: option.splits)
next
  case (7 s xs p off h s')
  then show ?case by (auto simp: block_io_ops_def bio_seek_def)
next
  case (8 s xs p off q s')
  then have "unat (bio_size s) < 2 ^ 63" "length xs = unat (bio_size s)" by (auto simp: block_rep_def on_disk_def)
  then show ?case
    using 8 block_rep_signed [OF 8(1), of "bio_size s" off q]
    by (auto simp: block_io_ops_def bio_seek_def split: option.splits)
qed

section \<open>OptimizedSeek and PartialReader\<close>

definition opt_rep :: "('s \<Rightarrow> u8 list \<Rightarrow> nat \<Rightarrow> bool) \<Rightarrow> 's optimized_seek \<Rightarrow> u8 list \<Rightarrow> nat \<Rightarrow> bool" where
  "opt_rep rep s xs p \<longleftrightarrow> rep (opt_inner s) xs p \<and> (\<forall>c. opt_cursor s = Some c \<longrightarrow> unat c = p)"

definition part_rep :: "('s \<Rightarrow> u8 list \<Rightarrow> nat \<Rightarrow> bool) \<Rightarrow> 's partial_reader \<Rightarrow> u8 list \<Rightarrow> nat \<Rightarrow> bool" where
  "part_rep rep s xs p \<longleftrightarrow> \<not> need_reset s \<and> p = unat (part_cursor s) \<and>
     (\<exists>ys. rep (part_inner s) ys (unat (part_start s) + p) \<and>
        unat (part_start s) + unat (part_size s) \<le> length ys \<and>
        xs = take (unat (part_size s)) (drop (unat (part_start s)) ys))"

lemma opt_shortcut_start: "opt_shortcut (Start off) s = Some q \<Longrightarrow> opt_cursor s = Some q \<and> q = off"
  by (auto simp: opt_shortcut_def split: option.splits if_splits)

lemma opt_shortcut_current: "opt_shortcut (Current off) s = Some q \<Longrightarrow> opt_cursor s = Some q \<and> off = 0"
  by (auto simp: opt_shortcut_def split: option.splits if_splits)

text \<open>A seek of the optimised reader that is not answered from the cached cursor.\<close>

lemma opt_seek_through:
  assumes "opt_seek R pos s = (Ok q, s')" "opt_shortcut pos (s\<lparr>total_seeks_n := total_seeks_n s + 1\<rparr>) = None"
  shows "sk R pos (opt_inner s) = (Ok q, opt_inner s') \<and> opt_cursor s' = Some q"
proof -
  let ?s0 = "s\<lparr>total_seeks_n := total_seeks_n s + 1, unstopped_seeks := unstopped_seeks s + 1\<rparr>"
  obtain t where t: "sk R pos (opt_inner s) = (Ok q, t)"
    and s': "s' = (let s1 = ?s0\<lparr>opt_inner := t, opt_cursor := Some q\<rparr> in
      case pos of
        End offset \<Rightarrow>
          (if opt_end s1 = None
           then s1\<lparr>opt_end := Option.bind (i64_checked_neg offset) (add_end_offset q)\<rparr>
           else s1)
      | _ \<Rightarrow> s1)"
    using assms(1) unfolding opt_seek_def Let_def assms(2) option.case pbind_Ok_iff zoom_Ok_iff by auto
  then have "opt_inner s' = t \<and> opt_cursor s' = Some q"
    by (cases pos) (simp_all add: Let_def)
  with t show ?thesis by simp
qed

lemma opt_seek_shortcut:
  assumes "opt_shortcut pos (s\<lparr>total_seeks_n := total_seeks_n s + 1\<rparr>) = Some c"
  shows "opt_seek R pos s = (Ok c, s\<lparr>total_seeks_n := total_seeks_n s + 1\<rparr>)"
  using assms by (simp add: opt_seek_def Let_def)

lemma opt_seek_Halt:
  "opt_seek R pos s = (Halt h, s') \<Longrightarrow> sk R pos (opt_inner s) = (Halt h, opt_inner s')"
  by (auto simp: opt_seek_def Let_def pbind_def zoom_def split: option.splits outcome.splits prod.splits)

context stream
begin

lemma opt_read_ok:
  assumes "opt_rep rep s xs p" "opt_read R n s = (Ok bs, s')"
  shows "rd R n (opt_inner s) = (Ok bs, opt_inner s') \<and> opt_rep rep s' xs (p + length bs)"
proof -
  obtain t where run: "rd R n (opt_inner s) = (Ok bs, t)"
    and s': "s' = s\<lparr>opt_inner := t, opt_cursor := map_option (\<lambda>c. c + word_of_nat (length bs)) (opt_cursor s)\<rparr>"
    using assms(2) by (auto simp: opt_read_def ok_iff)
  have "rep t xs (p + length bs)" using rd_ok [OF _ run] assms(1) by (auto simp: opt_rep_def)
  moreover from this have "p + length bs < 2 ^ 64" using rep_small by fastforce
  ultimately show ?thesis
    using assms(1) run s' unat_add_small by (auto simp: opt_rep_def)
qed

lemma opt_stream: "stream (opt_ops R) (opt_rep rep)"
proof (unfold_locales, goal_cases)
  case (1 s xs p)
  then show ?case using rep_small by (auto simp: opt_rep_def)
next
  case (2 s xs p n bs s')
  then show ?case using opt_read_ok [OF 2(1), of n bs s'] rd_ok [of "opt_inner s" xs p n bs]
    by (auto simp: opt_ops_def opt_rep_def)
next
  case (3 s xs p n s')
  then show ?case using opt_read_ok [OF 3(1), of n "[]" s'] rd_progress [of "opt_inner s" xs p n]
    by (auto simp: opt_ops_def opt_rep_def)
next
  case (4 s xs p n h s')
  then show ?case using rd_returns [of "opt_inner s" xs p n]
    by (auto simp: opt_ops_def opt_rep_def opt_read_def pbind_def zoom_def split: outcome.splits prod.splits)
next
  case (5 s xs p off q s')
  then have run: "opt_seek R (Start off) s = (Ok q, s')" by (simp add: opt_ops_def)
  show ?case
  proof (cases "opt_shortcut (Start off) (s\<lparr>total_seeks_n := total_seeks_n s + 1\<rparr>)")
    case None
    from opt_seek_through [OF run None] sk_start [OF _ 5(2)] 5(1) show ?thesis by (auto simp: opt_rep_def)
  next
    case (Some c)
    from opt_seek_shortcut [OF Some, of R] run opt_shortcut_start [OF Some] 5(1)
    show ?thesis by (auto simp: opt_rep_def)
  qed
next
  case (6 s xs p off q s')
  then have run: "opt_seek R (Current off) s = (Ok q, s')" by (simp add: opt_ops_def)
  show ?case
  proof (cases "opt_shortcut (Current off) (s\<lparr>total_seeks_n := total_seeks_n s + 1\<rparr>)")
    case None
    from opt_seek_through [OF run None] sk_current [of "opt_inner s" xs p off q] 6(1)
    show ?thesis by (auto simp: opt_rep_def)
  next
    case (Some c)
    from opt_seek_shortcut [OF Some, of R] run opt_shortcut_current [OF Some] 6(1)
    show ?thesis by (auto simp: opt_rep_def)
  qed
next
  case (7 s xs p off h s')
  then show ?case using opt_seek_Halt [of R "Start off" s h s'] sk_returns [of "opt_inner s" xs p off]
    by (auto simp: opt_ops_def opt_rep_def)
qed

text \<open>A window of the stream, once it has been positioned.\<close>

lemma part_read_run:
  assumes "\<not> need_reset s"
  shows "part_read R len s =
    (if part_cursor s \<ge> part_size s then (Ok [], s)
     else let left = unat (part_size s - part_cursor s);
         len = (if len > left then left else len)
       in pbind (part_zoom (rd R len)) (\<lambda>b s.
          case u64_checked_add (part_cursor s) (word_of_nat (length b)) of
            None \<Rightarrow> (Panic, s)
          | Some c \<Rightarrow> (Ok b, s\<lparr>part_cursor := c\<rparr>)) s)"
  using assms by (simp add: part_read_def pbind_def)

lemma checked_add_Some:
  "unat a + n < 2 ^ 64 \<Longrightarrow> u64_checked_add a (word_of_nat n) = Some (a + word_of_nat n)"
  using unat_add_small [of a n] unat_u64_of_nat [of n]
  by (simp only: u64_checked_add_def u64_of_int_Some uint_nat)

lemma part_rep_small: "part_rep rep s xs p \<Longrightarrow> unat (part_start s) + p < 2 ^ 63 \<and> length xs = unat (part_size s) \<and>
    unat (part_start s) + unat (part_size s) < 2 ^ 63"
  using rep_small by (fastforce simp: part_rep_def)

lemma part_read_cases:
  assumes rep: "part_rep rep s xs p" and run: "part_read R n s = (r, s')"
  shows "(\<forall>h. r \<noteq> Halt h) \<and> (\<forall>bs. r = Ok bs \<longrightarrow>
    part_rep rep s' xs (p + length bs) \<and> length bs \<le> n \<and> bs = take (length bs) (drop p xs) \<and>
    (bs = [] \<longrightarrow> n = 0 \<or> length xs \<le> p))"
proof (cases "part_size s \<le> part_cursor s")
  case True
  have nr: "\<not> need_reset s" using rep by (simp add: part_rep_def)
  with True run have "r = Ok []" "s' = s" by (auto simp: part_read_run)
  moreover have "length xs \<le> p" using True part_rep_small [OF rep] rep
    by (simp add: part_rep_def word_le_nat_alt)
  ultimately show ?thesis using rep by simp
next
  case False
  have nr: "\<not> need_reset s" and p: "p = unat (part_cursor s)" using rep by (auto simp: part_rep_def)
  obtain ys where ys: "rep (part_inner s) ys (unat (part_start s) + p)"
    "unat (part_start s) + unat (part_size s) \<le> length ys" "xs = take (unat (part_size s)) (drop (unat (part_start s)) ys)"
    using rep by (auto simp: part_rep_def)
  have lt: "p < unat (part_size s)" using False p by (simp add: word_le_nat_alt)
  have left: "unat (part_size s - part_cursor s) = unat (part_size s) - p"
    using lt p by (subst unat_sub) (simp_all add: word_le_nat_alt)
  define len where "len = (if n > unat (part_size s) - p then unat (part_size s) - p else n)"
  have len: "len \<le> n" "len \<le> unat (part_size s) - p" "len = 0 \<longrightarrow> n = 0" using lt by (auto simp: len_def)
  have run': "pbind (part_zoom (rd R len)) (\<lambda>b s.
          case u64_checked_add (part_cursor s) (word_of_nat (length b)) of
            None \<Rightarrow> (Panic, s)
          | Some c \<Rightarrow> (Ok b, s\<lparr>part_cursor := c\<rparr>)) s = (r, s')"
    using run unfolding part_read_run [OF nr] Let_def left len_def using False by simp
  obtain ri t where inner: "rd R len (part_inner s) = (ri, t)" by fastforce
  have nh: "ri \<noteq> Halt h" for h using rd_returns [OF ys(1), of len h t] inner by auto
  show ?thesis
  proof (cases ri)
    case (Ok b)
    note ok = rd_ok [OF ys(1) inner [unfolded Ok]]
    have small: "p + length b < 2 ^ 63" using ok len(2) lt part_rep_small [OF rep] by linarith
    have "u64_checked_add (part_cursor s) (word_of_nat (length b)) = Some (part_cursor s + word_of_nat (length b))"
      using small p by (intro checked_add_Some) simp
    then have fin: "r = Ok b" "s' = s\<lparr>part_inner := t, part_cursor := part_cursor s + word_of_nat (length b)\<rparr>"
      using run' inner Ok by (auto simp: pbind_def zoom_def)
    have c: "unat (part_cursor s + word_of_nat (length b)) = p + length b"
      using unat_add_small [of "part_cursor s" "length b"] small p by simp
    have "part_rep rep s' xs (p + length b)"
      using ok ys nr c by (auto simp: part_rep_def fin(2) add.assoc)
    moreover have "b = take (length b) (drop p xs)"
    proof -
      have "length b \<le> unat (part_size s) - p" using ok len(2) by linarith
      then have "take (length b) (drop p xs) = take (length b) (drop (p + unat (part_start s)) ys)"
        by (simp add: ys(3) drop_take min_absorb1)
      then show ?thesis using ok by (simp add: add.commute)
    qed
    moreover have "b = [] \<longrightarrow> n = 0"
      using rd_progress [OF ys(1), of len t] inner Ok len(3) lt ys(2) by auto
    ultimately show ?thesis using fin(1) ok len(1) by auto
  qed (use run' inner nh in \<open>auto simp: pbind_def zoom_def\<close>)
qed

text \<open>What a seek of the window asks of the reader below it.\<close>

lemma part_seek_run:
  "part_seek R pos s =
     (case part_target pos (s\<lparr>need_reset := False\<rparr>) of
        Ok target \<Rightarrow> pbind (part_zoom (sk R target)) (\<lambda>p s.
           if part_start s > p then (Err InvalidInput, s)
           else (Ok (p - part_start s), s\<lparr>part_cursor := p - part_start s\<rparr>)) (s\<lparr>need_reset := False\<rparr>)
      | Err e \<Rightarrow> (Err e, s\<lparr>need_reset := False\<rparr>)
      | Halt h \<Rightarrow> (Halt h, s\<lparr>need_reset := False\<rparr>))"
  by (auto simp: part_seek_def pbind_def pure_def split: outcome.splits)

lemma part_seek_ok:
  assumes run: "part_seek R pos s = (Ok q, s')"
  shows "\<exists>target p t. part_target pos (s\<lparr>need_reset := False\<rparr>) = (Ok target :: ('e io_error, _) outcome) \<and>
    sk R target (part_inner s) = (Ok p, t) \<and> part_start s \<le> p \<and> q = p - part_start s \<and>
    s' = s\<lparr>need_reset := False, part_inner := t, part_cursor := q\<rparr>"
  using run unfolding part_seek_run
  by (auto simp: ok_iff not_less split: outcome.splits if_splits)

text \<open>
  A seek that the reader below answers with position \<open>start + q\<close> leaves the window at \<open>q\<close>.
\<close>

lemma part_rep_at:
  assumes "rep t ys (unat p)" "part_start s \<le> p"
    and "unat (part_start s) + unat (part_size s) \<le> length ys"
    and "xs = take (unat (part_size s)) (drop (unat (part_start s)) ys)"
  shows "part_rep rep (s\<lparr>need_reset := False, part_inner := t, part_cursor := p - part_start s\<rparr>) xs
      (unat (p - part_start s)) \<and> unat (p - part_start s) = unat p - unat (part_start s)"
  using assms by (auto simp: part_rep_def unat_sub word_le_nat_alt)

lemma part_target_start:
  assumes "unat (part_start s) + unat off < 2 ^ 64"
  shows "part_target (Start off) s = Ok (Start (part_start s + off))"
  using checked_add_Some [of "part_start s" "unat off"] assms
  by (simp add: part_target_def unwrap_def)

lemma i64_of_int_Some:
  assumes "i64_of_int i = Some w"
  shows "sint w = i"
proof -
  have "- (2 ^ 63) \<le> i" "i < 2 ^ 63" "w = word_of_int i"
    using assms by (simp_all add: i64_of_int_def split: if_splits)
  then show ?thesis using signed_take_bit_int_eq_self [of 63 i] by (simp only: sint_sbintrunc') simp
qed

lemma part_target_end:
  assumes "part_target (End off) s = Ok target" "unat (part_start s) + unat (part_size s) < 2 ^ 63"
  shows "\<exists>e. target = Start e \<and> int (unat e) = int (unat (part_start s) + unat (part_size s)) + sint off"
proof -
  obtain d e where d: "i64_of_int (sint (part_start s + part_size s) + sint off) = Some d"
    and e: "u64_of_int (sint d) = Some e" "target = Start e"
    using assms(1) by (auto simp: part_target_def unwrap_def ok_iff split: option.splits)
  have "sint (part_start s + part_size s) = int (unat (part_start s) + unat (part_size s))"
    using assms(2) unat_add_word [of "part_start s" "part_size s"]
      sint_small [of "part_start s + part_size s"] by simp
  then show ?thesis using i64_of_int_Some [OF d] e by (simp add: u64_of_int_Some)
qed

lemma part_seek_any:
  assumes ys: "rep (part_inner s) ys p0" "unat (part_start s) + unat (part_size s) \<le> length ys"
    and xs: "xs = take (unat (part_size s)) (drop (unat (part_start s)) ys)" and off: "unat off \<le> unat (part_size s)"
  shows "part_seek R (Start off) s = (Ok q, s') \<Longrightarrow> q = off \<and> part_rep rep s' xs (unat off)"
    and "part_seek R (Start off) s \<noteq> (Halt h, s')"
proof -
  let ?s = "s\<lparr>need_reset := False\<rparr>"
  have "length ys < 2 ^ 63" using rep_small [OF ys(1)] by simp
  then have small: "unat (part_start s) + unat off < 2 ^ 64" "unat (part_start s) + unat off \<le> length ys"
    using off ys(2) by auto
  have sum: "unat (part_start s + off) = unat (part_start s) + unat off" using small by (intro unat_add_word)
  have target: "part_target (Start off) ?s = Ok (Start (part_start s + off))"
    using part_target_start [of ?s off] small by simp
  show "part_seek R (Start off) s \<noteq> (Halt h, s')"
    using sk_returns [OF ys(1), of "part_start s + off"] small sum
    by (auto simp: part_seek_run target pbind_def zoom_def split: outcome.splits prod.splits)
  assume run: "part_seek R (Start off) s = (Ok q, s')"
  obtain v t where v: "sk R (Start (part_start s + off)) (part_inner s) = (Ok v, t)" "part_start s \<le> v"
    "q = v - part_start s" "s' = s\<lparr>need_reset := False, part_inner := t, part_cursor := q\<rparr>"
    using part_seek_ok [OF run] by (auto simp: target)
  then have "v = part_start s + off" "rep t ys (unat v)"
    using sk_start [OF ys(1) _ v(1)] small sum by auto
  then show "q = off \<and> part_rep rep s' xs (unat off)"
    using part_rep_at [of t ys v s xs] v ys(2) xs by (simp add: sum)
qed

lemma part_seek_start:
  assumes rep: "part_rep rep s xs p" and off: "unat off \<le> length xs"
  shows "part_seek R (Start off) s = (Ok q, s') \<Longrightarrow> q = off \<and> part_rep rep s' xs (unat off)"
    and "part_seek R (Start off) s \<noteq> (Halt h, s')"
proof -
  obtain ys where ys: "rep (part_inner s) ys (unat (part_start s) + p)"
    "unat (part_start s) + unat (part_size s) \<le> length ys" "xs = take (unat (part_size s)) (drop (unat (part_start s)) ys)"
    using rep by (auto simp: part_rep_def)
  have "unat off \<le> unat (part_size s)" using off part_rep_small [OF rep] by simp
  note any = part_seek_any [OF ys this]
  show "part_seek R (Start off) s = (Ok q, s') \<Longrightarrow> q = off \<and> part_rep rep s' xs (unat off)" by (rule any(1))
  show "part_seek R (Start off) s \<noteq> (Halt h, s')" by (rule any(2))
qed

text \<open>The first read of a fresh window starts at the window, wherever the reader below stands.\<close>

lemma part_read_fresh:
  assumes ys: "rep inner ys p0" "unat start + unat sz \<le> length ys"
    and run: "part_read R n (partial_reader_new inner start sz) = (Ok bs, s')"
  shows "part_rep rep s' (take (unat sz) (drop (unat start) ys)) (length bs) \<and> length bs \<le> n \<and>
    bs = take (length bs) (take (unat sz) (drop (unat start) ys))"
proof -
  let ?new = "partial_reader_new inner start sz" and ?xs = "take (unat sz) (drop (unat start) ys)"
  have sel: "part_inner ?new = inner" "part_start ?new = start" "part_size ?new = sz" "need_reset ?new"
    by (simp_all add: partial_reader_new_def)
  obtain q s1 where seek: "part_seek R (Start 0) (?new\<lparr>need_reset := False\<rparr>) = (Ok q, s1)"
    and rest: "part_read R n s1 = (Ok bs, s')"
  proof -
    obtain r1 s1 where seek: "part_seek R (Start 0) (?new\<lparr>need_reset := False\<rparr>) = (r1, s1)" by fastforce
    then obtain q where q: "r1 = Ok q" using run sel(4) by (cases r1) (auto simp: part_read_def pbind_def)
    have nr: "\<not> need_reset s1" using part_seek_ok [OF seek [unfolded q]] by auto
    then have "part_read R n s1 = (Ok bs, s')"
      using run sel(4) seek q by (simp add: part_read_def pbind_def pure_def)
    with seek q that show ?thesis by blast
  qed
  have "part_rep rep s1 ?xs 0"
    using part_seek_any(1) [of "?new\<lparr>need_reset := False\<rparr>" ys p0 ?xs 0 q s1] ys seek sel by simp
  from part_read_cases [OF this rest] show ?thesis by auto
qed

lemma part_stream: "full_stream (part_ops R) (part_rep rep)"
proof (unfold_locales, goal_cases)
  case (1 s xs p)
  then show ?case using part_rep_small [of s xs p] by linarith
next
  case (2 s xs p n bs s')
  then show ?case using part_read_cases [OF 2(1), of n "Ok bs" s'] by (simp add: part_ops_def)
next
  case (3 s xs p n s')
  then show ?case using part_read_cases [OF 3(1), of n "Ok []" s'] by (simp add: part_ops_def)
next
  case (4 s xs p n h s')
  then show ?case using part_read_cases [OF 4(1), of n "Halt h" s'] by (auto simp: part_ops_def)
next
  case (5 s xs p off q s')
  then show ?case using part_seek_start(1) [OF 5(1,2), of q s'] by (simp add: part_ops_def)
next
  case (6 s xs p off q s')
  then have run: "part_seek R (Current off) s = (Ok q, s')" by (simp add: part_ops_def)
  obtain ys where ys: "rep (part_inner s) ys (unat (part_start s) + p)"
    "unat (part_start s) + unat (part_size s) \<le> length ys" "xs = take (unat (part_size s)) (drop (unat (part_start s)) ys)"
    using 6(1) by (auto simp: part_rep_def)
  obtain v t where v: "sk R (Current off) (part_inner s) = (Ok v, t)" "part_start s \<le> v"
    "q = v - part_start s" "s' = s\<lparr>need_reset := False, part_inner := t, part_cursor := q\<rparr>"
    using part_seek_ok [OF run] by (auto simp: part_target_def)
  have "int (unat v) = int (unat (part_start s) + p) + sint off" "rep t ys (unat v)"
    using sk_current [OF ys(1) v(1)] by auto
  then show ?case using part_rep_at [of t ys v s xs] v ys(2,3) by (auto simp: word_le_nat_alt)
next
  case (7 s xs p off h s')
  then show ?case using part_seek_start(2) [OF 7(1,2), of h s'] by (simp add: part_ops_def)
next
  case (8 s xs p off q s')
  then have run: "part_seek R (End off) s = (Ok q, s')" by (simp add: part_ops_def)
  obtain ys where ys: "rep (part_inner s) ys (unat (part_start s) + p)"
    "unat (part_start s) + unat (part_size s) \<le> length ys" "xs = take (unat (part_size s)) (drop (unat (part_start s)) ys)"
    using 8(1) by (auto simp: part_rep_def)
  let ?s = "s\<lparr>need_reset := False\<rparr>"
  obtain target v t where v: "part_target (End off) ?s = (Ok target :: ('e io_error, _) outcome)"
    "sk R target (part_inner s) = (Ok v, t)" "part_start s \<le> v" "q = v - part_start s"
    "s' = s\<lparr>need_reset := False, part_inner := t, part_cursor := q\<rparr>"
    using part_seek_ok [OF run] by blast
  obtain e where e: "target = Start e" "int (unat e) = int (unat (part_start s) + unat (part_size s)) + sint off"
    using part_target_end [OF v(1)] part_rep_small [OF 8(1)] by auto
  have "unat e \<le> length ys" using e(2) 8(2) ys(2) by linarith
  then have "v = e" "rep t ys (unat v)" using sk_start [OF ys(1) _ v(2) [unfolded e(1)]] by auto
  moreover have "length xs = unat (part_size s)" using part_rep_small [OF 8(1)] by simp
  ultimately show ?case using part_rep_at [of t ys v s xs] v ys(2,3) e(2) by (auto simp: word_le_nat_alt)
qed

end

section \<open>The readers the program builds\<close>

text \<open>
  \<^verbatim>\<open>find_read_file\<close> wraps a block reader in \<^verbatim>\<open>OptimizedSeek\<close>; every GPT partition on it is a
  \<^verbatim>\<open>PartialReader\<close> over that.
\<close>

interpretation disk_reader: stream "opt_ops block_io_ops" "opt_rep block_rep"
  by (rule block_reader.opt_stream)

interpretation partition_reader: full_stream "part_ops (opt_ops block_io_ops)" "part_rep (opt_rep block_rep)"
  by (rule disk_reader.part_stream)

text \<open>Seeks from the end, of the reader below and out of the cache.\<close>

lemma sint_of_int: "- (2 ^ 63) \<le> i \<Longrightarrow> i < 2 ^ 63 \<Longrightarrow> sint (word_of_int i :: u64) = i"
  by (simp add: signed_of_int signed_take_bit_int_eq_self)

lemma sint_nonneg: "uint (r :: u64) < 2 ^ 63 \<Longrightarrow> sint r = uint r"
  using sint_of_int [of "uint r"] uint_ge_0 [of r] by simp

lemma word_of_uint: "uint (r :: u64) = i \<Longrightarrow> word_of_int i = r"
  by auto

lemma bio_end_seek:
  assumes "uint r = uint (bio_size b) + sint off" "uint r < 2 ^ 63"
  shows "bio_seek (End off) b = (Ok r, b\<lparr>bio_cursor := r\<rparr>)"
proof -
  have "bio_size b + off = r" using word_of_uint [OF assms(1)] by simp
  then show ?thesis using sint_nonneg [OF assms(2)] assms(2) by (simp add: bio_seek_def u64_of_int_def)
qed

lemma add_end_offset_eq:
  assumes "uint e < 2 ^ 63" "uint q = uint e - sint off" "uint q < 2 ^ 63"
  shows "add_end_offset e off = Some q"
proof -
  have low: "- (2 ^ 63) \<le> uint x" for x :: u64 by (rule order_trans [OF _ uint_ge_0]) simp
  have "i64_of_int (uint e) = Some e" using assms(1) low [of e] by (simp add: i64_of_int_def)
  moreover have "i64_of_int (uint q) = Some q" "u64_of_int (uint q) = Some q"
    using assms(3) low [of q] by (simp_all add: i64_of_int_def u64_of_int_def)
  ultimately show ?thesis
    by (simp add: add_end_offset_def sint_nonneg [OF assms(1)] sint_nonneg [OF assms(3)] flip: assms(2))
qed

lemma opt_seek_first_end:
  assumes "opt_end s = None" "sk R (End off) (opt_inner s) = (Ok p, t)"
  shows "\<exists>s'. opt_seek R (End off) s = (Ok p, s') \<and> opt_cursor s' = Some p \<and> opt_inner s' = t \<and>
    opt_end s' = Option.bind (i64_checked_neg off) (add_end_offset p)"
proof -
  have "opt_shortcut (End off) (s\<lparr>total_seeks_n := n\<rparr>) = None" for n
    using assms(1) by (simp add: opt_shortcut_def split: option.split)
  then show ?thesis using assms by (simp add: opt_seek_def Let_def pbind_def zoom_def)
qed

lemma checked_neg_eq:
  assumes "- (2 ^ 63) < sint off"
  obtains m where "i64_checked_neg off = Some m" "sint m = - sint off"
proof (rule that)
  have off: "- (2 ^ 63) \<le> - sint off" "- sint off < 2 ^ 63" using assms sint64_bounds [of off] by simp_all
  then show "i64_checked_neg off = Some (word_of_int (- sint off))" by (simp only: i64_checked_neg_def i64_of_int_def) simp
  show "sint (word_of_int (- sint off) :: u64) = - sint off" by (rule sint_of_int [OF off])
qed

section \<open>Properties\<close>

text \<open>
  C11: what the block reader returns are the disk's bytes at its cursor, at most as many as
  asked for and at least one unless the destination is empty or the end is reached; the cursor
  moves past them. Whether the cursor is aligned to a block or not makes no difference.
\<close>

theorem block_read_correct:
  assumes "block_rep s xs p" "bio_read n s = (Ok bs, s')"
  shows "block_rep s' xs (p + length bs) \<and> length bs \<le> n \<and> bs = take (length bs) (drop p xs) \<and>
    (bs = [] \<longrightarrow> n = 0 \<or> length xs \<le> p)"
  using block_reader.rd_ok [of s xs p n bs s'] block_reader.rd_progress [of s xs p n s'] assms
  by (auto simp: block_io_ops_def)

definition four_byte_blocks :: "unit block_io_reader" where
  "four_byte_blocks = \<lparr>bio = \<lparr>media_id = 1, media_block_size = 4,
     io_read_blocks = (\<lambda>m lba n. if unat lba * 4 + n \<le> 8 then Ok (take n (drop (unat lba * 4) [1, 2, 3, 4, 5, 6, 7, 8])) else Err ())\<rparr>,
     bio_media_id = 1, start_lba = 0, bio_size = 8, bio_cursor = 3, block_size = 4\<rparr>"

lemma four_byte_blocks_rep: "block_rep four_byte_blocks [1, 2, 3, 4, 5, 6, 7, 8] 3"
proof -
  have "on_disk four_byte_blocks [1, 2, 3, 4, 5, 6, 7, 8]"
    unfolding on_disk_def
    by (intro conjI exI [of _ "[1, 2, 3, 4, 5, 6, 7, 8]"]) (auto simp: four_byte_blocks_def reads_disk_def)
  then show ?thesis
    unfolding block_rep_def by (intro conjI exI [of _ "[1, 2, 3, 4, 5, 6, 7, 8]"]) (auto simp: four_byte_blocks_def)
qed

lemma four_byte_blocks_read: "bio_read 3 four_byte_blocks = (Ok [4, 5, 6], four_byte_blocks\<lparr>bio_cursor := 6\<rparr>)"
  by (simp add: bio_read_def four_byte_blocks_def Let_def bio_read_aligned_def read_blocks_def pbind_def pure_def
      slice_def advance_def)

theorem block_read_correct_witness:
  "block_rep (four_byte_blocks\<lparr>bio_cursor := 6\<rparr>) [1, 2, 3, 4, 5, 6, 7, 8] 6"
  using block_read_correct [OF four_byte_blocks_rep four_byte_blocks_read] by simp

text \<open>
  C12: reading a partition to its end through a buffer of any size returns the partition's
  bytes from the current position on, through the window, the seek cache and the block reader.
\<close>

theorem partition_read_to_end:
  assumes "part_rep (opt_rep block_rep) s xs p" "0 < buf"
    and "read_to_end_loop (part_ops (opt_ops block_io_ops)) fuel buf [] s = (Ok bs, s')"
  shows "bs = drop p xs"
  using partition_reader.read_to_end_ok [OF assms] by simp

definition small_partition :: "unit block_io_reader optimized_seek partial_reader" where
  "small_partition = \<lparr>part_inner = optimized_seek_new (four_byte_blocks\<lparr>bio_cursor := 2\<rparr>),
     part_start = 2, part_size = 3, part_cursor = 0, need_reset = False\<rparr>"

lemma small_partition_rep: "part_rep (opt_rep block_rep) small_partition [3, 4, 5] 0"
proof -
  have "block_rep (four_byte_blocks\<lparr>bio_cursor := 2\<rparr>) [1, 2, 3, 4, 5, 6, 7, 8] 2"
    by (rule block_rep_cursor [OF four_byte_blocks_rep]) simp_all
  then show ?thesis
    unfolding part_rep_def opt_rep_def
    by (intro conjI exI [of _ "[1, 2, 3, 4, 5, 6, 7, 8]"]) (simp_all add: small_partition_def optimized_seek_new_def)
qed

lemma four_byte_reads:
  "bio_read 3 (four_byte_blocks\<lparr>bio_cursor := 2\<rparr>) = (Ok [3, 4, 5], four_byte_blocks\<lparr>bio_cursor := 5\<rparr>)"
  by (simp add: bio_read_def four_byte_blocks_def Let_def bio_read_aligned_def read_blocks_def pbind_def pure_def
      slice_def advance_def)

theorem partition_read_to_end_witness:
  "\<exists>s'. read_to_end_loop (part_ops (opt_ops block_io_ops)) 2 9 [] small_partition = (Ok [3, 4, 5], s')"
proof -
  have run1: "part_read (opt_ops block_io_ops) 9 small_partition =
      (Ok [3, 4, 5], small_partition\<lparr>part_inner := optimized_seek_new (four_byte_blocks\<lparr>bio_cursor := 5\<rparr>), part_cursor := 3\<rparr>)"
    by (simp add: part_read_def pbind_def zoom_def small_partition_def opt_ops_def block_io_ops_def opt_read_def
        optimized_seek_new_def four_byte_reads u64_checked_add_def u64_of_int_def)
  let ?s2 = "small_partition\<lparr>part_inner := optimized_seek_new (four_byte_blocks\<lparr>bio_cursor := 5\<rparr>), part_cursor := 3\<rparr>"
  have run2: "part_read (opt_ops block_io_ops) 9 ?s2 = (Ok [], ?s2)"
    by (simp add: part_read_def pbind_def small_partition_def)
  obtain bs s' where run: "read_to_end_loop (part_ops (opt_ops block_io_ops)) (Suc (Suc 0)) 9 [] small_partition = (Ok bs, s')"
    by (simp add: pbind_def pure_def part_ops_def run1 run2)
  have "bs = drop 0 [3, 4, 5]"
    by (rule partition_read_to_end [OF small_partition_rep _ run]) simp
  with run show ?thesis by (simp add: numeral_2_eq_2)
qed

text \<open>
  C35: that loop ends: one read more than there are bytes left is enough, whatever the disk
  answers.
\<close>

theorem partition_read_terminates:
  assumes "part_rep (opt_rep block_rep) s xs p" "0 < buf" "length xs - p < fuel"
  shows "fst (read_to_end_loop (part_ops (opt_ops block_io_ops)) fuel buf [] s) \<noteq> Halt OutOfFuel"
  using partition_reader.read_to_end_terminates [OF assms, of "[]"] by (metis prod.collapse)

theorem partition_read_terminates_witness:
  "fst (read_to_end_loop (part_ops (opt_ops block_io_ops)) 4 1 [] small_partition) \<noteq> Halt OutOfFuel"
  by (rule partition_read_terminates [OF small_partition_rep]) simp_all

text \<open>
  C33: a seek of the optimised reader to an absolute position inside the stream, or relative to
  the current one, arrives where it should, whether the cached cursor answers it or the reader
  below is asked.
\<close>

theorem optimized_seek_correct:
  assumes "opt_rep block_rep s xs p" "opt_seek block_io_ops pos s = (Ok q, s')"
    and "case pos of Start off \<Rightarrow> unat off \<le> length xs | Current off \<Rightarrow> True | End off \<Rightarrow> False"
  shows "int (unat q) = (case pos of Start off \<Rightarrow> int (unat off) | Current off \<Rightarrow> int p + sint off | End off \<Rightarrow> 0) \<and>
    opt_rep block_rep s' xs (unat q)"
  using disk_reader.sk_start [OF assms(1), of _ q s'] disk_reader.sk_current [OF assms(1), of _ q s'] assms(2,3)
  by (cases pos) (auto simp: opt_ops_def)

theorem optimized_seek_correct_witness:
  "\<exists>s' :: unit block_io_reader optimized_seek. opt_rep block_rep s' [1, 2, 3, 4, 5, 6, 7, 8] 7"
proof -
  have rep: "opt_rep block_rep (optimized_seek_new four_byte_blocks) [1, 2, 3, 4, 5, 6, 7, 8] 3"
    using four_byte_blocks_rep by (simp add: opt_rep_def optimized_seek_new_def)
  obtain s' where run: "opt_seek block_io_ops (Start 7) (optimized_seek_new four_byte_blocks) = (Ok 7, s')"
    by (simp add: opt_seek_def Let_def opt_shortcut_def optimized_seek_new_def pbind_def zoom_def block_io_ops_def bio_seek_def)
  from optimized_seek_correct [OF rep run] show ?thesis by auto
qed



text \<open>
  The first read of a new window returns the bytes at its start, wherever the shared reader
  below was left by its other users.
\<close>

theorem window_reads_from_start:
  assumes "opt_rep block_rep inner ys p" "unat start + unat sz \<le> length ys"
    and "part_read (opt_ops block_io_ops) n (partial_reader_new inner start sz) = (Ok bs, s')"
  shows "length bs \<le> n \<and> bs = take (length bs) (take (unat sz) (drop (unat start) ys))"
  using disk_reader.part_read_fresh [OF assms] by simp

theorem window_reads_from_start_witness:
  "\<exists>bs s'. part_read (opt_ops block_io_ops) 9 (partial_reader_new (optimized_seek_new four_byte_blocks) 2 3) = (Ok bs, s') \<and>
    bs = take (length bs) [3, 4, 5]"
proof -
  have rep: "opt_rep block_rep (optimized_seek_new four_byte_blocks) [1, 2, 3, 4, 5, 6, 7, 8] 3"
    using four_byte_blocks_rep by (simp add: opt_rep_def optimized_seek_new_def)
  obtain s' where run: "part_read (opt_ops block_io_ops) 9 (partial_reader_new (optimized_seek_new four_byte_blocks) 2 3) = (Ok [3, 4, 5], s')"
    by (simp add: part_read_def part_seek_def part_target_def unwrap_def partial_reader_new_def pbind_def pure_def zoom_def
        opt_ops_def block_io_ops_def opt_seek_def Let_def opt_shortcut_def optimized_seek_new_def opt_read_def bio_seek_def
        four_byte_reads u64_checked_add_def u64_of_int_def)
  from window_reads_from_start [OF rep _ run] run show ?thesis by auto
qed

end
