(* ===== verification/Search.thy ===== *)
theory Search imports Platform Streams begin

text \<open>
  Finding and reading a file: passwords and keys, unlocking Opal drives, and the search through
  LVM, LUKS, ext4, FAT and GPT (\<^verbatim>\<open>src/main.rs\<close>, from \<^verbatim>\<open>resolve_and_read_file\<close> to
  \<^verbatim>\<open>get_password_of_keyslot\<close>).

  The crates that know the formats are parameters. A \<^verbatim>\<open>&mut dyn ReadSeek\<close> is a value of the
  type \<open>'r\<close> with the operations of \<open>dyn_ops\<close>; a reader on top of another holds it, and gives
  it back when its borrow ends. \<open>'k\<close> is the type of LUKS master keys.

  The functions call each other in a circle: a file may be on an encrypted partition whose key is
  a file. The circle is cut by fuel, which also bounds attempts at a password, keys and nesting.
\<close>

section \<open>The state\<close>

text \<open>The machine and the two buffers of the configuration.\<close>

record ('w, 'k) greeter =
  world :: 'w
  keyslot_buffer :: "string \<Rightarrow> u8 list option"
  masterkey_buffer :: "string \<Rightarrow> 'k option"

abbreviation on_world :: "('w, 'e, 'a) prog \<Rightarrow> (('w, 'k) greeter, 'e, 'a) prog" where
  "on_world \<equiv> zoom world (\<lambda>w s. s\<lparr>world := w\<rparr>)"

abbreviation on_greeter :: "('s, 'e, 'a) prog \<Rightarrow> ('s \<times> 'r, 'e, 'a) prog" where
  "on_greeter \<equiv> zoom fst (\<lambda>s (_, r). (s, r))"

abbreviation on_reader :: "('r, 'e, 'a) prog \<Rightarrow> ('s \<times> 'r, 'e, 'a) prog" where
  "on_reader \<equiv> zoom snd (\<lambda>r (s, _). (s, r))"

section \<open>The formats\<close>

record 'r logical_volume =
  lv_name :: string
  lv_open :: "'r \<Rightarrow> 'r"

record 'r lvm2 =
  lvm_pv_id :: string
  lvm_lvs :: "'r logical_volume list"

datatype 'x luks_error = InvalidPassword | LuksOther 'x

record 'r ext4 =
  e4_uuid :: string
  e4_resolve_path :: "string \<Rightarrow> 'r \<Rightarrow> nat option \<times> 'r"
  e4_load_inode :: "nat \<Rightarrow> 'r \<Rightarrow> nat option \<times> 'r"
  e4_open :: "nat \<Rightarrow> 'r \<Rightarrow> bool \<times> 'r"
  e4_read_to_end :: "nat \<Rightarrow> 'r \<Rightarrow> u8 list option \<times> 'r"

record ('r, 'x) fat =
  fat_volume_id :: u32
  fat_open_file :: "string \<Rightarrow> ('r, 'x io_error, unit) prog"

record ('r, 'k, 'x) formats =
  dyn_ops :: "('r, 'x) reader"
  dyn_disk :: "status block_io_reader optimized_seek \<Rightarrow> 'r"
  dyn_part :: "'r partial_reader \<Rightarrow> 'r"
  dyn_inner :: "'r \<Rightarrow> 'r"
  lvm_open :: "('r, 'x, 'r lvm2) prog"
  luks_header_uuid :: "u8 list \<Rightarrow> ('x, string) outcome"
  luks_with_key :: "'k \<Rightarrow> ('r, 'x luks_error, unit) prog"
  luks_with_password :: "u8 list \<Rightarrow> ('r, 'x luks_error, 'k) prog"
  ext4_open :: "('r, 'x, 'r ext4) prog"
  fat_open :: "('r, 'x, ('r, 'x) fat) prog"
  fat_ops :: "('r, 'x) reader"
  gpt_partitions :: "('r, 'x, (u64 \<times> u64) list) prog"
  luks_error_of :: "'x luks_error \<Rightarrow> 'x"
  unexpected_eof :: "'x"
  utf8_error :: "u8 list \<Rightarrow> 'x"

section \<open>Passwords\<close>

datatype cache = Cached | Discard

text \<open>\<^verbatim>\<open>String::into_bytes\<close> of the characters that were typed.\<close>

definition utf8_char :: "u16 \<Rightarrow> u8 list" where
  "utf8_char c =
     (if c < 0x80 then [ucast c]
      else if c < 0x800 then [0xC0 OR ucast (drop_bit 6 c), 0x80 OR ucast (c AND 0x3F)]
      else [0xE0 OR ucast (drop_bit 12 c), 0x80 OR ucast (drop_bit 6 c AND 0x3F), 0x80 OR ucast (c AND 0x3F)])"

definition into_bytes :: "u16 list \<Rightarrow> u8 list" where
  "into_bytes cs = concat (map utf8_char cs)"

text \<open>\<open>fetch\<close> is \<^verbatim>\<open>resolve_and_read_file\<close>.\<close>

definition get_password_of_keyslot ::
  "'w platform \<Rightarrow> nat \<Rightarrow> (config_file \<Rightarrow> (('w, 'k) greeter, 'x greeter_error, u8 list) prog) \<Rightarrow> keyslot \<Rightarrow> cache \<Rightarrow>
   (('w, 'k) greeter, 'x greeter_error, u8 list) prog" where
  "get_password_of_keyslot F fuel fetch ks cached s =
     (case (case cached of Cached \<Rightarrow> keyslot_buffer s (ks_name ks) | Discard \<Rightarrow> None) of
        Some known \<Rightarrow> (Ok known, s)
      | None \<Rightarrow>
          pbind (case ks_source ks of
              Stdin \<Rightarrow>
                pbind (on_world (write_str (pf_console F) (''Password for keyslot '' @ ks_name ks @ '': ''))) (\<lambda>_.
                pbind (on_world (password (pf_console F) fuel)) (\<lambda>p. pure (Ok (into_bytes p))))
            | KeyFile file \<Rightarrow> fetch file) (\<lambda>password s.
          (Ok password, s\<lparr>keyslot_buffer := (keyslot_buffer s)(ks_name ks \<mapsto> password)\<rparr>)) s)"

section \<open>Unlocking an Opal drive\<close>

text \<open>An operation of a drive runs on the machine of the greeter.\<close>

definition on_drive ::
  "('d \<Rightarrow> 'w) \<Rightarrow> ('w \<Rightarrow> 'd \<Rightarrow> 'd) \<Rightarrow> ('d opal_drive, 'e, 'a) prog \<Rightarrow> (('w, 'k) greeter \<times> 'd opal_drive, 'e, 'a) prog" where
  "on_drive gw pw m = (\<lambda>(s, d).
     case m (d\<lparr>drive_dev := (drive_dev d)\<lparr>device := pw (world s) (device (drive_dev d))\<rparr>\<rparr>) of
       (r, d') \<Rightarrow> (r, (s\<lparr>world := gw (device (drive_dev d'))\<rparr>, d')))"

fun password_or_raw_of :: "keyslot_source \<Rightarrow> u8 list \<Rightarrow> password_or_raw" where
  "password_or_raw_of Stdin p = Password p"
| "password_or_raw_of (KeyFile f) p = Raw p"

fun unlock_loop ::
  "'w platform \<Rightarrow> kdf \<Rightarrow> ('d \<Rightarrow> 'w) \<Rightarrow> ('w \<Rightarrow> 'd \<Rightarrow> 'd) \<Rightarrow> ('d, uefi_error) secure_protocol \<Rightarrow> nat \<Rightarrow>
   (config_file \<Rightarrow> (('w, 'k) greeter, 'x greeter_error, u8 list) prog) \<Rightarrow> keyslot \<Rightarrow> cache \<Rightarrow>
   (('w, 'k) greeter \<times> 'd opal_drive, 'x greeter_error, unit) prog" where
  "unlock_loop F kdf gw pw P 0 fetch ks cached = pure (Halt OutOfFuel)"
| "unlock_loop F kdf gw pw P (Suc fuel) fetch ks cached =
     pbind (on_greeter (get_password_of_keyslot F (Suc fuel) fetch ks cached)) (\<lambda>password sd.
     case on_drive gw pw (unlock P (Suc fuel) kdf (password_or_raw_of (ks_source ks) password)) sd of
       (Ok _, sd) \<Rightarrow> (Ok (), sd)
     | (Err e, sd) \<Rightarrow>
         (if e = Opal (Status NOT_AUTHORIZED) then unlock_loop F kdf gw pw P fuel fetch ks Discard sd
          else if e = Opal (Status AUTHORITY_LOCKED_OUT) then
            pbind (on_greeter (on_world (write_str (pf_console F) ''Too many bad tries, SED locked out, resetting in 10s..''))) (\<lambda>_.
            pbind (on_greeter (on_world (sleep (pf_console F) 10 0))) (\<lambda>_. pure (Halt (ResetTo COLD)))) sd
          else (Err (error_new (OpalSource e) ''efi error trying to unlock device''), sd))
     | (Halt h, sd) \<Rightarrow> (Halt h, sd))"

definition unlock_opal ::
  "'w platform \<Rightarrow> kdf \<Rightarrow> ('d \<Rightarrow> 'w) \<Rightarrow> ('w \<Rightarrow> 'd \<Rightarrow> 'd) \<Rightarrow> ('d, uefi_error) secure_protocol \<Rightarrow> nat \<Rightarrow>
   (config_file \<Rightarrow> (('w, 'k) greeter, 'x greeter_error, u8 list) prog) \<Rightarrow> keyslot \<Rightarrow> 'd opal_drive \<Rightarrow>
   (('w, 'k) greeter, 'x greeter_error, unit) prog" where
  "unlock_opal F kdf gw pw P fuel fetch ks drive s =
     (if \<not> drive_was_locked drive then (Ok (), s)
      else case unlock_loop F kdf gw pw P fuel fetch ks Cached (s, drive) of (r, (s', _)) \<Rightarrow> (r, s'))"

section \<open>Probing a reader\<close>

text \<open>
  A probe that answers \<open>None\<close> lets the next one try. \<open>first_ok\<close> is a loop that returns the
  first success and drops errors. \<open>through\<close> runs a computation on a reader on top of this one.
\<close>

definition orelse :: "('s, 'e, 'a option) prog \<Rightarrow> ('s, 'e, 'a) prog \<Rightarrow> ('s, 'e, 'a) prog" where
  "orelse m k = pbind m (\<lambda>o'. case o' of Some a \<Rightarrow> pure (Ok a) | None \<Rightarrow> k)"

fun first_ok :: "('b \<Rightarrow> ('s, 'e, 'a) prog) \<Rightarrow> 'b list \<Rightarrow> ('s, 'e, 'a option) prog" where
  "first_ok f [] = pure (Ok None)"
| "first_ok f (x # xs) = (\<lambda>s.
     case f x s of
       (Ok a, s) \<Rightarrow> (Ok (Some a), s)
     | (Err e, s) \<Rightarrow> first_ok f xs s
     | (Halt h, s) \<Rightarrow> (Halt h, s))"

definition through :: "('r \<Rightarrow> 'r) \<Rightarrow> ('r \<Rightarrow> 'r) \<Rightarrow> ('s \<times> 'r, 'e, 'a) prog \<Rightarrow> ('s \<times> 'r, 'e, 'a) prog" where
  "through up down m = (\<lambda>(s, r). case m (s, up r) of (res, (s', r')) \<Rightarrow> (res, (s', down r')))"

definition not_found :: "string \<Rightarrow> ('s, 'x greeter_error, 'a) prog" where
  "not_found msg = pure (Err (error_new FileNotFound msg))"

definition rewind_dyn :: "('r, 'k, 'x) formats \<Rightarrow> string \<Rightarrow> ('s \<times> 'r, 'x greeter_error, unit) prog" where
  "rewind_dyn G ctx = on_reader (context_from IoSource ctx (rewind (dyn_ops G)))"

text \<open>A result that ends the search: \<open>found\<close> or the error of the branch.\<close>

definition decided :: "('s, 'x greeter_error, 'a option) prog \<Rightarrow> string \<Rightarrow> ('s, 'x greeter_error, 'a option) prog" where
  "decided m msg = pbind m (\<lambda>o'. case o' of Some a \<Rightarrow> pure (Ok (Some a)) | None \<Rightarrow> not_found msg)"

text \<open>\<^verbatim>\<open>inner\<close> is the recursive call of \<^verbatim>\<open>find_read_file_internal\<close>.\<close>

type_synonym ('w, 'k, 'r, 'x) search = "(('w, 'k) greeter \<times> 'r, 'x greeter_error, u8 list) prog"

definition probe_lvm ::
  "('r, 'k, 'x) formats \<Rightarrow> (partition list \<Rightarrow> string \<Rightarrow> ('w, 'k, 'r, 'x) search) \<Rightarrow> partition \<Rightarrow> partition list \<Rightarrow> string \<Rightarrow>
   (('w, 'k) greeter \<times> 'r, 'x greeter_error, u8 list option) prog" where
  "probe_lvm G inner p rest file sr =
     (case on_reader (lvm_open G) sr of
        (Ok lvm, sr) \<Rightarrow>
          (if lvm_pv_id lvm = pt_uuid p then
             decided (first_ok (\<lambda>lv. through (lv_open lv) (dyn_inner G) (inner rest file)) (lvm_lvs lvm))
               ''no lv contains requested file'' sr
           else (Ok None, sr))
      | (Err e, sr) \<Rightarrow> (Ok None, sr)
      | (Halt h, sr) \<Rightarrow> (Halt h, sr))"

text \<open>\<^verbatim>\<open>Read::read_exact\<close> of \<^verbatim>\<open>acid_io\<close>: reads until the buffer is full.\<close>

fun read_exact :: "('s, 'e) reader \<Rightarrow> 'e \<Rightarrow> nat \<Rightarrow> nat \<Rightarrow> u8 list \<Rightarrow> ('s, 'e io_error, u8 list) prog" where
  "read_exact R eof 0 n acc = pure (Halt OutOfFuel)"
| "read_exact R eof (Suc fuel) n acc =
     (if n = 0 then pure (Ok acc)
      else pbind (rd R n) (\<lambda>b. if b = [] then pure (Err (Other eof)) else read_exact R eof fuel (n - length b) (acc @ b)))"

text \<open>The loop that asks for passwords until one opens the device.\<close>

fun luks_loop ::
  "'w platform \<Rightarrow> ('r, 'k, 'x) formats \<Rightarrow> nat \<Rightarrow> (config_file \<Rightarrow> (('w, 'k) greeter, 'x greeter_error, u8 list) prog) \<Rightarrow>
   keyslot \<Rightarrow> cache \<Rightarrow> (('w, 'k) greeter \<times> 'r, 'x greeter_error, 'k) prog" where
  "luks_loop F G 0 fetch ks cached = pure (Halt OutOfFuel)"
| "luks_loop F G (Suc fuel) fetch ks cached =
     pbind (on_greeter (get_password_of_keyslot F (Suc fuel) fetch ks cached)) (\<lambda>password sr.
     case on_reader (luks_with_password G password) sr of
       (Ok k, sr) \<Rightarrow> (Ok k, sr)
     | (Err InvalidPassword, sr) \<Rightarrow>
         pbind (rewind_dyn G ''can't rewind reader after luks2 invalid password'') (\<lambda>_. luks_loop F G fuel fetch ks Discard) sr
     | (Err e, sr) \<Rightarrow> (Err (error_new (LuksSource (luks_error_of G e)) ''error opening luks2 with password''), sr)
     | (Halt h, sr) \<Rightarrow> (Halt h, sr))"

definition luks_unlock ::
  "'w platform \<Rightarrow> ('r, 'k, 'x) formats \<Rightarrow> nat \<Rightarrow> (config_file \<Rightarrow> (('w, 'k) greeter, 'x greeter_error, u8 list) prog) \<Rightarrow>
   keyslot \<Rightarrow> string \<Rightarrow> (('w, 'k) greeter \<times> 'r, 'x greeter_error, unit) prog" where
  "luks_unlock F G fuel fetch ks uuid sr =
     (case masterkey_buffer (fst sr) uuid of
        Some k \<Rightarrow>
          on_reader (context_from (\<lambda>e. LuksSource (luks_error_of G e)) ''error opening luks2 with known master key''
            (luks_with_key G k)) sr
      | None \<Rightarrow>
          pbind (luks_loop F G fuel fetch ks Cached) (\<lambda>k (s, r).
          (Ok (), (s\<lparr>masterkey_buffer := (masterkey_buffer s)(uuid \<mapsto> k)\<rparr>, r))) sr)"

definition probe_luks ::
  "'w platform \<Rightarrow> ('r, 'k, 'x) formats \<Rightarrow> config \<Rightarrow> nat \<Rightarrow> (config_file \<Rightarrow> (('w, 'k) greeter, 'x greeter_error, u8 list) prog) \<Rightarrow>
   (partition list \<Rightarrow> string \<Rightarrow> ('w, 'k, 'r, 'x) search) \<Rightarrow> partition \<Rightarrow> partition list \<Rightarrow> string \<Rightarrow>
   (('w, 'k) greeter \<times> 'r, 'x greeter_error, u8 list option) prog" where
  "probe_luks F G cfg fuel fetch inner p rest file =
     pbind (on_reader (context_from IoSource ''error reading luks header'' (read_exact (dyn_ops G) (unexpected_eof G) fuel 4096 []))) (\<lambda>buf.
     pbind (rewind_dyn G ''can't rewind reader after luks2-header read'') (\<lambda>_.
     case luks_header_uuid G buf of
       Ok uuid \<Rightarrow>
         (if uuid = pt_uuid p then
            (case pt_keyslot p of
               None \<Rightarrow> not_found (''no keyslot defined for partition `'' @ pt_uuid p @ ''`'')
             | Some name \<Rightarrow>
                 pbind (pure (btree_index (keyslots cfg) name)) (\<lambda>ks.
                 pbind (luks_unlock F G fuel fetch ks (pt_uuid p)) (\<lambda>_.
                 decided (first_ok (\<lambda>_. through (\<lambda>r. r) (dyn_inner G) (inner rest file)) [()])
                   ''luks device didn't contain file'')))
          else pure (Ok None))
     | Err e \<Rightarrow> pure (Ok None)
     | Halt h \<Rightarrow> pure (Halt h)))"

definition probe_ext4 ::
  "('r, 'k, 'x) formats \<Rightarrow> partition \<Rightarrow> partition list \<Rightarrow> string \<Rightarrow> (('w, 'k) greeter \<times> 'r, 'x greeter_error, u8 list option) prog" where
  "probe_ext4 G p rest file sr =
     (case on_reader (ext4_open G) sr of
        (Ok e4, (s, r)) \<Rightarrow>
          (if e4_uuid e4 = pt_uuid p then
             (if rest \<noteq> [] then not_found ''ext4 with correct uuid, but there are partitions left in path'' (s, r)
              else case e4_resolve_path e4 file r of
                (None, r) \<Rightarrow> not_found ''can't find path in ext4 with correct uuid'' (s, r)
              | (Some entry, r) \<Rightarrow>
                  (case e4_load_inode e4 entry r of
                     (None, r) \<Rightarrow> not_found ''can't load inode'' (s, r)
                   | (Some inode, r) \<Rightarrow>
                       (case e4_open e4 inode r of
                          (False, r) \<Rightarrow> (Panic, (s, r))
                        | (True, r) \<Rightarrow>
                            (case e4_read_to_end e4 inode r of
                               (None, r) \<Rightarrow> (Panic, (s, r))
                             | (Some data, r) \<Rightarrow> (Ok (Some data), (s, r))))))
           else (Ok None, (s, r)))
      | (Err e, sr) \<Rightarrow> (Ok None, sr)
      | (Halt h, sr) \<Rightarrow> (Halt h, sr))"

text \<open>\<^verbatim>\<open>format!("{:X}")\<close>: hexadecimal digits without leading zeroes.\<close>

definition hex_digit :: "nat \<Rightarrow> char" where
  "hex_digit d = ''0123456789ABCDEF'' ! d"

fun hex_upper :: "nat \<Rightarrow> string" where
  "hex_upper n = (if n < 16 then [hex_digit n] else hex_upper (n div 16) @ [hex_digit (n mod 16)])"

declare hex_upper.simps [simp del]

definition fat_uuid :: "u32 \<Rightarrow> string" where
  "fat_uuid i = hex_upper (unat (drop_bit 16 i)) @ ''-'' @ hex_upper (unat (ucast i :: u16))"

definition probe_fat ::
  "('r, 'k, 'x) formats \<Rightarrow> nat \<Rightarrow> partition \<Rightarrow> partition list \<Rightarrow> string \<Rightarrow>
   (('w, 'k) greeter \<times> 'r, 'x greeter_error, u8 list option) prog" where
  "probe_fat G fuel p rest file sr =
     (case on_reader (fat_open G) sr of
        (Ok fat, sr) \<Rightarrow>
          (if pt_uuid p = fat_uuid (fat_volume_id fat) then
             (if rest \<noteq> [] then not_found ''FAT with correct uuid, but there are partitions left in path'' sr
              else pbind (on_reader (context_from FatSource ''error opening file in FAT'' (fat_open_file fat file))) (\<lambda>_.
                   pbind (on_reader (context_from FatSource ''error reading file in FAT''
                     (read_to_end_loop (fat_ops G) fuel 4096 []))) (\<lambda>data. pure (Ok (Some data)))) sr)
           else (Ok None, sr))
      | (Err e, sr) \<Rightarrow> (Ok None, sr)
      | (Halt h, sr) \<Rightarrow> (Halt h, sr))"

definition probe_gpt ::
  "('r, 'k, 'x) formats \<Rightarrow> (partition list \<Rightarrow> string \<Rightarrow> ('w, 'k, 'r, 'x) search) \<Rightarrow> partition list \<Rightarrow> string \<Rightarrow>
   (('w, 'k) greeter \<times> 'r, 'x greeter_error, u8 list option) prog" where
  "probe_gpt G inner ps file sr =
     (case on_reader (gpt_partitions G) sr of
        (Ok parts, sr) \<Rightarrow>
          decided (first_ok (\<lambda>(first_byte, len).
              through (\<lambda>r. dyn_part G (partial_reader_new r first_byte len)) (dyn_inner G) (inner ps file)) parts)
            ''file not found in any gpt partition'' sr
      | (Err e, sr) \<Rightarrow> (Ok None, sr)
      | (Halt h, sr) \<Rightarrow> (Halt h, sr))"

section \<open>The search\<close>

fun find_read_file_internal ::
  "'w platform \<Rightarrow> ('r, 'k, 'x) formats \<Rightarrow> config \<Rightarrow> (config_file \<Rightarrow> (('w, 'k) greeter, 'x greeter_error, u8 list) prog) \<Rightarrow> nat \<Rightarrow>
   partition list \<Rightarrow> string \<Rightarrow> ('w, 'k, 'r, 'x) search" where
  "find_read_file_internal F G cfg fetch 0 ps file = pure (Halt OutOfFuel)"
| "find_read_file_internal F G cfg fetch (Suc fuel) ps file =
     (case ps of
        [] \<Rightarrow> not_found ''empty partition tabe''
      | p # rest \<Rightarrow>
          orelse (probe_lvm G (find_read_file_internal F G cfg fetch fuel) p rest file)
         (pbind (rewind_dyn G ''can't rewind reader after lvm2 probe'') (\<lambda>_.
          orelse (probe_luks F G cfg fuel fetch (find_read_file_internal F G cfg fetch fuel) p rest file)
         (pbind (rewind_dyn G ''can't rewind reader after luks2 probe'') (\<lambda>_.
          orelse (probe_ext4 G p rest file)
         (pbind (rewind_dyn G ''can't rewind reader after ext4 probe'') (\<lambda>_.
          orelse (probe_fat G fuel p rest file)
         (pbind (rewind_dyn G ''can't rewind reader after FAT probe'') (\<lambda>_.
          orelse (probe_gpt G (find_read_file_internal F G cfg fetch fuel) ps file)
         (pbind (rewind_dyn G ''can't rewind reader after gpt probe'') (\<lambda>_.
          not_found ''file not found on this device'')))))))))))"

text \<open>
  A drive whose serial number is the id of the first partition of the path is unlocked, if that partition
  has a keyslot, and the path goes on behind it; \<open>unlocker\<close> opens and unlocks the drive.
\<close>

definition pass_drive ::
  "config \<Rightarrow> u8 list \<Rightarrow> (u8 list \<Rightarrow> 'x) \<Rightarrow> string \<Rightarrow> (keyslot \<Rightarrow> (('w, 'k) greeter, 'x greeter_error, unit) prog) \<Rightarrow>
   partition list \<Rightarrow> (('w, 'k) greeter, 'x greeter_error, partition list) prog" where
  "pass_drive cfg sn utf8_err ctx unlocker ps =
     pbind (pure (case from_utf8 sn of Some _ \<Rightarrow> Ok (string_of_bytes (trim sn))
                  | None \<Rightarrow> Err (error_new (Utf8Source (utf8_err sn)) ctx))) (\<lambda>serial.
     pbind (pure (index ps 0)) (\<lambda>p.
     if pt_uuid p = serial then
       pbind (case pt_keyslot p of
           Some name \<Rightarrow> pbind (pure (btree_index (keyslots cfg) name)) unlocker
         | None \<Rightarrow> pure (Ok ())) (\<lambda>_.
       if tl ps = [] then pure (Err (error_new_without_source ''out of partitions'')) else pure (Ok (tl ps)))
     else pure (Ok ps)))"

text \<open>Opening the NVMe drive for the unlock panics if it fails.\<close>

definition unlock_nvme ::
  "'w platform \<Rightarrow> kdf \<Rightarrow> nat \<Rightarrow> (config_file \<Rightarrow> (('w, 'k) greeter, 'x greeter_error, u8 list) prog) \<Rightarrow>
   'w nvme_express_passthru \<Rightarrow> 'w nvme_device \<Rightarrow> nat \<Rightarrow> keyslot \<Rightarrow> (('w, 'k) greeter, 'x greeter_error, unit) prog" where
  "unlock_nvme F kdf fuel fetch N dv h ks =
     (let P = nvme_protocol N (pf_services F) in
      pbind (unwrapped (on_world (opal_on nvme_of nvme_world P (restartable_new dv h)))) (\<lambda>drive.
      unlock_opal F kdf nvme_of nvme_world P fuel fetch ks drive))"

definition spurious :: "u64 \<Rightarrow> u64 \<Rightarrow> 'e block_io \<Rightarrow> bool" where
  "spurious start end_lba io \<longleftrightarrow> start = 0 \<and> end_lba = 0xffffffff \<and> media_block_size io = 65535"

text \<open>One device of the loop: the path that is left, and the file if it was found.\<close>

definition search_device ::
  "'w platform \<Rightarrow> ('r, 'k, 'x) formats \<Rightarrow> kdf \<Rightarrow> config \<Rightarrow> (config_file \<Rightarrow> (('w, 'k) greeter, 'x greeter_error, u8 list) prog) \<Rightarrow> nat \<Rightarrow>
   nat \<times> u64 \<times> u64 \<Rightarrow> partition list \<Rightarrow> string \<Rightarrow> (('w, 'k) greeter, 'x greeter_error, partition list \<times> u8 list option) prog" where
  "search_device F G kdf cfg fetch fuel = (\<lambda>(h, start, end_lba) ps file.
     pbind (on_world (try_get_nvme_device F h)) (\<lambda>nvme.
     pbind (case nvme of
         Some (N, dv) \<Rightarrow>
           pass_drive cfg (nvme_serial dv) (utf8_error G) ''can't convert nvme serial number to UTF8''
             (unlock_nvme F kdf fuel fetch N dv h) ps
       | None \<Rightarrow> pure (Ok ps)) (\<lambda>ps.
     pbind (on_world (try_get_ata_device F h)) (\<lambda>ata.
     pbind (case ata of
         Some (A, drive) \<Rightarrow>
           pass_drive cfg (serial (ata_secure_protocol A (pf_services F)) drive) (utf8_error G)
             ''can't convert ATA serial number to UTF8''
             (\<lambda>ks. unlock_opal F kdf ata_fw ata_world (ata_secure_protocol A (pf_services F)) fuel fetch ks drive) ps
       | None \<Rightarrow> pure (Ok ps)) (\<lambda>ps.
     pbind (on_world (uefi_context ''can't get BlockIO from BlockIO-Handle'' (pf_open_block_io F h))) (\<lambda>(m, io).
     if spurious start end_lba io then pure (Ok (ps, None))
     else (\<lambda>s.
       case find_read_file_internal F G cfg fetch fuel ps file
              (s, dyn_disk G (optimized_seek_new (block_io_reader_new io 0 end_lba))) of
         (Ok data, (s, _)) \<Rightarrow> (Ok (ps, Some data), s)
       | (Err e, (s, _)) \<Rightarrow> (Ok (ps, None), s)
       | (Halt x, (s, _)) \<Rightarrow> (Halt x, s))))))))"

fun find_read_file_loop ::
  "(nat \<times> u64 \<times> u64 \<Rightarrow> partition list \<Rightarrow> string \<Rightarrow> (('w, 'k) greeter, 'x greeter_error, partition list \<times> u8 list option) prog) \<Rightarrow>
   (nat \<times> u64 \<times> u64) list \<Rightarrow> partition list \<Rightarrow> string \<Rightarrow> (('w, 'k) greeter, 'x greeter_error, u8 list) prog" where
  "find_read_file_loop search [] ps file = pure (Err (error_new_without_source ''file not found''))"
| "find_read_file_loop search (d # ds) ps file =
     pbind (search d ps file) (\<lambda>(ps, data).
     case data of Some data \<Rightarrow> pure (Ok data) | None \<Rightarrow> find_read_file_loop search ds ps file)"

definition find_read_file ::
  "'w platform \<Rightarrow> ('r, 'k, 'x) formats \<Rightarrow> kdf \<Rightarrow> config \<Rightarrow> (config_file \<Rightarrow> (('w, 'k) greeter, 'x greeter_error, u8 list) prog) \<Rightarrow> nat \<Rightarrow>
   partition list \<Rightarrow> string \<Rightarrow> (('w, 'k) greeter, 'x greeter_error, u8 list) prog" where
  "find_read_file F G kdf cfg fetch fuel ps file =
     pbind (on_world (block_devices F)) (\<lambda>ds. find_read_file_loop (search_device F G kdf cfg fetch fuel) ds ps file)"

text \<open>The partitions from the named one up to one without parent.\<close>

fun parent_chain :: "config \<Rightarrow> nat \<Rightarrow> string \<Rightarrow> partition list \<Rightarrow> ('e, partition list) outcome" where
  "parent_chain cfg 0 name acc = Halt OutOfFuel"
| "parent_chain cfg (Suc fuel) name acc =
     obind (btree_index (partitions cfg) name) (\<lambda>p.
     case pt_parent p of
       Some parent \<Rightarrow> parent_chain cfg fuel parent (acc @ [p])
     | None \<Rightarrow> Ok (acc @ [p]))"

fun resolve_and_read_file ::
  "'w platform \<Rightarrow> ('r, 'k, 'x) formats \<Rightarrow> kdf \<Rightarrow> config \<Rightarrow> nat \<Rightarrow> config_file \<Rightarrow> (('w, 'k) greeter, 'x greeter_error, u8 list) prog" where
  "resolve_and_read_file F G kdf cfg 0 file = pure (Halt OutOfFuel)"
| "resolve_and_read_file F G kdf cfg (Suc fuel) file =
     pbind (pure (parent_chain cfg (Suc fuel) (cf_partition file) [])) (\<lambda>ps.
     find_read_file F G kdf cfg (resolve_and_read_file F G kdf cfg fuel) fuel (rev ps) (cf_file file))"

section \<open>The path of a partition\<close>

text \<open>
  The specification: a list of partitions that begins with the named one and in which every
  partition is followed by its parent, the last having none.
\<close>

fun chain :: "config \<Rightarrow> string \<Rightarrow> partition list \<Rightarrow> bool" where
  "chain cfg n [] = False"
| "chain cfg n (p # ps) \<longleftrightarrow> map_of (partitions cfg) n = Some p \<and>
     (case pt_parent p of None \<Rightarrow> ps = [] | Some q \<Rightarrow> chain cfg q ps)"

lemma parent_chain_Ok_iff:
  "parent_chain cfg fuel n acc = Ok qs \<longleftrightarrow> (\<exists>ps. chain cfg n ps \<and> length ps \<le> fuel \<and> qs = acc @ ps)"
proof (induction fuel arbitrary: n acc)
  case 0
  have "\<not> chain cfg n ps" if "ps = []" for ps using that by simp
  then show ?case by auto
next
  case (Suc fuel)
  show ?case
  proof (cases "map_of (partitions cfg) n")
    case None
    then have "\<not> chain cfg n ps" for ps by (cases ps) auto
    with None show ?thesis by (simp add: btree_index_def)
  next
    case (Some p)
    have ex: "(\<exists>ps. chain cfg n ps \<and> length ps \<le> Suc fuel \<and> qs = acc @ ps) \<longleftrightarrow>
        (\<exists>ps. (case pt_parent p of None \<Rightarrow> ps = [] | Some q \<Rightarrow> chain cfg q ps) \<and> length ps \<le> fuel \<and> qs = acc @ p # ps)"
      (is "?l = ?r")
    proof
      assume ?l
      then obtain ps where "chain cfg n ps" "length ps \<le> Suc fuel" "qs = acc @ ps" by blast
      with Some show ?r by (cases ps) auto
    next
      assume ?r
      then obtain ps where "case pt_parent p of None \<Rightarrow> ps = [] | Some q \<Rightarrow> chain cfg q ps" "length ps \<le> fuel"
        "qs = acc @ p # ps" by blast
      with Some show ?l by (intro exI [of _ "p # ps"]) simp
    qed
    show ?thesis unfolding ex using Some Suc.IH by (auto simp: btree_index_def split: option.splits)
  qed
qed

lemma chain_unique: "chain cfg n ps \<Longrightarrow> chain cfg n qs \<Longrightarrow> ps = qs"
proof (induction ps arbitrary: n qs)
  case (Cons p ps)
  then show ?case by (cases qs) (auto split: option.splits)
qed simp

lemma chain_suffix: "chain cfg n (xs @ p # ys) \<Longrightarrow> case pt_parent p of None \<Rightarrow> ys = [] | Some q \<Rightarrow> chain cfg q ys"
  by (induction xs arbitrary: n) (auto split: option.splits)

lemma chain_distinct: "chain cfg n ps \<Longrightarrow> distinct ps"
proof (induction ps arbitrary: n)
  case (Cons p ps)
  have "p \<notin> set ps"
  proof
    assume "p \<in> set ps"
    then obtain us vs where ps: "ps = us @ p # vs" by (meson split_list)
    have "case pt_parent p of None \<Rightarrow> ps = [] | Some q \<Rightarrow> chain cfg q ps"
      "case pt_parent p of None \<Rightarrow> vs = [] | Some q \<Rightarrow> chain cfg q vs"
      using chain_suffix [of cfg n "[]" p ps] chain_suffix [of cfg n "p # us" p vs] Cons.prems ps by simp_all
    then have "ps = vs" by (auto split: option.splits dest: chain_unique)
    with ps show False by simp
  qed
  with Cons show ?case by (auto split: option.splits)
qed simp

lemma chain_set: "chain cfg n ps \<Longrightarrow> set ps \<subseteq> snd ` set (partitions cfg)"
proof (induction ps arbitrary: n)
  case (Cons p ps)
  then have "p \<in> snd ` set (partitions cfg)" by (auto dest!: map_of_SomeD intro: rev_image_eqI)
  with Cons show ?case by (auto split: option.splits)
qed simp

lemma chain_length:
  assumes "chain cfg n ps"
  shows "length ps \<le> length (partitions cfg)"
proof -
  have "length ps = card (set ps)" using distinct_card [OF chain_distinct [OF assms]] by simp
  also have "\<dots> \<le> card (snd ` set (partitions cfg))" by (rule card_mono) (use chain_set [OF assms] in auto)
  also have "\<dots> \<le> length (partitions cfg)" by (meson card_image_le card_length finite_set le_trans)
  finally show ?thesis .
qed

section \<open>Properties\<close>

text \<open>
  C27: the path of a file's partition is computed exactly if following the parents ends: it then
  is the path, and as many steps as the configuration has partitions are enough.
\<close>

theorem parent_chain_path:
  assumes "length (partitions cfg) \<le> fuel"
  shows "parent_chain cfg fuel n [] = (Ok ps :: ('e, _) outcome) \<longleftrightarrow> chain cfg n ps"
  using assms chain_length [of cfg n ps] by (auto simp: parent_chain_Ok_iff)

text \<open>
  C28: a partition that is its own ancestor is never resolved: reading a file from it does
  not come back, whatever the fuel, and does not touch the machine.
\<close>

lemma parent_chain_cycle:
  assumes "\<And>n. n \<in> S \<Longrightarrow> \<exists>p q. map_of (partitions cfg) n = Some p \<and> pt_parent p = Some q \<and> q \<in> S" "n \<in> S"
  shows "parent_chain cfg fuel n acc = Halt OutOfFuel"
  using assms(2)
proof (induction fuel arbitrary: n acc)
  case (Suc fuel)
  from assms(1) [OF Suc.prems] obtain p q where "map_of (partitions cfg) n = Some p" "pt_parent p = Some q" "q \<in> S" by blast
  with Suc.IH show ?case by (simp add: btree_index_def)
qed simp

theorem cyclic_parents_never_resolved:
  assumes "\<And>n. n \<in> S \<Longrightarrow> \<exists>p q. map_of (partitions cfg) n = Some p \<and> pt_parent p = Some q \<and> q \<in> S"
    and "cf_partition file \<in> S"
  shows "resolve_and_read_file F G kdf cfg fuel file s = (Halt OutOfFuel, s)"
  by (cases fuel) (simp_all add: parent_chain_cycle [OF assms] pbind_def pure_def del: parent_chain.simps)

text \<open>
  C29: a password or key that was obtained for a keyslot is what every later request that may use
  the buffer gets, without a prompt, a read or any other change.
\<close>

theorem password_is_cached:
  assumes "get_password_of_keyslot F fuel fetch ks cached s = (Ok pwd, s')"
  shows "get_password_of_keyslot F' fuel' fetch' ks Cached s' = (Ok pwd, s')"
proof -
  have "keyslot_buffer s' (ks_name ks) = Some pwd"
    using assms by (auto simp: get_password_of_keyslot_def ok_iff split: option.splits cache.splits)
  then show ?thesis by (simp add: get_password_of_keyslot_def)
qed

text \<open>
  C30: a key file that does not open a LUKS device is read and tried again without end, whatever
  the fuel: the loop asks for another password only where passwords are typed.
\<close>

lemma luks_loop_rejected:
  fixes G :: "('r, 'k, 'x) formats" and fetch :: "config_file \<Rightarrow> (('w, 'k) greeter, 'x greeter_error, u8 list) prog"
  assumes "ks_source ks = KeyFile file" "\<And>s. \<exists>s'. fetch file s = (Ok wrong, s')"
    and "\<And>r. r \<in> R \<Longrightarrow> \<exists>r'\<in>R. luks_with_password G wrong r = (Err InvalidPassword, r')"
    and "\<And>r. r \<in> R \<Longrightarrow> \<exists>q. \<exists>r'\<in>R. sk (dyn_ops G) (Start 0) r = (Ok q, r')"
    and "r \<in> R" "cached = Cached \<Longrightarrow> keyslot_buffer s (ks_name ks) \<in> {None, Some wrong}"
  shows "\<exists>sr'. luks_loop F G fuel fetch ks cached (s, r) = (Halt OutOfFuel, sr')"
  using assms(5,6)
proof (induction fuel arbitrary: s r cached)
  case (Suc fuel)
  have "\<exists>s'. get_password_of_keyslot F (Suc fuel) fetch ks cached s = (Ok wrong, s')"
    using assms(1) assms(2) [of s] Suc.prems(2)
    by (cases cached) (auto simp: get_password_of_keyslot_def pbind_def split: option.splits)
  then obtain s' where pwd: "get_password_of_keyslot F (Suc fuel) fetch ks cached s = (Ok wrong, s')" by blast
  obtain r1 where r1: "r1 \<in> R" "luks_with_password G wrong r = (Err InvalidPassword, r1)"
    using assms(3) [OF Suc.prems(1)] by blast
  obtain q r2 where r2: "r2 \<in> R" "sk (dyn_ops G) (Start 0) r1 = (Ok q, r2)" using assms(4) [OF r1(1)] by blast
  have "luks_loop F G (Suc fuel) fetch ks cached (s, r) = luks_loop F G fuel fetch ks Discard (s', r2)"
    by (simp add: pbind_def zoom_def pwd r1 r2 rewind_dyn_def context_from_def pmap_err_def rewind_def pure_def)
  then show ?case using Suc.IH [OF r2(1), of Discard s'] by simp
qed (simp add: pure_def)

theorem wrong_keyfile_never_ends:
  fixes G :: "('r, 'k, 'x) formats" and fetch :: "config_file \<Rightarrow> (('w, 'k) greeter, 'x greeter_error, u8 list) prog"
  assumes "ks_source ks = KeyFile file" "\<And>s. \<exists>s'. fetch file s = (Ok wrong, s')"
    and "\<And>r. r \<in> R \<Longrightarrow> \<exists>r'\<in>R. luks_with_password G wrong r = (Err InvalidPassword, r')"
    and "\<And>r. r \<in> R \<Longrightarrow> \<exists>q. \<exists>r'\<in>R. sk (dyn_ops G) (Start 0) r = (Ok q, r')"
    and "r \<in> R" "masterkey_buffer s uuid = None" "keyslot_buffer s (ks_name ks) = None"
  shows "fst (luks_unlock F G fuel fetch ks uuid (s, r)) = Halt OutOfFuel"
proof -
  have "\<exists>sr'. luks_loop F G fuel fetch ks Cached (s, r) = (Halt OutOfFuel, sr')"
    by (rule luks_loop_rejected [where R = R]) (use assms in auto)
  then show ?thesis using assms(6) by (auto simp: luks_unlock_def pbind_def)
qed

section \<open>Witnesses\<close>

text \<open>Two configurations: a partition inside another, and two partitions inside each other.\<close>

definition nested_config :: config where
  "nested_config =
     \<lparr>keyslots = [], partitions = collect_partitions
        [\<lparr>pt_name = ''outer'', pt_parent = None, pt_uuid = ''1'', pt_keyslot = None\<rparr>,
         \<lparr>pt_name = ''inner'', pt_parent = Some ''outer'', pt_uuid = ''2'', pt_keyslot = None\<rparr>],
      boot_entries = [], log_level = Off\<rparr>"

definition cyclic_config :: config where
  "cyclic_config =
     \<lparr>keyslots = [], partitions = collect_partitions
        [\<lparr>pt_name = ''a'', pt_parent = Some ''b'', pt_uuid = ''1'', pt_keyslot = None\<rparr>,
         \<lparr>pt_name = ''b'', pt_parent = Some ''a'', pt_uuid = ''2'', pt_keyslot = None\<rparr>],
      boot_entries = [], log_level = Off\<rparr>"

lemma nested_lookup:
  "map_of (partitions nested_config) ''outer'' = Some \<lparr>pt_name = ''outer'', pt_parent = None, pt_uuid = ''1'', pt_keyslot = None\<rparr>"
  "map_of (partitions nested_config) ''inner'' =
     Some \<lparr>pt_name = ''inner'', pt_parent = Some ''outer'', pt_uuid = ''2'', pt_keyslot = None\<rparr>"
  by (simp_all add: nested_config_def collect_partitions_def map_of_btree_collect)

lemma nested_length: "length (partitions nested_config) \<le> 2"
proof -
  have "length (btree_collect es) \<le> length es" for es :: "(string \<times> partition) list"
  proof -
    have ins: "length (btree_insert k v m) \<le> Suc (length m)" for k and v :: partition and m
      by (induction m) auto
    have "length (fold (\<lambda>(k, v). btree_insert k v) es m) \<le> length es + length m" for m
    proof (induction es arbitrary: m)
      case (Cons e es)
      show ?case using Cons [of "btree_insert (fst e) (snd e) m"] ins [of "fst e" "snd e" m]
        by (simp add: case_prod_unfold)
    qed simp
    from this [of "[]"] show ?thesis by (simp add: btree_collect_def)
  qed
  from this [of "map (\<lambda>p. (pt_name p, p)) _"] show ?thesis
    unfolding nested_config_def collect_partitions_def config.simps by (rule order.trans) simp
qed

theorem parent_chain_path_witness:
  "\<exists>p q. parent_chain nested_config 2 ''inner'' [] = (Ok [p, q] :: (unit, _) outcome) \<and> pt_name p = ''inner'' \<and> pt_name q = ''outer''"
proof -
  let ?p = "\<lparr>pt_name = ''inner'', pt_parent = Some ''outer'', pt_uuid = ''2'', pt_keyslot = None\<rparr>"
  let ?q = "\<lparr>pt_name = ''outer'', pt_parent = None, pt_uuid = ''1'', pt_keyslot = None\<rparr>"
  have "parent_chain nested_config 2 ''inner'' [] = (Ok [?p, ?q] :: (unit, _) outcome)"
    using parent_chain_path [OF nested_length, of "''inner''" "[?p, ?q]"] by (simp add: nested_lookup)
  then show ?thesis by (intro exI [of _ ?p] exI [of _ ?q]) simp
qed

theorem cyclic_parents_never_resolved_witness:
  "\<forall>F G kdf fuel s. resolve_and_read_file F G kdf cyclic_config fuel
     \<lparr>cf_partition = ''a'', cf_extra_partitions = [], cf_file = ''f''\<rparr> s = (Halt OutOfFuel, s)"
proof (intro allI)
  fix F G kdf fuel s
  have S: "\<exists>p q. map_of (partitions cyclic_config) n = Some p \<and> pt_parent p = Some q \<and> q \<in> {''a'', ''b''}" if "n \<in> {''a'', ''b''}" for n
    using that by (auto simp: cyclic_config_def collect_partitions_def map_of_btree_collect)
  show "resolve_and_read_file F G kdf cyclic_config fuel
     \<lparr>cf_partition = ''a'', cf_extra_partitions = [], cf_file = ''f''\<rparr> s = (Halt OutOfFuel, s)"
    by (rule cyclic_parents_never_resolved [OF S]) simp_all
qed

theorem password_is_cached_witness:
  "\<exists>s'. get_password_of_keyslot idle_platform 3 (\<lambda>f s. (Ok [5], s)) \<lparr>ks_name = ''k'', ks_source = KeyFile \<lparr>cf_partition = ''a'', cf_extra_partitions = [], cf_file = ''f''\<rparr>\<rparr> Discard
      \<lparr>world = (), keyslot_buffer = (\<lambda>_. None), masterkey_buffer = (\<lambda>_. None :: unit option)\<rparr> = ((Ok [5] :: (unit greeter_error, _) outcome), s') \<and>
    get_password_of_keyslot idle_platform 0 (\<lambda>f s. (Panic, s)) \<lparr>ks_name = ''k'', ks_source = KeyFile \<lparr>cf_partition = ''a'', cf_extra_partitions = [], cf_file = ''f''\<rparr>\<rparr> Cached s' =
      ((Ok [5] :: (unit greeter_error, _) outcome), s')"
proof -
  let ?ks = "\<lparr>ks_name = ''k'', ks_source = KeyFile \<lparr>cf_partition = ''a'', cf_extra_partitions = [], cf_file = ''f''\<rparr>\<rparr>"
  let ?s = "\<lparr>world = (), keyslot_buffer = (\<lambda>_. None), masterkey_buffer = (\<lambda>_. None :: unit option)\<rparr>"
  obtain s' where run: "get_password_of_keyslot idle_platform 3 (\<lambda>f s. (Ok [5], s)) ?ks Discard ?s = ((Ok [5] :: (unit greeter_error, _) outcome), s')"
    by (simp add: get_password_of_keyslot_def pbind_def)
  from password_is_cached [OF run] run show ?thesis by blast
qed

text \<open>Formats in which nothing opens, on a reader that can be rewound.\<close>

definition closed_formats :: "(unit, unit, unit) formats" where
  "closed_formats =
     \<lparr>dyn_ops = \<lparr>rd = (\<lambda>n r. (Ok (replicate n 0), r)), sk = (\<lambda>p r. (Ok 0, r))\<rparr>,
      dyn_disk = (\<lambda>_. ()), dyn_part = (\<lambda>_. ()), dyn_inner = (\<lambda>r. r),
      lvm_open = (\<lambda>r. (Err (), r)),
      luks_header_uuid = (\<lambda>b. Ok ''1''),
      luks_with_key = (\<lambda>k r. (Err (LuksOther ()), r)),
      luks_with_password = (\<lambda>p r. (Err InvalidPassword, r)),
      ext4_open = (\<lambda>r. (Err (), r)),
      fat_open = (\<lambda>r. (Err (), r)),
      fat_ops = \<lparr>rd = (\<lambda>n r. (Ok [], r)), sk = (\<lambda>p r. (Ok 0, r))\<rparr>,
      gpt_partitions = (\<lambda>r. (Err (), r)),
      luks_error_of = (\<lambda>_. ()),
      unexpected_eof = (),
      utf8_error = (\<lambda>_. ())\<rparr>"

theorem wrong_keyfile_never_ends_witness:
  "\<forall>fuel. fst (luks_unlock idle_platform closed_formats fuel (\<lambda>f s. (Ok [5], s))
     \<lparr>ks_name = ''k'', ks_source = KeyFile \<lparr>cf_partition = ''a'', cf_extra_partitions = [], cf_file = ''f''\<rparr>\<rparr> ''1''
     (\<lparr>world = (), keyslot_buffer = (\<lambda>_. None), masterkey_buffer = (\<lambda>_. None)\<rparr>, ())) = Halt OutOfFuel"
  by (intro allI wrong_keyfile_never_ends [where R = UNIV]) (simp_all add: closed_formats_def)

text \<open>The id of a FAT volume is compared without the leading zeroes that its usual spelling has.\<close>

lemma fat_uuid_drops_zeroes: "fat_uuid 0x0ABC0012 = ''ABC-12''"
proof -
  have "unat (drop_bit 16 0x0ABC0012 :: u32) = 0xABC" "unat (ucast (0x0ABC0012 :: u32) :: u16) = 0x12"
    by (simp_all add: drop_bit_eq_div)
  then show ?thesis
    by (simp add: fat_uuid_def hex_upper.simps [of "0xABC"] hex_upper.simps [of "0xAB"] hex_upper.simps [of "0xA"]
        hex_upper.simps [of "0x12"] hex_upper.simps [of "Suc 0"] hex_digit_def)
qed

end
