(* ===== verification/Volumes.thy ===== *)
theory Volumes imports Search begin

text \<open>
  What the search for a file promises. A \<open>volume\<close> is what storage holds: a volume group with logical
  volumes, an encrypted device with its contents, a file system with its files, a partition table
  with its partitions, or something the greeter does not know. \<open>locate\<close> is the specification: the
  file that a path of partitions leads to. \<open>represents\<close> says what the search relies on in the crates
  that know the formats: each of them opens the volumes of its own format and no others, and gives
  a reader at the start of what it has opened. The theorem is that \<open>find_read_file_internal\<close>
  computes \<open>locate\<close>.
\<close>

section \<open>The specification\<close>

text \<open>
  A file system is a function from path strings, as its crate reads them: many strings name the same
  file (slashes in front of an ext4 path, upper and lower case in a FAT path), some name a directory
  or another entry without content, and all others name nothing.
\<close>

datatype file_entry = Content "u8 list" | NotRegular | Absent

fun content :: "file_entry \<Rightarrow> u8 list option" where
  "content (Content data) = Some data"
| "content NotRegular = None"
| "content Absent = None"

type_synonym file_names = "string \<Rightarrow> file_entry"

datatype volume =
    LvmVolume string "volume list"
  | LuksVolume string volume
  | Ext4Volume string file_names
  | FatVolume u32 file_names
  | GptVolume "volume list"
  | UnknownVolume

fun first_some :: "'a option list \<Rightarrow> 'a option" where
  "first_some [] = None"
| "first_some (Some a # xs) = Some a"
| "first_some (None # xs) = first_some xs"

text \<open>
  A volume with an id consumes the first partition of the path if the ids agree; a partition table
  has no id, and consumes none. A file system must be at the end of the path.
\<close>

function locate :: "volume \<Rightarrow> partition list \<Rightarrow> string \<Rightarrow> u8 list option" where
  "locate v [] path = None"
| "locate (LvmVolume i vs) (p # ps) path =
     (if i = pt_uuid p then first_some (map (\<lambda>v. locate v ps path) vs) else None)"
| "locate (LuksVolume i v) (p # ps) path =
     (if i = pt_uuid p \<and> pt_keyslot p \<noteq> None then locate v ps path else None)"
| "locate (Ext4Volume i fs) (p # ps) path = (if i = pt_uuid p \<and> ps = [] then content (fs path) else None)"
| "locate (FatVolume i fs) (p # ps) path = (if fat_uuid i = pt_uuid p \<and> ps = [] then content (fs path) else None)"
| "locate (GptVolume vs) (p # ps) path = first_some (map (\<lambda>v. locate v (p # ps) path) vs)"
| "locate UnknownVolume (p # ps) path = None"
  by pat_completeness auto
termination
  by (relation "measure (\<lambda>(v, ps, path). size v)") (auto simp: less_Suc_eq_le size_list_estimation')

fun depth :: "volume \<Rightarrow> nat" where
  "depth (LvmVolume i vs) = Suc (fold max (map depth vs) 0)"
| "depth (LuksVolume i v) = Suc (depth v)"
| "depth (GptVolume vs) = Suc (fold max (map depth vs) 0)"
| "depth v = 1"

text \<open>The path string names no directory on any file system of the storage.\<close>

fun no_directory :: "string \<Rightarrow> volume \<Rightarrow> bool" where
  "no_directory path (LvmVolume i vs) \<longleftrightarrow> list_all (no_directory path) vs"
| "no_directory path (LuksVolume i v) \<longleftrightarrow> no_directory path v"
| "no_directory path (Ext4Volume i fs) \<longleftrightarrow> fs path \<noteq> NotRegular"
| "no_directory path (FatVolume i fs) \<longleftrightarrow> fs path \<noteq> NotRegular"
| "no_directory path (GptVolume vs) \<longleftrightarrow> list_all (no_directory path) vs"
| "no_directory path UnknownVolume \<longleftrightarrow> True"

lemma depth_member: "v \<in> set vs \<Longrightarrow> depth v \<le> fold max (map depth vs) 0"
proof -
  have "Max (set (0 # map depth vs)) = fold max (map depth vs) 0"
    using Max.set_eq_fold [of 0 "map depth vs"] by simp
  moreover assume "v \<in> set vs"
  ultimately show ?thesis by (metis Max_ge List.finite_set image_eqI list.set_intros(2) list.set_map)
qed

section \<open>What the crates are relied on for\<close>

text \<open>
  A reader is on a stack of volumes, the top being the one it reads; \<open>at_start\<close> says that it is at the
  beginning. \<open>pw\<close> and \<open>mk\<close> are password and master key of the encrypted device with a given id, and
  \<open>N\<close> is the fuel that reading a header or a file takes. Of a path that names a directory nothing
  is asked: what becomes of opening one as a file is up to the crates.
\<close>

definition opens_lvm where
  "opens_lvm G rep at_start \<longleftrightarrow> (\<forall>v vs r. at_start (v # vs) r \<longrightarrow>
     (case v of
        LvmVolume i ws \<Rightarrow> (\<exists>lvm r'. lvm_open G r = (Ok lvm, r') \<and> rep (v # vs) r' \<and> lvm_pv_id lvm = i \<and>
          list_all2 (\<lambda>lv w. \<forall>r. rep (v # vs) r \<longrightarrow> at_start (w # v # vs) (lv_open lv r)) (lvm_lvs lvm) ws)
      | _ \<Rightarrow> (\<exists>e r'. lvm_open G r = (Err e, r') \<and> rep (v # vs) r')))"

definition opens_luks where
  "opens_luks G rep at_start pw mk N \<longleftrightarrow> (\<forall>v vs r. at_start (v # vs) r \<longrightarrow>
     (\<exists>buf r'. (\<forall>fuel. N \<le> fuel \<longrightarrow> read_exact (dyn_ops G) (unexpected_eof G) fuel 4096 [] r = (Ok buf, r')) \<and> rep (v # vs) r' \<and>
       (case v of
          LuksVolume i w \<Rightarrow> luks_header_uuid G buf = Ok i \<and>
            (\<exists>r'. luks_with_password G (pw i) r = (Ok (mk i), r') \<and> at_start (w # v # vs) r') \<and>
            (\<exists>r'. luks_with_key G (mk i) r = (Ok (), r') \<and> at_start (w # v # vs) r')
        | _ \<Rightarrow> (\<exists>e. luks_header_uuid G buf = Err e))))"

definition ext4_reads where
  "ext4_reads rep e4 path entry \<longleftrightarrow> (\<forall>r. rep r \<longrightarrow>
     (case entry of
        NotRegular \<Rightarrow> True
      | Absent \<Rightarrow> (\<exists>r'. e4_resolve_path e4 path r = (None, r') \<and> rep r')
      | Content data \<Rightarrow> (\<exists>n r1 inode r2 r3 r4. e4_resolve_path e4 path r = (Some n, r1) \<and>
          e4_load_inode e4 n r1 = (Some inode, r2) \<and> e4_open e4 inode r2 = (True, r3) \<and>
          e4_read_to_end e4 inode r3 = (Some data, r4) \<and> rep r4)))"

definition opens_ext4 where
  "opens_ext4 G rep at_start \<longleftrightarrow> (\<forall>v vs r. at_start (v # vs) r \<longrightarrow>
     (case v of
        Ext4Volume i fs \<Rightarrow> (\<exists>e4 r'. ext4_open G r = (Ok e4, r') \<and> rep (v # vs) r' \<and> e4_uuid e4 = i \<and>
          (\<forall>path. ext4_reads (rep (v # vs)) e4 path (fs path)))
      | _ \<Rightarrow> (\<exists>e r'. ext4_open G r = (Err e, r') \<and> rep (v # vs) r')))"

definition fat_reads where
  "fat_reads G rep N fat path entry \<longleftrightarrow> (\<forall>r. rep r \<longrightarrow>
     (case entry of
        NotRegular \<Rightarrow> True
      | Absent \<Rightarrow> (\<exists>e r'. fat_open_file fat path r = (Err e, r') \<and> rep r')
      | Content data \<Rightarrow> (\<exists>r1 r2. fat_open_file fat path r = (Ok (), r1) \<and> rep r2 \<and>
          (\<forall>fuel. N \<le> fuel \<longrightarrow> read_to_end_loop (fat_ops G) fuel 4096 [] r1 = (Ok data, r2)))))"

definition opens_fat where
  "opens_fat G rep at_start N \<longleftrightarrow> (\<forall>v vs r. at_start (v # vs) r \<longrightarrow>
     (case v of
        FatVolume i fs \<Rightarrow> (\<exists>fat r'. fat_open G r = (Ok fat, r') \<and> rep (v # vs) r' \<and> fat_volume_id fat = i \<and>
          (\<forall>path. fat_reads G (rep (v # vs)) N fat path (fs path)))
      | _ \<Rightarrow> (\<exists>e r'. fat_open G r = (Err e, r') \<and> rep (v # vs) r')))"

definition opens_gpt where
  "opens_gpt G rep at_start \<longleftrightarrow> (\<forall>v vs r. at_start (v # vs) r \<longrightarrow>
     (case v of
        GptVolume ws \<Rightarrow> (\<exists>parts r'. gpt_partitions G r = (Ok parts, r') \<and> rep (v # vs) r' \<and>
          list_all2 (\<lambda>(first_byte, len) w. \<forall>r. rep (v # vs) r \<longrightarrow>
            at_start (w # v # vs) (dyn_part G (partial_reader_new r first_byte len))) parts ws)
      | _ \<Rightarrow> (\<exists>e r'. gpt_partitions G r = (Err e, r') \<and> rep (v # vs) r')))"

definition represents ::
  "('r, 'k, 'x) formats \<Rightarrow> (volume list \<Rightarrow> 'r \<Rightarrow> bool) \<Rightarrow> (volume list \<Rightarrow> 'r \<Rightarrow> bool) \<Rightarrow> (string \<Rightarrow> u8 list) \<Rightarrow> (string \<Rightarrow> 'k) \<Rightarrow> nat \<Rightarrow> bool" where
  "represents G rep at_start pw mk N \<longleftrightarrow>
     (\<forall>vs r. at_start vs r \<longrightarrow> rep vs r) \<and>
     (\<forall>vs r. rep vs r \<longrightarrow> (\<exists>q r'. sk (dyn_ops G) (Start 0) r = (Ok q, r') \<and> at_start vs r')) \<and>
     (\<forall>v w vs r. rep (w # v # vs) r \<longrightarrow> rep (v # vs) (dyn_inner G r)) \<and>
     opens_lvm G rep at_start \<and> opens_luks G rep at_start pw mk N \<and> opens_ext4 G rep at_start \<and>
     opens_fat G rep at_start N \<and> opens_gpt G rep at_start"

text \<open>
  The states in which the keys of a path's partitions can be had: \<open>get_password_of_keyslot\<close> yields the
  password of the device, and master keys that are known are right.
\<close>

definition keys_at_hand ::
  "'w platform \<Rightarrow> config \<Rightarrow> (config_file \<Rightarrow> (('w, 'k) greeter, 'x greeter_error, u8 list) prog) \<Rightarrow> (string \<Rightarrow> u8 list) \<Rightarrow> (string \<Rightarrow> 'k) \<Rightarrow> nat \<Rightarrow>
   partition list \<Rightarrow> ('w, 'k) greeter set \<Rightarrow> bool" where
  "keys_at_hand F cfg fetch pw mk N ps I \<longleftrightarrow>
     (\<forall>s\<in>I. \<forall>u. masterkey_buffer s u \<in> {None, Some (mk u)} \<and>
        s\<lparr>masterkey_buffer := (masterkey_buffer s)(u \<mapsto> mk u)\<rparr> \<in> I) \<and>
     (\<forall>p\<in>set ps. \<forall>n. pt_keyslot p = Some n \<longrightarrow>
        (\<exists>ks. map_of (keyslots cfg) n = Some ks \<and>
           (\<forall>s\<in>I. \<exists>s'\<in>I. \<forall>fuel. N \<le> fuel \<longrightarrow>
              get_password_of_keyslot F fuel fetch ks Cached s = (Ok (pw (pt_uuid p)), s'))))"


section \<open>Probing a represented volume\<close>

text \<open>A computation that answers: the value, or some error if there is none; its last state is good.\<close>

definition answers :: "('s, 'e, 'a) prog \<Rightarrow> 'a option \<Rightarrow> ('s \<Rightarrow> bool) \<Rightarrow> 's \<Rightarrow> bool" where
  "answers m o' Q s \<longleftrightarrow> (\<exists>s'. Q s' \<and> (case o' of Some a \<Rightarrow> m s = (Ok a, s') | None \<Rightarrow> \<exists>e. m s = (Err e, s')))"

lemma answers_first_ok:
  assumes "list_all2 (\<lambda>x o'. \<forall>s. Q s \<longrightarrow> answers (f x) o' Q s) xs os" "Q s"
  shows "\<exists>s'. Q s' \<and> first_ok f xs s = (Ok (first_some os), s')"
  using assms
proof (induction xs os arbitrary: s rule: list_all2_induct)
  case (Cons x xs o' os)
  then have "answers (f x) o' Q s" by blast
  then show ?case using Cons by (cases o') (auto simp: answers_def)
qed (auto simp: pure_def)

lemma answers_decided:
  assumes "list_all2 (\<lambda>x o'. \<forall>s. Q s \<longrightarrow> answers (f x) o' Q s) xs os" "Q s"
  shows "answers (decided (first_ok f xs) msg) (map_option Some (first_some os)) Q s"
proof -
  obtain s' where "Q s'" "first_ok f xs s = (Ok (first_some os), s')" using answers_first_ok [OF assms] by blast
  then show ?thesis
    by (cases "first_some os") (auto simp: answers_def decided_def not_found_def pbind_def pure_def)
qed

text \<open>The chain of probes: one that passes is followed by a rewind and the next one.\<close>

lemma answers_passed:
  assumes "\<exists>s'. Q s' \<and> m s = (Ok None, s')" "\<And>s. Q s \<Longrightarrow> \<exists>s'. Q' s' \<and> w s = (Ok (), s')"
    and "\<And>s. Q' s \<Longrightarrow> answers k o' R s"
  shows "answers (orelse m (pbind w (\<lambda>_. k))) o' R s"
proof -
  obtain s1 where s1: "Q s1" "m s = (Ok None, s1)" using assms(1) by blast
  obtain s2 where s2: "Q' s2" "w s1 = (Ok (), s2)" using assms(2) [OF s1(1)] by blast
  have "orelse m (pbind w (\<lambda>_. k)) s = k s2"
    using s1 s2 by (simp add: orelse_def pbind_def)
  then show ?thesis using assms(3) [OF s2(1)] by (cases o') (auto simp: answers_def)
qed

lemma answers_found:
  assumes "answers m (map_option Some o') Q s"
  shows "answers (orelse m k) o' Q s"
  using assms by (cases o') (auto simp: answers_def orelse_def pbind_def pure_def)

lemma answers_run: "answers n o' Q t \<Longrightarrow> m s = n t \<Longrightarrow> answers m o' Q s"
  by (cases o') (auto simp: answers_def)

lemma answers_mono: "answers m o' Q s \<Longrightarrow> (\<And>s. Q s \<Longrightarrow> Q' s) \<Longrightarrow> answers m o' Q' s"
  by (auto simp: answers_def)

text \<open>The states of the search on a stack of volumes.\<close>

definition on_stack :: "(volume list \<Rightarrow> 'r \<Rightarrow> bool) \<Rightarrow> ('w, 'k) greeter set \<Rightarrow> volume list \<Rightarrow> ('w, 'k) greeter \<times> 'r \<Rightarrow> bool" where
  "on_stack rep I vs = (\<lambda>(s, r). s \<in> I \<and> rep vs r)"

lemma answers_through:
  assumes "\<And>s r. Q (s, r) \<Longrightarrow> answers m o' Q1 (s, up r)" "\<And>s r. Q1 (s, r) \<Longrightarrow> Q2 (s, down r)" "Q (s, r)"
  shows "answers (through up down m) o' Q2 (s, r)"
proof -
  from assms(1) [OF assms(3)] obtain s1 r1 where "Q1 (s1, r1)"
    "case o' of Some a \<Rightarrow> m (s, up r) = (Ok a, (s1, r1)) | None \<Rightarrow> \<exists>e. m (s, up r) = (Err e, (s1, r1))"
    by (auto simp: answers_def)
  with assms(2) show ?thesis
    by (cases o') (auto simp: answers_def through_def)
qed

lemma rewind_stack:
  fixes G :: "('r, 'k, 'x) formats" and I :: "('w, 'k) greeter set"
  assumes "represents G rep at_start pw mk N" "on_stack rep I vs sr"
  shows "\<exists>sr'. on_stack at_start I vs sr' \<and> rewind_dyn G ctx sr = (Ok (), sr')"
proof -
  obtain s r where sr: "sr = (s, r)" "s \<in> I" "rep vs r" using assms(2) by (auto simp: on_stack_def)
  obtain q r' where "sk (dyn_ops G) (Start 0) r = (Ok q, r')" "at_start vs r'"
    using assms(1) sr(3) unfolding represents_def by blast
  then show ?thesis using sr
    by (auto simp: on_stack_def rewind_dyn_def zoom_def context_from_def pmap_err_def rewind_def pbind_def pure_def)
qed


definition searches where
  "searches rep at_start I inner vs ps path \<longleftrightarrow>
     (\<forall>sr. on_stack at_start I vs sr \<longrightarrow> answers (inner ps path) (locate (hd vs) ps path) (on_stack rep I vs) sr)"

lemma probe_lvm_passes:
  assumes "represents G rep at_start pw mk N" "on_stack at_start I (v # vs) sr"
    and "\<And>i ws. v = LvmVolume i ws \<Longrightarrow> i \<noteq> pt_uuid p"
  shows "\<exists>sr'. on_stack rep I (v # vs) sr' \<and> probe_lvm G inner p rest path sr = (Ok None, sr')"
proof -
  obtain s r where sr: "sr = (s, r)" "s \<in> I" "at_start (v # vs) r" using assms(2) by (auto simp: on_stack_def)
  have "opens_lvm G rep at_start" using assms(1) by (simp add: represents_def)
  from this [unfolded opens_lvm_def, rule_format, OF sr(3)] show ?thesis using sr(1,2) assms(3)
    by (cases v) (auto simp: on_stack_def probe_lvm_def zoom_def)
qed

lemma probe_lvm_answers:
  assumes rep: "represents G rep at_start pw mk N" and start: "on_stack at_start I (LvmVolume (pt_uuid p) ws # vs) sr"
    and inner: "\<And>w. w \<in> set ws \<Longrightarrow> searches rep at_start I inner (w # LvmVolume (pt_uuid p) ws # vs) rest path"
  shows "answers (probe_lvm G inner p rest path) (map_option Some (first_some (map (\<lambda>w. locate w rest path) ws)))
     (on_stack rep I (LvmVolume (pt_uuid p) ws # vs)) sr"
proof -
  let ?v = "LvmVolume (pt_uuid p) ws"
  obtain s r where sr: "sr = (s, r)" "s \<in> I" "at_start (?v # vs) r" using start by (auto simp: on_stack_def)
  have "opens_lvm G rep at_start" using rep by (simp add: represents_def)
  from this [unfolded opens_lvm_def, rule_format, OF sr(3)]
  obtain lvm r1 where r1: "lvm_open G r = (Ok lvm, r1)" "rep (?v # vs) r1" "lvm_pv_id lvm = pt_uuid p"
    and lvs: "list_all2 (\<lambda>lv w. \<forall>r. rep (?v # vs) r \<longrightarrow> at_start (w # ?v # vs) (lv_open lv r)) (lvm_lvs lvm) ws"
    by auto
  have under: "rep (w # ?v # vs) r \<Longrightarrow> rep (?v # vs) (dyn_inner G r)" for w r
    using rep unfolding represents_def by blast
  let ?f = "\<lambda>lv. through (lv_open lv) (dyn_inner G) (inner rest path)"
  have each: "answers (?f lv) (locate w rest path) (on_stack rep I (?v # vs)) sr"
    if "w \<in> set ws" "\<forall>r. rep (?v # vs) r \<longrightarrow> at_start (w # ?v # vs) (lv_open lv r)" "on_stack rep I (?v # vs) sr" for lv w sr
  proof -
    obtain s r where "sr = (s, r)" by fastforce
    with that inner [OF that(1)] show ?thesis
      by (auto intro!: answers_through [where ?Q1.0 = "on_stack rep I (w # ?v # vs)" and Q = "on_stack rep I (?v # vs)"] under
          simp: searches_def on_stack_def)
  qed
  have "list_all2 (\<lambda>lv o'. \<forall>sr. on_stack rep I (?v # vs) sr \<longrightarrow> answers (?f lv) o' (on_stack rep I (?v # vs)) sr)
      (lvm_lvs lvm) (map (\<lambda>w. locate w rest path) ws)"
    unfolding list_all2_map2 by (rule list.rel_mono_strong [OF lvs]) (use each in blast)
  from answers_decided [OF this, of "(s, r1)" "''no lv contains requested file''"]
  show ?thesis by (rule answers_run) (use sr r1 in \<open>simp_all add: probe_lvm_def zoom_def on_stack_def\<close>)
qed

lemma probe_gpt_passes:
  assumes "represents G rep at_start pw mk N" "on_stack at_start I (v # vs) sr" "\<And>ws. v \<noteq> GptVolume ws"
  shows "\<exists>sr'. on_stack rep I (v # vs) sr' \<and> probe_gpt G inner ps path sr = (Ok None, sr')"
proof -
  obtain s r where sr: "sr = (s, r)" "s \<in> I" "at_start (v # vs) r" using assms(2) by (auto simp: on_stack_def)
  have "opens_gpt G rep at_start" using assms(1) by (simp add: represents_def)
  from this [unfolded opens_gpt_def, rule_format, OF sr(3)] show ?thesis using sr(1,2) assms(3)
    by (cases v) (auto simp: on_stack_def probe_gpt_def zoom_def)
qed

lemma probe_gpt_answers:
  assumes rep: "represents G rep at_start pw mk N" and start: "on_stack at_start I (GptVolume ws # vs) sr"
    and inner: "\<And>w. w \<in> set ws \<Longrightarrow> searches rep at_start I inner (w # GptVolume ws # vs) ps path"
  shows "answers (probe_gpt G inner ps path) (map_option Some (first_some (map (\<lambda>w. locate w ps path) ws)))
     (on_stack rep I (GptVolume ws # vs)) sr"
proof -
  let ?v = "GptVolume ws"
  obtain s r where sr: "sr = (s, r)" "s \<in> I" "at_start (?v # vs) r" using start by (auto simp: on_stack_def)
  have "opens_gpt G rep at_start" using rep by (simp add: represents_def)
  from this [unfolded opens_gpt_def, rule_format, OF sr(3)]
  obtain parts r1 where r1: "gpt_partitions G r = (Ok parts, r1)" "rep (?v # vs) r1"
    and lvs: "list_all2 (\<lambda>(first_byte, len) w. \<forall>r. rep (?v # vs) r \<longrightarrow>
        at_start (w # ?v # vs) (dyn_part G (partial_reader_new r first_byte len))) parts ws"
    by auto
  have under: "rep (w # ?v # vs) r \<Longrightarrow> rep (?v # vs) (dyn_inner G r)" for w r
    using rep unfolding represents_def by blast
  let ?f = "\<lambda>(first_byte, len). through (\<lambda>r. dyn_part G (partial_reader_new r first_byte len)) (dyn_inner G) (inner ps path)"
  have each: "answers (?f part) (locate w ps path) (on_stack rep I (?v # vs)) sr"
    if "w \<in> set ws" "case part of (first_byte, len) \<Rightarrow> \<forall>r. rep (?v # vs) r \<longrightarrow>
        at_start (w # ?v # vs) (dyn_part G (partial_reader_new r first_byte len))" "on_stack rep I (?v # vs) sr" for part w sr
  proof -
    obtain s r b l where "sr = (s, r)" "part = (b, l)" by (metis surj_pair)
    with that inner [OF that(1)] show ?thesis
      by (auto intro!: answers_through [where ?Q1.0 = "on_stack rep I (w # ?v # vs)" and Q = "on_stack rep I (?v # vs)"] under
          simp: searches_def on_stack_def)
  qed
  have "list_all2 (\<lambda>part o'. \<forall>sr. on_stack rep I (?v # vs) sr \<longrightarrow> answers (?f part) o' (on_stack rep I (?v # vs)) sr)
      parts (map (\<lambda>w. locate w ps path) ws)"
    unfolding list_all2_map2 by (rule list.rel_mono_strong [OF lvs]) (use each in blast)
  from answers_decided [OF this, of "(s, r1)" "''file not found in any gpt partition''"]
  show ?thesis by (rule answers_run) (use sr r1 in \<open>simp_all add: probe_gpt_def zoom_def on_stack_def\<close>)
qed

lemma probe_ext4_passes:
  assumes "represents G rep at_start pw mk N" "on_stack at_start I (v # vs) sr"
    and "\<And>i fs. v = Ext4Volume i fs \<Longrightarrow> i \<noteq> pt_uuid p"
  shows "\<exists>sr'. on_stack rep I (v # vs) sr' \<and> probe_ext4 G p rest path sr = (Ok None, sr')"
proof -
  obtain s r where sr: "sr = (s, r)" "s \<in> I" "at_start (v # vs) r" using assms(2) by (auto simp: on_stack_def)
  have "opens_ext4 G rep at_start" using assms(1) by (simp add: represents_def)
  from this [unfolded opens_ext4_def, rule_format, OF sr(3)] show ?thesis using sr(1,2) assms(3)
    by (cases v) (auto simp: on_stack_def probe_ext4_def zoom_def)
qed

lemma probe_ext4_answers:
  assumes rep: "represents G rep at_start pw mk N" and start: "on_stack at_start I (Ext4Volume (pt_uuid p) fs # vs) sr"
    and "fs path \<noteq> NotRegular"
  shows "answers (probe_ext4 G p rest path) (map_option Some (if rest = [] then content (fs path) else None))
     (on_stack rep I (Ext4Volume (pt_uuid p) fs # vs)) sr"
proof -
  let ?v = "Ext4Volume (pt_uuid p) fs"
  obtain s r where sr: "sr = (s, r)" "s \<in> I" "at_start (?v # vs) r" using start by (auto simp: on_stack_def)
  have "opens_ext4 G rep at_start" using rep by (simp add: represents_def)
  from this [unfolded opens_ext4_def, rule_format, OF sr(3)]
  obtain e4 r1 where r1: "ext4_open G r = (Ok e4, r1)" "rep (?v # vs) r1" "e4_uuid e4 = pt_uuid p"
    "ext4_reads (rep (?v # vs)) e4 path (fs path)"
    by auto
  from r1(4) [unfolded ext4_reads_def, rule_format, OF r1(2)] r1 sr assms(3) show ?thesis
    by (cases "fs path")
      (auto simp: answers_def probe_ext4_def zoom_def not_found_def pure_def on_stack_def)
qed


lemma probe_fat_passes:
  assumes "represents G rep at_start pw mk N" "on_stack at_start I (v # vs) sr"
    and "\<And>i fs. v = FatVolume i fs \<Longrightarrow> pt_uuid p \<noteq> fat_uuid i"
  shows "\<exists>sr'. on_stack rep I (v # vs) sr' \<and> probe_fat G fuel p rest path sr = (Ok None, sr')"
proof -
  obtain s r where sr: "sr = (s, r)" "s \<in> I" "at_start (v # vs) r" using assms(2) by (auto simp: on_stack_def)
  have "opens_fat G rep at_start N" using assms(1) by (simp add: represents_def)
  from this [unfolded opens_fat_def, rule_format, OF sr(3)] show ?thesis using sr(1,2) assms(3)
    by (cases v) (auto simp: on_stack_def probe_fat_def zoom_def)
qed

lemma probe_fat_answers:
  assumes rep: "represents G rep at_start pw mk N" and start: "on_stack at_start I (FatVolume i fs # vs) sr"
    and "pt_uuid p = fat_uuid i" "N \<le> fuel" "fs path \<noteq> NotRegular"
  shows "answers (probe_fat G fuel p rest path) (map_option Some (if rest = [] then content (fs path) else None))
     (on_stack rep I (FatVolume i fs # vs)) sr"
proof -
  let ?v = "FatVolume i fs"
  obtain s r where sr: "sr = (s, r)" "s \<in> I" "at_start (?v # vs) r" using start by (auto simp: on_stack_def)
  have "opens_fat G rep at_start N" using rep by (simp add: represents_def)
  from this [unfolded opens_fat_def, rule_format, OF sr(3)]
  obtain fat r1 where r1: "fat_open G r = (Ok fat, r1)" "rep (?v # vs) r1" "fat_volume_id fat = i"
    "fat_reads G (rep (?v # vs)) N fat path (fs path)"
    by auto
  from r1(4) [unfolded fat_reads_def, rule_format, OF r1(2)] r1 sr assms(3-5) show ?thesis
    by (cases "fs path")
      (auto simp: answers_def probe_fat_def zoom_def not_found_def pure_def on_stack_def pbind_def context_from_def pmap_err_def)
qed

text \<open>The header of an encrypted device is read and the reader rewound, whatever it holds.\<close>

lemma luks_header:
  fixes G :: "('r, 'k, 'x) formats" and I :: "('w, 'k) greeter set"
  assumes "represents G rep at_start pw mk N" "on_stack at_start I (v # vs) sr" "N \<le> fuel"
  obtains buf sr' where "on_stack at_start I (v # vs) sr'"
    "pbind (on_reader (context_from IoSource ''error reading luks header'' (read_exact (dyn_ops G) (unexpected_eof G) fuel 4096 []))) (\<lambda>buf.
     pbind (rewind_dyn G ''can't rewind reader after luks2-header read'') (\<lambda>_. k buf)) sr = k buf sr'"
    "case v of LuksVolume i w \<Rightarrow> luks_header_uuid G buf = Ok i | _ \<Rightarrow> \<exists>e. luks_header_uuid G buf = Err e"
proof -
  obtain s r where sr: "sr = (s, r)" "s \<in> I" "at_start (v # vs) r" using assms(2) by (auto simp: on_stack_def)
  have "opens_luks G rep at_start pw mk N" using assms(1) by (simp add: represents_def)
  from this [unfolded opens_luks_def, rule_format, OF sr(3)] obtain buf r' where
    rd: "read_exact (dyn_ops G) (unexpected_eof G) fuel 4096 [] r = (Ok buf, r')" "rep (v # vs) r'"
    and hd: "case v of LuksVolume i w \<Rightarrow> luks_header_uuid G buf = Ok i | _ \<Rightarrow> \<exists>e. luks_header_uuid G buf = Err e"
    using assms(3) by (cases v) auto
  obtain sr' where "on_stack at_start I (v # vs) sr'"
    "rewind_dyn G ''can't rewind reader after luks2-header read'' (s, r') = ((Ok () :: ('x greeter_error, _) outcome), sr')"
    using rewind_stack [OF assms(1), where I = I and vs = "v # vs" and sr = "(s, r')" and ctx = "''can't rewind reader after luks2-header read''"]
      rd(2) sr(2) by (auto simp: on_stack_def)
  with that hd show thesis using rd sr
    by (auto simp: pbind_def zoom_def context_from_def pmap_err_def)
qed

lemma probe_luks_passes:
  fixes G :: "('r, 'k, 'x) formats" and I :: "('w, 'k) greeter set"
  assumes "represents G rep at_start pw mk N" "on_stack at_start I (v # vs) sr" "N \<le> fuel"
    and "\<And>i w. v = LuksVolume i w \<Longrightarrow> i \<noteq> pt_uuid p"
  shows "\<exists>sr'. on_stack rep I (v # vs) sr' \<and> probe_luks F G cfg fuel fetch inner p rest path sr = (Ok None, sr')"
proof -
  have start: "on_stack rep I (v # vs) sr" if "on_stack at_start I (v # vs) sr" for sr
    using that assms(1) by (auto simp: on_stack_def represents_def)
  show ?thesis unfolding probe_luks_def
    by (rule luks_header [OF assms(1-3)], erule ssubst)
      (use assms(4) start in \<open>cases v; auto simp: pure_def\<close>)
qed


lemma luks_unlock_opens:
  fixes G :: "('r, 'k, 'x) formats" and I :: "('w, 'k) greeter set"
  assumes rep: "represents G rep at_start pw mk N" and start: "on_stack at_start I (LuksVolume u w # vs) sr"
    and keys: "keys_at_hand F cfg (fetch :: config_file \<Rightarrow> (('w, 'k) greeter, 'x greeter_error, u8 list) prog) pw mk N ps I"
    and ks: "\<forall>s\<in>I. \<exists>s'\<in>I. \<forall>fuel. N \<le> fuel \<longrightarrow> get_password_of_keyslot F fuel fetch ks Cached s = (Ok (pw u), s')"
    and fuel: "0 < N" "N \<le> fuel"
  shows "\<exists>sr'. on_stack at_start I (w # LuksVolume u w # vs) sr' \<and> luks_unlock F G fuel fetch ks u sr = (Ok (), sr')"
proof -
  obtain s r where sr: "sr = (s, r)" "s \<in> I" "at_start (LuksVolume u w # vs) r" using start by (auto simp: on_stack_def)
  have "opens_luks G rep at_start pw mk N" using rep by (simp add: represents_def)
  from this [unfolded opens_luks_def, rule_format, OF sr(3)] obtain r1 r2 where
    r1: "luks_with_password G (pw u) r = (Ok (mk u), r1)" "at_start (w # LuksVolume u w # vs) r1"
    and r2: "luks_with_key G (mk u) r = (Ok (), r2)" "at_start (w # LuksVolume u w # vs) r2" by auto
  show ?thesis
  proof (cases "masterkey_buffer s u")
    case None
    obtain f where f: "fuel = Suc f" using fuel by (cases fuel) auto
    obtain s' where s': "s' \<in> I" "get_password_of_keyslot F fuel fetch ks Cached s = (Ok (pw u), s')"
      using ks sr(2) fuel(2) by blast
    have "luks_loop F G fuel fetch ks Cached (s, r) = (Ok (mk u), (s', r1))"
      using s'(2) r1(1) unfolding f luks_loop.simps by (simp add: pbind_def zoom_def)
    moreover have "s'\<lparr>masterkey_buffer := (masterkey_buffer s')(u \<mapsto> mk u)\<rparr> \<in> I"
      using keys s'(1) by (simp add: keys_at_hand_def)
    ultimately show ?thesis using None r1(2) by (simp add: sr(1) luks_unlock_def pbind_def on_stack_def)
  next
    case (Some k)
    moreover have "masterkey_buffer s u \<in> {None, Some (mk u)}" using keys sr(2) unfolding keys_at_hand_def by blast
    ultimately have "k = mk u" by simp
    with Some sr r2 show ?thesis by (simp add: luks_unlock_def zoom_def context_from_def pmap_err_def on_stack_def)
  qed
qed

lemma probe_luks_answers:
  fixes G :: "('r, 'k, 'x) formats" and I :: "('w, 'k) greeter set"
  assumes rep: "represents G rep at_start pw mk N" and start: "on_stack at_start I (LuksVolume (pt_uuid p) w # vs) sr"
    and keys: "keys_at_hand F cfg (fetch :: config_file \<Rightarrow> (('w, 'k) greeter, 'x greeter_error, u8 list) prog) pw mk N (p # rest) I"
    and fuel: "0 < N" "N \<le> fuel"
    and inner: "searches rep at_start I inner (w # LuksVolume (pt_uuid p) w # vs) rest path"
  shows "answers (probe_luks F G cfg fuel fetch inner p rest path)
     (map_option Some (if pt_keyslot p \<noteq> None then locate w rest path else None))
     (on_stack rep I (LuksVolume (pt_uuid p) w # vs)) sr"
proof -
  let ?v = "LuksVolume (pt_uuid p) w"
  have under: "on_stack rep I (w # ?v # vs) (s, r) \<Longrightarrow> on_stack rep I (?v # vs) (s, dyn_inner G r)"
    "on_stack at_start I vs' sr \<Longrightarrow> on_stack rep I vs' sr" for s r sr vs'
    using rep unfolding represents_def on_stack_def by (blast, fastforce)
  let ?k = "\<lambda>buf. case luks_header_uuid G buf of
       Ok uuid \<Rightarrow>
         (if uuid = pt_uuid p then
            (case pt_keyslot p of
               None \<Rightarrow> not_found (''no keyslot defined for partition `'' @ pt_uuid p @ ''`'')
             | Some name \<Rightarrow>
                 pbind (pure (btree_index (keyslots cfg) name)) (\<lambda>ks.
                 pbind (luks_unlock F G fuel fetch ks (pt_uuid p)) (\<lambda>_.
                 decided (first_ok (\<lambda>_. through (\<lambda>r. r) (dyn_inner G) (inner rest path)) [()])
                   ''luks device didn't contain file'')))
          else pure (Ok None))
     | Err e \<Rightarrow> pure (Ok None)
     | Halt h \<Rightarrow> pure (Halt h)"
  obtain buf sr1 where sr1: "on_stack at_start I (?v # vs) sr1" "probe_luks F G cfg fuel fetch inner p rest path sr = ?k buf sr1"
    "luks_header_uuid G buf = Ok (pt_uuid p)"
    unfolding probe_luks_def by (rule luks_header [OF rep start fuel(2), where k = ?k]) auto
  show ?thesis
  proof (cases "pt_keyslot p")
    case None
    have "on_stack rep I (?v # vs) sr1" by (rule under(2) [OF sr1(1)])
    with sr1 None show ?thesis by (cases sr1) (auto simp: answers_def not_found_def pure_def)
  next
    case (Some n)
    then obtain ks where ks: "map_of (keyslots cfg) n = Some ks"
      "\<forall>s\<in>I. \<exists>s'\<in>I. \<forall>fuel. N \<le> fuel \<longrightarrow> get_password_of_keyslot F fuel fetch ks Cached s = (Ok (pw (pt_uuid p)), s')"
      using keys by (auto simp: keys_at_hand_def)
    obtain sr2 where sr2: "on_stack at_start I (w # ?v # vs) sr2" "luks_unlock F G fuel fetch ks (pt_uuid p) sr1 = (Ok (), sr2)"
      using luks_unlock_opens [OF rep sr1(1) keys ks(2) fuel] by blast
    obtain s2 r2 where [simp]: "sr2 = (s2, r2)" by fastforce
    have "answers (inner rest path) (locate w rest path) (on_stack rep I (w # ?v # vs)) sr2"
      using inner sr2(1) by (simp add: searches_def)
    then have "answers (through (\<lambda>r. r) (dyn_inner G) (inner rest path)) (locate w rest path) (on_stack rep I (?v # vs)) sr2"
      using under(1) by (auto intro: answers_through [where Q = "\<lambda>sr. sr = sr2"])
    then have "answers (decided (first_ok (\<lambda>_. through (\<lambda>r. r) (dyn_inner G) (inner rest path)) [()]) msg)
        (map_option Some (locate w rest path)) (on_stack rep I (?v # vs)) sr2" for msg
      by (cases "locate w rest path") (auto simp: answers_def decided_def not_found_def pbind_def pure_def)
    then show ?thesis using Some
      by simp (rule answers_run, assumption, simp add: sr1(2,3) Some btree_index_def ks(1) pbind_def sr2(2))
  qed
qed


section \<open>The search computes the specification\<close>

lemma answers_not_found: "Q s \<Longrightarrow> answers (not_found msg) None Q s"
  by (auto simp: answers_def not_found_def pure_def)

lemma keys_at_hand_mono: "keys_at_hand F cfg fetch pw mk N ps I \<Longrightarrow> set qs \<subseteq> set ps \<Longrightarrow> keys_at_hand F cfg fetch pw mk N qs I"
  unfolding keys_at_hand_def by blast

lemma locate_other:
  assumes "\<And>ws. v \<noteq> LvmVolume (pt_uuid p) ws" "\<And>w. v \<noteq> LuksVolume (pt_uuid p) w" "\<And>fs. v \<noteq> Ext4Volume (pt_uuid p) fs"
    and "\<And>i fs. v = FatVolume i fs \<Longrightarrow> fat_uuid i \<noteq> pt_uuid p" "\<And>ws. v \<noteq> GptVolume ws"
  shows "locate v (p # rest) path = None"
  using assms by (cases v) auto

text \<open>A probe that passes is followed by a rewind and the rest of the chain.\<close>

lemma answers_rewound:
  fixes G :: "('r, 'k, 'x) formats" and I :: "('w, 'k) greeter set"
  assumes "represents G rep at_start pw mk N" "\<exists>sr'. on_stack rep I vs sr' \<and> m sr = (Ok None, sr')"
    and "\<And>sr. on_stack at_start I vs sr \<Longrightarrow> answers k o' Q sr"
  shows "answers (orelse m (pbind (rewind_dyn G ctx) (\<lambda>_. k))) o' Q sr"
  using answers_passed [of "on_stack rep I vs" m sr "on_stack at_start I vs" "rewind_dyn G ctx" k o' Q]
    rewind_stack [OF assms(1), where I = I and vs = vs and ctx = ctx] assms(2,3) by blast

text \<open>One round of the search, given that the recursive calls search the volumes inside.\<close>

lemma probes_search:
  fixes G :: "('r, 'k, 'x) formats" and I :: "('w, 'k) greeter set"
  assumes rep: "represents G rep at_start pw mk N"
    and keys: "keys_at_hand F cfg (fetch :: config_file \<Rightarrow> (('w, 'k) greeter, 'x greeter_error, u8 list) prog) pw mk N (p # rest) I"
    and fuel: "0 < N" "N \<le> fuel"
    and regular: "no_directory path v"
    and inner: "\<And>w qs. depth w < depth v \<Longrightarrow> set qs \<subseteq> set (p # rest) \<Longrightarrow> no_directory path w \<Longrightarrow>
      searches rep at_start I (find_read_file_internal F G cfg fetch fuel) (w # v # vs) qs path"
    and start: "on_stack at_start I (v # vs) sr"
  shows "answers (find_read_file_internal F G cfg fetch (Suc fuel) (p # rest) path) (locate v (p # rest) path)
     (on_stack rep I (v # vs)) sr"
proof -
  note rew = rewind_stack [OF rep]
  let ?inner = "find_read_file_internal F G cfg fetch fuel"
  have deep: "depth w < depth (LvmVolume i ws)" "depth w < depth (GptVolume ws)" if "w \<in> set ws" for w i ws
    using depth_member [OF that] by simp_all
  have inner': "searches rep at_start I ?inner (w # v # vs) qs path"
    if "(\<exists>i ws. v = LvmVolume i ws \<and> w \<in> set ws) \<or> (\<exists>i. v = LuksVolume i w) \<or> (\<exists>ws. v = GptVolume ws \<and> w \<in> set ws)"
      "set qs \<subseteq> set (p # rest)" for w qs
  proof (rule inner [OF _ that(2)])
    show "depth w < depth v" using that(1) deep by auto
    show "no_directory path w" using that(1) regular by (auto simp: list_all_iff)
  qed
  have start': "on_stack rep I (v # vs) sr" if "on_stack at_start I (v # vs) sr" for sr
    using that rep by (auto simp: on_stack_def represents_def)
  let ?R = "on_stack rep I (v # vs)" and ?o = "locate v (p # rest) path"
  let ?gpt = "orelse (probe_gpt G ?inner (p # rest) path)
    (pbind (rewind_dyn G ''can't rewind reader after gpt probe'') (\<lambda>_. not_found ''file not found on this device''))"
  let ?fat = "orelse (probe_fat G fuel p rest path) (pbind (rewind_dyn G ''can't rewind reader after FAT probe'') (\<lambda>_. ?gpt))"
  let ?ext4 = "orelse (probe_ext4 G p rest path) (pbind (rewind_dyn G ''can't rewind reader after ext4 probe'') (\<lambda>_. ?fat))"
  let ?luks = "orelse (probe_luks F G cfg fuel fetch ?inner p rest path) (pbind (rewind_dyn G ''can't rewind reader after luks2 probe'') (\<lambda>_. ?ext4))"
  let ?not_lvm = "\<forall>ws. v \<noteq> LvmVolume (pt_uuid p) ws" and ?not_luks = "\<forall>w. v \<noteq> LuksVolume (pt_uuid p) w"
  let ?not_ext4 = "\<forall>fs. v \<noteq> Ext4Volume (pt_uuid p) fs" and ?not_fat = "\<forall>i fs. v = FatVolume i fs \<longrightarrow> pt_uuid p \<noteq> fat_uuid i"
  have gpt: "answers ?gpt ?o ?R sr" if "on_stack at_start I (v # vs) sr" ?not_lvm ?not_luks ?not_ext4 ?not_fat for sr
  proof (cases "\<exists>ws. v = GptVolume ws")
    case True
    then obtain ws where v: "v = GptVolume ws" by blast
    show ?thesis
      using probe_gpt_answers [OF rep, of I ws vs sr ?inner "p # rest" path] that(1) inner' by (simp add: v answers_found)
  next
    case False
    then have none: "?o = None" using that by (intro locate_other) auto
    show ?thesis
      by (rule answers_rewound [OF rep], rule probe_gpt_passes [OF rep that(1)])
        (use False in \<open>auto simp: none intro: answers_not_found start'\<close>)
  qed
  have fat: "answers ?fat ?o ?R sr" if "on_stack at_start I (v # vs) sr" ?not_lvm ?not_luks ?not_ext4 for sr
  proof (cases ?not_fat)
    case True
    show ?thesis
      by (rule answers_rewound [OF rep], rule probe_fat_passes [OF rep that(1)]) (use gpt that(2-) True in auto)
  next
    case False
    then obtain i fs where v: "v = FatVolume i fs" "pt_uuid p = fat_uuid i" by blast
    show ?thesis
      using probe_fat_answers [OF rep, of I i fs vs sr p fuel path rest] that(1) v(2) fuel(2) regular by (simp add: v(1) answers_found)
  qed
  have ext4: "answers ?ext4 ?o ?R sr" if "on_stack at_start I (v # vs) sr" ?not_lvm ?not_luks for sr
  proof (cases ?not_ext4)
    case True
    show ?thesis
      by (rule answers_rewound [OF rep], rule probe_ext4_passes [OF rep that(1)]) (use fat that(2-) True in auto)
  next
    case False
    then obtain fs where v: "v = Ext4Volume (pt_uuid p) fs" by blast
    show ?thesis
      using probe_ext4_answers [OF rep, of I p fs vs sr path rest] that(1) regular by (simp add: v answers_found)
  qed
  have luks: "answers ?luks ?o ?R sr" if "on_stack at_start I (v # vs) sr" ?not_lvm for sr
  proof (cases ?not_luks)
    case True
    show ?thesis
      by (rule answers_rewound [OF rep], rule probe_luks_passes [OF rep that(1) fuel(2)]) (use ext4 that(2-) True in auto)
  next
    case False
    then obtain w where v: "v = LuksVolume (pt_uuid p) w" by blast
    have "searches rep at_start I ?inner (w # v # vs) rest path" by (rule inner') (auto simp: v)
    then have "answers (probe_luks F G cfg fuel fetch ?inner p rest path) (map_option Some ?o) ?R sr"
      using probe_luks_answers [OF rep that(1) [unfolded v] keys fuel, of ?inner path] by (auto simp: v)
    then show ?thesis by (rule answers_found)
  qed
  show ?thesis unfolding find_read_file_internal.simps list.case
  proof (cases ?not_lvm)
    case True
    show "answers (orelse (probe_lvm G ?inner p rest path)
        (pbind (rewind_dyn G ''can't rewind reader after lvm2 probe'') (\<lambda>_. ?luks))) ?o ?R sr"
      by (rule answers_rewound [OF rep], rule probe_lvm_passes [OF rep start]) (use luks True in auto)
  next
    case False
    then obtain ws where v: "v = LvmVolume (pt_uuid p) ws" by blast
    show "answers (orelse (probe_lvm G ?inner p rest path)
        (pbind (rewind_dyn G ''can't rewind reader after lvm2 probe'') (\<lambda>_. ?luks))) ?o ?R sr"
      using probe_lvm_answers [OF rep start [unfolded v], of ?inner rest path] inner' by (auto simp: v intro: answers_found)
  qed
qed

lemma find_searches:
  fixes G :: "('r, 'k, 'x) formats" and I :: "('w, 'k) greeter set"
  assumes rep: "represents G rep at_start pw mk N" and N: "0 < N"
  shows "keys_at_hand F cfg (fetch :: config_file \<Rightarrow> (('w, 'k) greeter, 'x greeter_error, u8 list) prog) pw mk N ps I \<Longrightarrow>
    no_directory path v \<Longrightarrow> N + depth v \<le> fuel \<Longrightarrow> searches rep at_start I (find_read_file_internal F G cfg fetch fuel) (v # vs) ps path"
proof (induction fuel arbitrary: v vs ps)
  case 0
  with N show ?case by simp
next
  case (Suc fuel)
  have inner: "searches rep at_start I (find_read_file_internal F G cfg fetch fuel) (w # v # vs) qs path"
    if "depth w < depth v" "set qs \<subseteq> set ps" "no_directory path w" for w qs
    using Suc.IH [OF keys_at_hand_mono [OF Suc.prems(1) that(2)] that(3)] that(1) Suc.prems(3) by simp
  have "0 < depth v" by (cases v) simp_all
  then have fuel: "N \<le> fuel" using Suc.prems(3) by linarith
  show ?case
  proof (cases ps)
    case Nil
    have "on_stack rep I (v # vs) sr" if "on_stack at_start I (v # vs) sr" for sr
      using that rep by (auto simp: on_stack_def represents_def)
    then show ?thesis by (simp add: Nil searches_def answers_not_found)
  next
    case (Cons p rest)
    show ?thesis unfolding searches_def Cons list.sel
      by (intro allI impI probes_search [OF rep Suc.prems(1) [unfolded Cons] N fuel Suc.prems(2) inner [unfolded Cons]])
  qed
qed

section \<open>Properties\<close>

text \<open>
  C10: the search of a device finds the file that its path leads to and nothing else: on storage
  whose formats the crates open as documented, with the passwords and master keys of the path's
  partitions at hand, and for a file path that names no directory there, the result is the content
  that \<open>locate\<close> gives, and an error if there is none. Fuel for the depth of the nesting and for the
  reads is enough.
\<close>

theorem search_computes_locate:
  fixes G :: "('r, 'k, 'x) formats" and I :: "('w, 'k) greeter set"
    and fetch :: "config_file \<Rightarrow> (('w, 'k) greeter, 'x greeter_error, u8 list) prog"
  assumes "represents G rep at_start pw mk N" "0 < N" "N + depth v \<le> fuel" "no_directory path v"
    and "keys_at_hand F cfg fetch pw mk N ps I" "s \<in> I" "at_start [v] r"
  shows "\<exists>s'\<in>I. \<exists>r'. rep [v] r' \<and>
    (case locate v ps path of
       Some data \<Rightarrow> find_read_file_internal F G cfg fetch fuel ps path (s, r) = (Ok data, (s', r'))
     | None \<Rightarrow> (\<exists>e. find_read_file_internal F G cfg fetch fuel ps path (s, r) = (Err e, (s', r'))))"
proof -
  have "answers (find_read_file_internal F G cfg fetch fuel ps path) (locate v ps path) (on_stack rep I [v]) (s, r)"
    using find_searches [OF assms(1,2,5,4,3), of "[]"] assms(6,7) by (simp add: searches_def on_stack_def)
  then show ?thesis by (auto simp: answers_def on_stack_def)
qed


section \<open>Witnesses\<close>

text \<open>
  Formats on which a reader is the stack of volumes itself. They know one password and one
  encrypted device, partition tables with one entry, and ext4 file systems on which all regular
  files have the same content and whose directories can be resolved but not opened.
\<close>

definition image_bytes :: "u8 list" where "image_bytes = [0x4d, 0x5a]"

fun plain_volume :: "volume \<Rightarrow> bool" where
  "plain_volume (LvmVolume i vs) = list_all plain_volume vs"
| "plain_volume (LuksVolume i v) \<longleftrightarrow> i = ''L'' \<and> plain_volume v"
| "plain_volume (Ext4Volume i fs) \<longleftrightarrow> (\<forall>path. fs path \<in> {Content image_bytes, NotRegular, Absent})"
| "plain_volume (FatVolume i fs) = False"
| "plain_volume (GptVolume vs) \<longleftrightarrow> length vs = 1 \<and> list_all plain_volume vs"
| "plain_volume UnknownVolume = True"

fun header_byte :: "volume list \<Rightarrow> u8" where
  "header_byte (LuksVolume i v # vs) = 1"
| "header_byte vs = 0"

fun stack_lvm :: "volume list \<Rightarrow> (unit, volume list lvm2) outcome" where
  "stack_lvm (LvmVolume i ws # vs) = Ok \<lparr>lvm_pv_id = i, lvm_lvs = map (\<lambda>w. \<lparr>lv_name = '''', lv_open = (\<lambda>r. w # r)\<rparr>) ws\<rparr>"
| "stack_lvm vs = Err ()"

definition plain_ext4 :: "string \<Rightarrow> file_names \<Rightarrow> volume list ext4" where
  "plain_ext4 i fs =
     \<lparr>e4_uuid = i,
      e4_resolve_path = (\<lambda>path r. (case fs path of Content data \<Rightarrow> Some 1 | NotRegular \<Rightarrow> Some 2 | Absent \<Rightarrow> None, r)),
      e4_load_inode = (\<lambda>n r. (Some n, r)), e4_open = (\<lambda>n r. (n = 1, r)),
      e4_read_to_end = (\<lambda>n r. (if n = 1 then Some image_bytes else None, r))\<rparr>"

lemma plain_ext4_reads:
  assumes "plain_volume (Ext4Volume i fs)"
  shows "ext4_reads rep (plain_ext4 i fs) path (fs path)"
proof -
  have "fs path \<in> {Content image_bytes, NotRegular, Absent}" using assms by simp
  then show ?thesis by (auto simp: ext4_reads_def plain_ext4_def)
qed

fun stack_ext4 :: "volume list \<Rightarrow> (unit, volume list ext4) outcome" where
  "stack_ext4 (Ext4Volume i fs # vs) = Ok (plain_ext4 i fs)"
| "stack_ext4 vs = Err ()"

fun stack_gpt :: "volume list \<Rightarrow> (unit, (u64 \<times> u64) list) outcome" where
  "stack_gpt (GptVolume ws # vs) = Ok [(0, 0)]"
| "stack_gpt vs = Err ()"

fun stack_part :: "volume list \<Rightarrow> volume list" where
  "stack_part (GptVolume [w] # vs) = w # GptVolume [w] # vs"
| "stack_part vs = vs"

fun stack_luks :: "volume list \<Rightarrow> volume list" where
  "stack_luks (LuksVolume i w # vs) = w # LuksVolume i w # vs"
| "stack_luks vs = vs"

definition stack_formats :: "(volume list, unit, unit) formats" where
  "stack_formats =
     \<lparr>dyn_ops = \<lparr>rd = (\<lambda>n r. (Ok (replicate n (header_byte r)), r)), sk = (\<lambda>p r. (Ok 0, r))\<rparr>,
      dyn_disk = (\<lambda>_. []), dyn_part = (\<lambda>p. stack_part (part_inner p)), dyn_inner = tl,
      lvm_open = (\<lambda>r. (stack_lvm r, r)),
      luks_header_uuid = (\<lambda>b. if hd b = 1 then Ok ''L'' else Err ()),
      luks_with_key = (\<lambda>k r. (Ok (), stack_luks r)),
      luks_with_password = (\<lambda>p r. (Ok (), stack_luks r)),
      ext4_open = (\<lambda>r. (stack_ext4 r, r)),
      fat_open = (\<lambda>r. (Err (), r)),
      fat_ops = \<lparr>rd = (\<lambda>n r. (Ok [], r)), sk = (\<lambda>p r. (Ok 0, r))\<rparr>,
      gpt_partitions = (\<lambda>r. (stack_gpt r, r)),
      luks_error_of = (\<lambda>_. ()),
      unexpected_eof = (),
      utf8_error = (\<lambda>_. ())\<rparr>"

definition plain_stack :: "volume list \<Rightarrow> volume list \<Rightarrow> bool" where
  "plain_stack vs r \<longleftrightarrow> r = vs \<and> list_all plain_volume vs"

lemma stack_read_exact:
  assumes "2 \<le> fuel"
  shows "read_exact (dyn_ops stack_formats) e fuel 4096 [] r = (Ok (replicate 4096 (header_byte r)), r)"
proof -
  obtain f where f: "fuel = Suc (Suc f)" using assms by (metis One_nat_def Suc_1 Suc_le_D le_SucE Suc_leD Suc_le_mono)
  have "rd (dyn_ops stack_formats) n r = (Ok (replicate n (header_byte r)), r)" for n
    by (simp add: stack_formats_def)
  then show ?thesis by (simp add: f pbind_def pure_def)
qed

lemma stack_represents: "represents stack_formats plain_stack plain_stack (\<lambda>_. [42]) (\<lambda>_. ()) 2"
proof -
  have "opens_lvm stack_formats plain_stack plain_stack"
    unfolding opens_lvm_def
    by (auto simp: plain_stack_def stack_formats_def list_all2_conv_all_nth list_all_iff split: volume.splits)
  moreover have "opens_luks stack_formats plain_stack plain_stack (\<lambda>_. [42]) (\<lambda>_. ()) 2"
    unfolding opens_luks_def
  proof (intro allI impI)
    fix v vs r
    have sel: "luks_header_uuid stack_formats b = (if hd b = 1 then Ok ''L'' else Err ())"
      "luks_with_password stack_formats p q = (Ok (), stack_luks q)" "luks_with_key stack_formats k q = (Ok (), stack_luks q)" for b p k q
      by (simp_all add: stack_formats_def)
    assume "plain_stack (v # vs) r"
    then show "\<exists>buf r'. (\<forall>fuel. 2 \<le> fuel \<longrightarrow> read_exact (dyn_ops stack_formats) (unexpected_eof stack_formats) fuel 4096 [] r = (Ok buf, r')) \<and>
       plain_stack (v # vs) r' \<and>
       (case v of
          LuksVolume i w \<Rightarrow> luks_header_uuid stack_formats buf = Ok i \<and>
            (\<exists>r'. luks_with_password stack_formats [42] r = (Ok (), r') \<and> plain_stack (w # v # vs) r') \<and>
            (\<exists>r'. luks_with_key stack_formats () r = (Ok (), r') \<and> plain_stack (w # v # vs) r')
        | _ \<Rightarrow> (\<exists>e. luks_header_uuid stack_formats buf = Err e))"
      by (intro exI [of _ "replicate 4096 (header_byte r)"] exI [of _ r], cases v)
        (auto simp: stack_read_exact plain_stack_def sel)
  qed
  moreover have "opens_ext4 stack_formats plain_stack plain_stack"
    unfolding opens_ext4_def
  proof (intro allI impI)
    fix v vs r
    have "e4_uuid (plain_ext4 i fs) = i" for i fs by (simp add: plain_ext4_def)
    moreover assume "plain_stack (v # vs) r"
    ultimately show "case v of
        Ext4Volume i fs \<Rightarrow> (\<exists>e4 r'. ext4_open stack_formats r = (Ok e4, r') \<and> plain_stack (v # vs) r' \<and> e4_uuid e4 = i \<and>
          (\<forall>path. ext4_reads (plain_stack (v # vs)) e4 path (fs path)))
      | _ \<Rightarrow> (\<exists>e r'. ext4_open stack_formats r = (Err e, r') \<and> plain_stack (v # vs) r')"
      by (cases v) (auto simp: plain_stack_def stack_formats_def simp del: plain_volume.simps(3) intro: plain_ext4_reads)
  qed
  moreover have "opens_fat stack_formats plain_stack plain_stack 2"
    unfolding opens_fat_def by (auto simp: plain_stack_def stack_formats_def split: volume.splits)
  moreover have "opens_gpt stack_formats plain_stack plain_stack"
    unfolding opens_gpt_def
    by (auto simp: plain_stack_def stack_formats_def partial_reader_new_def length_Suc_conv split: volume.splits)
  ultimately show ?thesis
    unfolding represents_def by (auto simp: plain_stack_def stack_formats_def)
qed

text \<open>
  An ext4 file system in a logical volume on an encrypted partition of a disk. Its root directory is
  named by every string of slashes, its only file by its name after any number of them.
\<close>

definition boot_files :: file_names where
  "boot_files path =
     (case dropWhile (\<lambda>c. c = CHR ''/'') path of
        [] \<Rightarrow> NotRegular
      | name \<Rightarrow> (if name = ''vmlinuz'' then Content image_bytes else Absent))"

definition laptop :: volume where
  "laptop = GptVolume [LuksVolume ''L'' (LvmVolume ''V'' [UnknownVolume, Ext4Volume ''E'' boot_files])]"

definition laptop_path :: "partition list" where
  "laptop_path =
     [\<lparr>pt_name = ''crypt'', pt_parent = None, pt_uuid = ''L'', pt_keyslot = Some ''k''\<rparr>,
      \<lparr>pt_name = ''vg'', pt_parent = Some ''crypt'', pt_uuid = ''V'', pt_keyslot = None\<rparr>,
      \<lparr>pt_name = ''boot'', pt_parent = Some ''vg'', pt_uuid = ''E'', pt_keyslot = None\<rparr>]"

definition laptop_config :: config where
  "laptop_config = \<lparr>keyslots = collect_keyslots [\<lparr>ks_name = ''k'', ks_source = Stdin\<rparr>], partitions = collect_partitions laptop_path,
     boot_entries = [], log_level = Off\<rparr>"

theorem search_computes_locate_witness:
  "fst (find_read_file_internal idle_platform stack_formats laptop_config (\<lambda>f s. (Panic, s)) 6 laptop_path ''//vmlinuz''
     (\<lparr>world = (), keyslot_buffer = [''k'' \<mapsto> [42]], masterkey_buffer = (\<lambda>_. None)\<rparr>, [laptop])) = Ok [0x4d, 0x5a]"
proof -
  let ?s = "\<lparr>world = (), keyslot_buffer = [''k'' \<mapsto> [42]], masterkey_buffer = (\<lambda>_. None :: unit option)\<rparr>"
  let ?fetch = "\<lambda>f s. (Panic, s) :: (unit greeter_error, u8 list) outcome \<times> (unit, unit) greeter"
  let ?I = "{s :: (unit, unit) greeter. keyslot_buffer s ''k'' = Some [42]}"
  have mk: "x = None \<or> x = Some ()" for x :: "unit option" by (cases x) auto
  have keys: "keys_at_hand idle_platform laptop_config ?fetch (\<lambda>_. [42]) (\<lambda>_. ()) 2 laptop_path ?I"
    using mk by (auto simp: keys_at_hand_def laptop_path_def laptop_config_def collect_keyslots_def map_of_btree_collect
        get_password_of_keyslot_def split: option.splits)
  have "locate laptop laptop_path ''//vmlinuz'' = Some [0x4d, 0x5a]"
    by (simp add: laptop_def laptop_path_def boot_files_def image_bytes_def)
  moreover have "2 + depth laptop \<le> 6" "?s \<in> ?I" "plain_stack [laptop] [laptop]" "no_directory ''//vmlinuz'' laptop"
    by (auto simp: laptop_def plain_stack_def boot_files_def split: list.splits)
  ultimately show ?thesis
    using search_computes_locate [OF stack_represents _ _ _ keys, of laptop 6 "''//vmlinuz''" ?s "[laptop]"] by auto
qed

end
