(* ===== verification/Boot.thy ===== *)
theory Boot imports Search begin

text \<open>
  Booting: \<^verbatim>\<open>main\<close>, \<^verbatim>\<open>run\<close> and the handlers of \<^verbatim>\<open>src/main.rs\<close> that fetch an image and what goes
  with it and start it, and the loader of the configuration in \<^verbatim>\<open>src/config.rs\<close>. The image services of
  the firmware, the crates \<^verbatim>\<open>initramfs\<close> and \<^verbatim>\<open>toml\<close> and the conversion to UCS-2 are parameters.
\<close>

section \<open>The services\<close>

record ('w, 'x) loader =
  ld_allocate_pages :: "nat \<Rightarrow> ('w, status, u64) prog"
  ld_store :: "u64 \<Rightarrow> u8 list \<Rightarrow> 'w \<Rightarrow> 'w"
  ld_load_image :: "nat \<Rightarrow> device_path option \<Rightarrow> u8 list \<Rightarrow> ('w, status, nat) prog"
  ld_open_loaded_image :: "nat \<Rightarrow> ('w, status, nat) prog"
  ld_device :: "nat \<Rightarrow> 'w \<Rightarrow> nat"
  ld_locate_file_system :: "device_path \<Rightarrow> ('w, status, nat) prog"
  ld_set_load_options :: "nat \<Rightarrow> u16 list \<Rightarrow> 'w \<Rightarrow> 'w"
  ld_start_image :: "nat \<Rightarrow> ('w, status, unit) prog"
  ld_cstring16 :: "string \<Rightarrow> ('x, u16 list) outcome"
  ld_initramfs :: "u8 list list \<Rightarrow> (string \<times> u8 list) list \<Rightarrow> u8 list"
  ld_toml :: "u8 list \<Rightarrow> ('x, keyslot list \<times> partition list \<times> boot_entry list \<times> log_level) outcome"

abbreviation effect :: "('w \<Rightarrow> 'w) \<Rightarrow> ('w, 'e, unit) prog" where
  "effect f \<equiv> (\<lambda>w. (Ok (), f w))"

text \<open>The decimal digits of a number.\<close>

fun decimal :: "nat \<Rightarrow> string" where
  "decimal n = (if n < 10 then [''0123456789'' ! n] else decimal (n div 10) @ [''0123456789'' ! (n mod 10)])"

declare decimal.simps [simp del]

section \<open>The initial ramdisk\<close>

fun fetch_files :: "(config_file \<Rightarrow> ('s, 'e, u8 list) prog) \<Rightarrow> config_file list \<Rightarrow> u8 list list \<Rightarrow> ('s, 'e, u8 list list) prog" where
  "fetch_files fetch [] acc = pure (Ok acc)"
| "fetch_files fetch (f # fs) acc = pbind (fetch f) (\<lambda>content. fetch_files fetch fs (acc @ [content]))"

fun fetch_additional ::
  "(config_file \<Rightarrow> ('s, 'e, u8 list) prog) \<Rightarrow> additional_initrd_file list \<Rightarrow> (string \<times> u8 list) list \<Rightarrow>
   ('s, 'e, (string \<times> u8 list) list) prog" where
  "fetch_additional fetch [] acc = pure (Ok acc)"
| "fetch_additional fetch (a # as) acc =
     pbind (fetch (ai_source a)) (\<lambda>content. fetch_additional fetch as (acc @ [(ai_target_file a, content)]))"

definition initrd_files :: "initrd option \<Rightarrow> config_file list" where
  "initrd_files i = (case i of None \<Rightarrow> [] | Some i \<Rightarrow> initrd_iter i)"

definition additional_files :: "additional_initrd_file list option \<Rightarrow> additional_initrd_file list" where
  "additional_files a = (case a of None \<Rightarrow> [] | Some as \<Rightarrow> as)"

definition construct_initramfs ::
  "('w, 'x) loader \<Rightarrow> (config_file \<Rightarrow> (('w, 'k) greeter, 'x greeter_error, u8 list) prog) \<Rightarrow> initrd option \<Rightarrow>
   additional_initrd_file list option \<Rightarrow> (('w, 'k) greeter, 'x greeter_error, u64 \<times> nat) prog" where
  "construct_initramfs L fetch initrd additional =
     pbind (fetch_files fetch (initrd_files initrd) []) (\<lambda>raw.
     pbind (fetch_additional fetch (additional_files additional) []) (\<lambda>files.
     let serialized = ld_initramfs L raw files;
         num_pages = (length serialized + 4095) div 4096
     in pbind (on_world (uefi_context ''can't align memory for initramfs'' (ld_allocate_pages L num_pages))) (\<lambda>addr.
        pbind (pure (slice (replicate (num_pages * 4096) ()) 0 (length serialized))) (\<lambda>_.
        pbind (on_world (effect (ld_store L addr serialized))) (\<lambda>_.
        pure (Ok (addr, length serialized)))))))"

section \<open>A boot entry\<close>

text \<open>The result of the search on an extra partition is dropped.\<close>

fun touch_partitions ::
  "config \<Rightarrow> (partition list \<Rightarrow> ('s, 'e, u8 list) prog) \<Rightarrow> string list \<Rightarrow> ('s, 'e, unit) prog" where
  "touch_partitions cfg search [] = pure (Ok ())"
| "touch_partitions cfg search (n # ns) =
     pbind (pure (btree_index (partitions cfg) n)) (\<lambda>p.
     pbind (ignoring (search [p])) (\<lambda>_. touch_partitions cfg search ns))"

fun confirm_loop :: "'w console \<Rightarrow> nat \<Rightarrow> ('w, 'x greeter_error, unit) prog" where
  "confirm_loop C 0 = pure (Halt OutOfFuel)"
| "confirm_loop C (Suc fuel) =
     pbind (unwrapped (line C (Suc fuel) :: ('w, 'x greeter_error, u16 list) prog)) (\<lambda>l.
     if into_bytes l = map of_char ''uiae'' then pure (Ok ()) else confirm_loop C fuel)"

definition load_options :: "string option \<Rightarrow> (u64 \<times> nat) option \<Rightarrow> string" where
  "load_options options initramfs =
     (case options of Some o' \<Rightarrow> o' | None \<Rightarrow> '''') @
     (case initramfs of Some (addr, len) \<Rightarrow> '' initrdmem='' @ decimal (unat addr) @ '','' @ decimal len | None \<Rightarrow> '''')"

definition chain_load ::
  "'w platform \<Rightarrow> ('w, 'x) loader \<Rightarrow> config \<Rightarrow> nat \<Rightarrow> nat \<Rightarrow> u8 list \<Rightarrow> string option \<Rightarrow> (u64 \<times> nat) option \<Rightarrow>
   ('w, 'x greeter_error, unit) prog" where
  "chain_load F L cfg fuel image_handle efi_image options initramfs =
     pbind (find_random_esp_path F) (\<lambda>dev_path.
     pbind (uefi_context ''can't get handle to new LoadedImage-to-boot'' (ld_load_image L image_handle dev_path efi_image)) (\<lambda>h.
     pbind (uefi_context ''error creating a LoadedImage from a LoadedImage-Handle'' (ld_open_loaded_image L h)) (\<lambda>loaded.
     pbind (context_from CString16FromStrError ''efi image name is not valid UTF-16''
       (pure (ld_cstring16 L (load_options options initramfs)))) (\<lambda>opts.
     pbind (effect (ld_set_load_options L loaded opts)) (\<lambda>_.
     pbind (if DebugLevel \<le> log_level cfg
       then confirm_loop (pf_console F) fuel else pure (Ok ())) (\<lambda>_.
     uefi_context ''error booting loaded bootimage'' (ld_start_image L h)))))))"

definition handle_boot_entry ::
  "'w platform \<Rightarrow> ('r, 'k, 'x) formats \<Rightarrow> kdf \<Rightarrow> ('w, 'x) loader \<Rightarrow> config \<Rightarrow> nat \<Rightarrow> nat \<Rightarrow> boot_entry \<Rightarrow>
   (('w, 'k) greeter, 'x greeter_error, unit) prog" where
  "handle_boot_entry F G kdf L cfg fuel image_handle e =
     (let fetch = resolve_and_read_file F G kdf cfg fuel in
      pbind (touch_partitions cfg (\<lambda>ps. find_read_file F G kdf cfg fetch fuel ps (cf_file (be_file e)))
        (cf_extra_partitions (be_file e))) (\<lambda>_.
      pbind (fetch (be_file e)) (\<lambda>efi_image.
      if \<not> (2 \<le> length efi_image \<and> take 2 efi_image = [0x4d, 0x5a])
      then pure (Err (error_new_without_source ''image is not a valid PeCoff''))
      else
        pbind (if be_initrd e \<noteq> None \<or> be_additional_initrd_files e \<noteq> None
               then pbind (construct_initramfs L fetch (be_initrd e) (be_additional_initrd_files e)) (\<lambda>a. pure (Ok (Some a)))
               else pure (Ok None)) (\<lambda>initramfs.
        on_world (chain_load F L cfg fuel image_handle efi_image (be_options e) initramfs)))))"

section \<open>Unlocking all drives\<close>

definition unlock_by_serial ::
  "config \<Rightarrow> u8 list \<Rightarrow> (u8 list \<Rightarrow> 'x) \<Rightarrow> (keyslot \<Rightarrow> ('s, 'x greeter_error, unit) prog) \<Rightarrow> ('s, 'x greeter_error, unit) prog" where
  "unlock_by_serial cfg sn utf8_err unlocker =
     pbind (pure (case from_utf8 sn of Some _ \<Rightarrow> Ok (string_of_bytes (trim sn))
                  | None \<Rightarrow> Err (error_new (Utf8Source (utf8_err sn)) ''can't convert disk serial number to UTF8''))) (\<lambda>serial.
     case List.find (\<lambda>p. pt_uuid p = serial) (map snd (partitions cfg)) of
       None \<Rightarrow> pure (Ok ())
     | Some p \<Rightarrow>
         pbind (pure (unwrap (pt_keyslot p))) (\<lambda>name.
         pbind (pure (btree_index (keyslots cfg) name)) unlocker))"

fun unlock_drives_loop ::
  "'w platform \<Rightarrow> ('r, 'k, 'x) formats \<Rightarrow> kdf \<Rightarrow> config \<Rightarrow> (config_file \<Rightarrow> (('w, 'k) greeter, 'x greeter_error, u8 list) prog) \<Rightarrow> nat \<Rightarrow>
   nat list \<Rightarrow> (('w, 'k) greeter, 'x greeter_error, unit) prog" where
  "unlock_drives_loop F G kdf cfg fetch fuel [] = pure (Ok ())"
| "unlock_drives_loop F G kdf cfg fetch fuel (h # hs) =
     pbind (on_world (try_get_nvme_device F h)) (\<lambda>nvme.
     pbind (case nvme of
         Some (N, dv) \<Rightarrow>
           unlock_by_serial cfg (nvme_serial dv) (utf8_error G) (\<lambda>ks.
             let P = nvme_protocol N (pf_services F) in
             pbind (context_from OpalSource ''open opal'' (on_world (opal_on nvme_of nvme_world P (restartable_new dv h)))) (\<lambda>drive.
             unlock_opal F kdf nvme_of nvme_world P fuel fetch ks drive))
       | None \<Rightarrow>
           pbind (on_world (try_get_ata_device F h)) (\<lambda>ata.
           case ata of
             Some (A, drive) \<Rightarrow>
               (let P = ata_secure_protocol A (pf_services F) in
                unlock_by_serial cfg (serial P drive) (utf8_error G) (\<lambda>ks.
                unlock_opal F kdf ata_fw ata_world P fuel fetch ks drive))
           | None \<Rightarrow> pure (Ok ()))) (\<lambda>_.
     unlock_drives_loop F G kdf cfg fetch fuel hs))"

definition handle_unlock_configured_opal_drives ::
  "'w platform \<Rightarrow> ('r, 'k, 'x) formats \<Rightarrow> kdf \<Rightarrow> config \<Rightarrow> nat \<Rightarrow> (('w, 'k) greeter, 'x greeter_error, unit) prog" where
  "handle_unlock_configured_opal_drives F G kdf cfg fuel =
     pbind (on_world (block_devices F)) (\<lambda>ds.
     unlock_drives_loop F G kdf cfg (resolve_and_read_file F G kdf cfg fuel) fuel (map fst ds))"

section \<open>The main loop\<close>

definition menu_options :: "config \<Rightarrow> (bool \<times> string) list" where
  "menu_options cfg = map (\<lambda>e. (True, be_name e)) (boot_entries cfg) @ [(True, ''Unlock configured opal drives'')]"

definition run ::
  "'w platform \<Rightarrow> ('r, 'k, 'x) formats \<Rightarrow> kdf \<Rightarrow> ('w, 'x) loader \<Rightarrow> config \<Rightarrow> nat \<Rightarrow> nat \<Rightarrow>
   (('w, 'k) greeter, 'x greeter_error, unit) prog" where
  "run F G kdf L cfg fuel image_handle =
     pbind (on_world (uefi_context ''can't configure stdout'' (config_stdout F))) (\<lambda>_.
     pbind (on_world (uefi_context ''error disabling 5min reboot watchdog'' (pf_set_watchdog F 0 0x31337))) (\<lambda>_.
     pbind (on_world (ui_choose (pf_console F) fuel (menu_options cfg))) (\<lambda>selected.
     if selected < length (boot_entries cfg)
     then pbind (pure (index (boot_entries cfg) selected)) (handle_boot_entry F G kdf L cfg fuel image_handle)
     else if selected = length (boot_entries cfg) then handle_unlock_configured_opal_drives F G kdf cfg fuel
     else pure Panic)))"

definition load_config :: "'w platform \<Rightarrow> ('w, 'x) loader \<Rightarrow> nat \<Rightarrow> ('w, 'x greeter_error, config) prog" where
  "load_config F L image_handle =
     pbind (uefi_context ''cannot get LoadedImage'' (ld_open_loaded_image L image_handle)) (\<lambda>image w.
     pbind (uefi_context ''cannot get DevicePath of LoadedImage'' (pf_open_device_path F (ld_device L image w))) (\<lambda>path.
     pbind (uefi_context ''cannot get SimpleFileSystem from DevicePath from LoadedImage'' (ld_locate_file_system L path)) (\<lambda>dev.
     pbind (read_full_file (pf_files F) dev ''config.toml'') (\<lambda>buf.
     pbind (context_from TomlSource ''error decoding config file as toml'' (pure (ld_toml L buf))) (\<lambda>(kss, ps, es, lvl).
     pure (Ok \<lparr>keyslots = collect_keyslots kss, partitions = collect_partitions ps, boot_entries = es, log_level = lvl\<rparr>))))) w)"

text \<open>\<^verbatim>\<open>exit\<close> waits for a line, whatever becomes of it, and resets the machine.\<close>

definition exit_greeter :: "'w console \<Rightarrow> nat \<Rightarrow> ('w, unit, unit) prog" where
  "exit_greeter C fuel =
     pbind (ignoring (line C fuel :: ('w, unit greeter_error, u16 list) prog)) (\<lambda>_. pure (Halt (ResetTo COLD)))"

fun run_loop :: "nat \<Rightarrow> ('s, 'x greeter_error, unit) prog \<Rightarrow> ('s, unit, unit) prog" where
  "run_loop 0 body = pure (Halt OutOfFuel)"
| "run_loop (Suc fuel) body = (\<lambda>s.
     case body s of
       (Ok _, s) \<Rightarrow> run_loop fuel body s
     | (Err e, s) \<Rightarrow> (Ok (), s)
     | (Halt h, s) \<Rightarrow> (Halt h, s))"

definition main ::
  "'w platform \<Rightarrow> ('r, 'k, 'x) formats \<Rightarrow> kdf \<Rightarrow> ('w, 'x) loader \<Rightarrow> nat \<Rightarrow> nat \<Rightarrow> (('w, 'k) greeter, unit, unit) prog" where
  "main F G kdf L fuel image_handle s =
     (case on_world (load_config F L image_handle) s of
        (Ok cfg, s) \<Rightarrow>
          pbind (run_loop fuel (run F G kdf L cfg fuel image_handle)) (\<lambda>_. on_world (exit_greeter (pf_console F) fuel)) s
      | (Err e, s) \<Rightarrow> on_world (exit_greeter (pf_console F) fuel) s
      | (Halt h, s) \<Rightarrow> (Halt h, s))"

section \<open>Properties\<close>

text \<open>
  The initial ramdisk, when every file can be fetched: the contents in the order of the
  configuration, on pages that hold them.
\<close>

lemma fetch_files_map:
  assumes "\<And>f s. f \<in> set fs \<Longrightarrow> s \<in> I \<Longrightarrow> \<exists>s'\<in>I. fetch f s = (Ok (content f), s')" "s \<in> I"
  shows "\<exists>s'\<in>I. fetch_files fetch fs acc s = (Ok (acc @ map content fs), s')"
  using assms
proof (induction fs arbitrary: acc s)
  case (Cons f fs)
  obtain s1 where s1: "s1 \<in> I" "fetch f s = (Ok (content f), s1)" using Cons.prems by fastforce
  then obtain s2 where "s2 \<in> I" "fetch_files fetch fs (acc @ [content f]) s1 = (Ok ((acc @ [content f]) @ map content fs), s2)"
    using Cons.IH [of s1 "acc @ [content f]"] Cons.prems(1) by fastforce
  with s1 show ?case by (auto simp: pbind_def)
qed (simp add: pure_def)

lemma fetch_additional_map:
  assumes "\<And>a s. a \<in> set as \<Longrightarrow> s \<in> I \<Longrightarrow> \<exists>s'\<in>I. fetch (ai_source a) s = (Ok (content (ai_source a)), s')" "s \<in> I"
  shows "\<exists>s'\<in>I. fetch_additional fetch as acc s = (Ok (acc @ map (\<lambda>a. (ai_target_file a, content (ai_source a))) as), s')"
  using assms
proof (induction as arbitrary: acc s)
  case (Cons a as)
  obtain s1 where s1: "s1 \<in> I" "fetch (ai_source a) s = (Ok (content (ai_source a)), s1)" using Cons.prems by fastforce
  let ?acc = "acc @ [(ai_target_file a, content (ai_source a))]"
  obtain s2 where "s2 \<in> I" "fetch_additional fetch as ?acc s1 =
      (Ok (?acc @ map (\<lambda>a. (ai_target_file a, content (ai_source a))) as), s2)"
    using Cons.IH [of s1 ?acc] Cons.prems(1) s1(1) by fastforce
  with s1 show ?case by (auto simp: pbind_def)
qed (simp add: pure_def)

lemma pages_hold:
  "n \<le> (n + 4095) div 4096 * (4096 :: nat)" "(n + 4095) div 4096 * 4096 < n + (4096 :: nat)"
  using div_mult_mod_eq [of "n + 4095" 4096] mod_less_divisor [of 4096 "n + 4095"] by linarith+

text \<open>
  C23: the initial ramdisk that is handed to the kernel consists of the configured archives and
  of the additional files under their target names, in the order of the configuration; the pages
  allocated for it hold it, and it is stored at their start.
\<close>

theorem initramfs_contents:
  assumes "\<And>f s. f \<in> set (initrd_files initrd) \<union> ai_source ` set (additional_files additional) \<Longrightarrow> s \<in> I \<Longrightarrow>
      \<exists>s'\<in>I. fetch f s = (Ok (content f), s')"
    and "data = ld_initramfs L (map content (initrd_files initrd))
      (map (\<lambda>a. (ai_target_file a, content (ai_source a))) (additional_files additional))"
    and "\<And>n s. s \<in> I \<Longrightarrow> \<exists>addr w. ld_allocate_pages L n (world s) = (Ok addr, w)"
    and "s \<in> I"
  shows "\<exists>s'\<in>I. \<exists>n addr w. ld_allocate_pages L n (world s') = (Ok addr, w) \<and>
    length data \<le> n * 4096 \<and> n * 4096 < length data + 4096 \<and>
    construct_initramfs L fetch initrd additional s = (Ok (addr, length data), s'\<lparr>world := ld_store L addr data w\<rparr>)"
proof -
  let ?n = "(length data + 4095) div 4096"
  obtain s1 where s1: "s1 \<in> I" "fetch_files fetch (initrd_files initrd) [] s = (Ok (map content (initrd_files initrd)), s1)"
    using fetch_files_map [of "initrd_files initrd" I fetch content s "[]"] assms(1,4) by auto
  obtain s2 where s2: "s2 \<in> I" "fetch_additional fetch (additional_files additional) [] s1 =
      (Ok (map (\<lambda>a. (ai_target_file a, content (ai_source a))) (additional_files additional)), s2)"
    using fetch_additional_map [of "additional_files additional" I fetch content s1 "[]"] assms(1) s1(1) by auto
  obtain addr w where alloc: "ld_allocate_pages L ?n (world s2) = (Ok addr, w)" using assms(3) [OF s2(1)] by blast
  have "construct_initramfs L fetch initrd additional s = (Ok (addr, length data), s2\<lparr>world := ld_store L addr data w\<rparr>)"
    using s1(2) s2(2) alloc pages_hold(1) [of "length data"]
    by (simp add: construct_initramfs_def pbind_def Let_def zoom_def uefi_context_def pmap_err_def slice_def pure_def
        flip: assms(2))
  with alloc pages_hold [of "length data"] s2(1) show ?thesis by blast
qed

text \<open>
  An image that does not begin with the two bytes of a PE file is refused after it was
  fetched: no file of the initial ramdisk is read, nothing is loaded and nothing is started.
\<close>

theorem non_pe_image_refused:
  assumes "touch_partitions cfg (\<lambda>ps. find_read_file F G kdf cfg (resolve_and_read_file F G kdf cfg fuel) fuel ps (cf_file (be_file e)))
      (cf_extra_partitions (be_file e)) s = ((Ok () :: ('x greeter_error, _) outcome), s1)"
    and "resolve_and_read_file F G kdf cfg fuel (be_file e) s1 = ((Ok img :: ('x greeter_error, _) outcome), s2)"
    and "take 2 img \<noteq> [0x4d, 0x5a]"
  shows "handle_boot_entry F G kdf L cfg fuel h e s = (Err (error_new_without_source ''image is not a valid PeCoff''), s2)"
  using assms by (simp add: handle_boot_entry_def Let_def pbind_def pure_def)

text \<open>
  C32: the menu of the main loop never yields an entry that is not there: the branch of \<^verbatim>\<open>run\<close> that
  declares this unreachable can be left out.
\<close>

lemma menu_length: "length (menu_options cfg) = Suc (length (boot_entries cfg))"
  by (simp add: menu_options_def)

theorem run_selection_total:
  "run F G kdf L cfg fuel h s =
     pbind (on_world (uefi_context ''can't configure stdout'' (config_stdout F))) (\<lambda>_.
     pbind (on_world (uefi_context ''error disabling 5min reboot watchdog'' (pf_set_watchdog F 0 0x31337))) (\<lambda>_.
     pbind (on_world (ui_choose (pf_console F) fuel (menu_options cfg))) (\<lambda>i.
     if i < length (boot_entries cfg) then handle_boot_entry F G kdf L cfg fuel h (boot_entries cfg ! i)
     else handle_unlock_configured_opal_drives F G kdf cfg fuel))) s"
proof -
  have sel: "i \<le> length (boot_entries cfg)"
    if "on_world (ui_choose (pf_console F) fuel (menu_options cfg)) t = (Ok i, t')" for i t t'
    using that menu_length [of cfg] by (auto simp: ok_iff selectable_def dest!: choose_selectable)
  show ?thesis
    unfolding run_def by (intro pbind_cong_run) (use sel in \<open>force simp: index_def\<close>)
qed

section \<open>Witnesses\<close>

text \<open>
  A machine with one disk that is neither an NVMe nor a SATA drive, and formats in which an ext4 file
  system opens on it, with one file.
\<close>

definition disk_machine :: "'w console \<Rightarrow> 'w file_system \<Rightarrow> 'w platform" where
  "disk_machine C S = idle_platform
     \<lparr>pf_console := C, pf_files := S, pf_block_handles := (\<lambda>w. (Ok [7], w)),
      pf_open_block_io := (\<lambda>h w. (Ok (\<lparr>lowest_aligned_lba = 0, last_block = 9, is_logical_partition = False\<rparr>,
        \<lparr>media_id = 0, media_block_size = 512, io_read_blocks = (\<lambda>m l n. Ok (replicate n 0))\<rparr>), w))\<rparr>"

abbreviation disk_platform :: "'w platform" where
  "disk_platform \<equiv> disk_machine (pf_console idle_platform) (pf_files idle_platform)"

definition ext4_formats :: "u8 list \<Rightarrow> (unit, unit, unit) formats" where
  "ext4_formats content = closed_formats
     \<lparr>luks_header_uuid := (\<lambda>b. Err ()),
      ext4_open := (\<lambda>r. (Ok \<lparr>e4_uuid = ''1'', e4_resolve_path = (\<lambda>p r. (Some 2, r)), e4_load_inode = (\<lambda>i r. (Some 3, r)),
        e4_open = (\<lambda>i r. (True, r)), e4_read_to_end = (\<lambda>i r. (Some content, r))\<rparr>, r))\<rparr>"

definition plain_loader :: "(unit, unit) loader" where
  "plain_loader =
     \<lparr>ld_allocate_pages = (\<lambda>n w. (Ok 0x1000, w)), ld_store = (\<lambda>a d w. w), ld_load_image = (\<lambda>h p d w. (Ok 1, w)),
      ld_open_loaded_image = (\<lambda>h w. (Ok 2, w)), ld_device = (\<lambda>h w. 0), ld_locate_file_system = (\<lambda>p w. (Ok 3, w)),
      ld_set_load_options = (\<lambda>h o' w. w), ld_start_image = (\<lambda>h w. (Ok (), w)), ld_cstring16 = (\<lambda>s. Ok []),
      ld_initramfs = (\<lambda>raw files. concat raw @ concat (map snd files)), ld_toml = (\<lambda>b. Err ())\<rparr>"

abbreviation outer_file :: config_file where
  "outer_file \<equiv> \<lparr>cf_partition = ''outer'', cf_extra_partitions = [], cf_file = ''f''\<rparr>"

theorem initramfs_contents_witness:
  "\<exists>s'. construct_initramfs plain_loader (\<lambda>f s. (Ok [1, 2], s)) (Some (Multiple [outer_file, outer_file])) None
     \<lparr>world = (), keyslot_buffer = (\<lambda>_. None), masterkey_buffer = (\<lambda>_. None :: unit option)\<rparr> =
     ((Ok (0x1000, 4) :: (unit greeter_error, _) outcome), s')"
proof -
  let ?s = "\<lparr>world = (), keyslot_buffer = (\<lambda>_. None), masterkey_buffer = (\<lambda>_. None :: unit option)\<rparr>"
  have "\<exists>s'\<in>{?s}. \<exists>n addr w. ld_allocate_pages plain_loader n (world s') = (Ok addr, w) \<and>
    length [1, 2, 1, 2 :: u8] \<le> n * 4096 \<and> n * 4096 < length [1, 2, 1, 2 :: u8] + 4096 \<and>
    construct_initramfs plain_loader (\<lambda>f s. (Ok [1, 2], s)) (Some (Multiple [outer_file, outer_file])) None ?s =
      ((Ok (addr, length [1, 2, 1, 2 :: u8]) :: (unit greeter_error, _) outcome),
       s'\<lparr>world := ld_store plain_loader addr [1, 2, 1, 2] w\<rparr>)"
    by (rule initramfs_contents [where content = "\<lambda>_. [1, 2]"])
      (auto simp: plain_loader_def initrd_files_def additional_files_def)
  then show ?thesis by (auto simp: plain_loader_def)
qed

abbreviation outer_partition :: partition where
  "outer_partition \<equiv> \<lparr>pt_name = ''outer'', pt_parent = None, pt_uuid = ''1'', pt_keyslot = None\<rparr>"

lemma outer_path:
  "map_of (partitions cfg) ''outer'' = Some outer_partition \<Longrightarrow> parent_chain cfg (Suc fuel) ''outer'' [] = Ok [outer_partition]"
  by (simp add: btree_index_def)

lemma disk_devices: "block_devices (disk_machine C S) w = (Ok [(7, 0, 9)], w)"
  by (simp add: block_devices_def disk_machine_def pbind_def uefi_context_def pmap_err_def pure_def)

lemma disk_no_drives:
  "try_get_nvme_device (disk_machine C S) h w = (Ok None, w)" "try_get_ata_device (disk_machine C S) h w = (Ok None, w)"
  by (simp_all add: try_get_nvme_device_def try_get_ata_device_def path_text_def disk_machine_def idle_platform_def
      pbind_def uefi_context_def pmap_err_def pure_def)

lemma ext4_rewind: "rewind_dyn (ext4_formats c) m (s, ()) = (Ok (), (s, ()))"
  by (simp add: rewind_dyn_def ext4_formats_def closed_formats_def zoom_def context_from_def pmap_err_def rewind_def pbind_def pure_def)

lemma ext4_no_lvm: "probe_lvm (ext4_formats c) inner p rest file (s, ()) = (Ok None, (s, ()))"
  by (simp add: probe_lvm_def ext4_formats_def closed_formats_def zoom_def)

lemma ext4_header:
  "read_exact (dyn_ops (ext4_formats c)) e (Suc (Suc fuel)) 4096 [] () = (Ok (replicate 4096 0), ())"
proof -
  have "rd (dyn_ops (ext4_formats c)) n () = (Ok (replicate n 0), ())" for n
    by (simp add: ext4_formats_def closed_formats_def)
  then show ?thesis by (simp add: pbind_def pure_def)
qed

lemma ext4_no_luks:
  "probe_luks F (ext4_formats c) cfg (Suc (Suc fuel)) fetch inner p rest file (s, ()) = (Ok None, (s, ()))"
proof -
  have "luks_header_uuid (ext4_formats c) b = Err ()" for b by (simp add: ext4_formats_def)
  then show ?thesis
    by (simp add: probe_luks_def pbind_def zoom_def context_from_def pmap_err_def ext4_header ext4_rewind pure_def
        del: read_exact.simps)
qed

lemma ext4_file:
  "probe_ext4 (ext4_formats c) \<lparr>pt_name = n, pt_parent = q, pt_uuid = ''1'', pt_keyslot = k\<rparr> [] file (s, ()) = (Ok (Some c), (s, ()))"
  by (simp add: probe_ext4_def ext4_formats_def closed_formats_def zoom_def)

lemma disk_ext4:
  "find_read_file_internal F (ext4_formats c) cfg fetch (Suc (Suc (Suc fuel)))
     [\<lparr>pt_name = n, pt_parent = q, pt_uuid = ''1'', pt_keyslot = k\<rparr>] file (s, ()) = (Ok c, (s, ()))"
  by (simp add: orelse_def pbind_def ext4_no_lvm ext4_rewind ext4_no_luks ext4_file pure_def)

lemma disk_fetch:
  assumes "map_of (partitions cfg) ''outer'' = Some outer_partition"
  shows "resolve_and_read_file (disk_machine C S) (ext4_formats c) kdf cfg (Suc (Suc (Suc (Suc fuel)))) outer_file
     \<lparr>world = w, keyslot_buffer = b, masterkey_buffer = m\<rparr> = (Ok c, \<lparr>world = w, keyslot_buffer = b, masterkey_buffer = m\<rparr>)"
proof -
  have io: "pf_open_block_io (disk_machine C S) h w = (Ok (\<lparr>lowest_aligned_lba = 0, last_block = 9, is_logical_partition = False\<rparr>,
        \<lparr>media_id = 0, media_block_size = 512, io_read_blocks = (\<lambda>m l n. Ok (replicate n 0))\<rparr>), w)" for h
    by (simp add: disk_machine_def)
  have "search_device (disk_machine C S) (ext4_formats c) kdf cfg fetch (Suc (Suc (Suc fuel))) (7, 0, 9) [outer_partition] ''f''
     \<lparr>world = w, keyslot_buffer = b, masterkey_buffer = m\<rparr> =
     (Ok ([outer_partition], Some c), \<lparr>world = w, keyslot_buffer = b, masterkey_buffer = m\<rparr>)" for fetch
    unfolding search_device_def
    by (simp add: pbind_def zoom_def disk_no_drives pure_def uefi_context_def pmap_err_def io spurious_def disk_ext4
        del: find_read_file_internal.simps)
  then show ?thesis
    by (simp add: pbind_def outer_path assms find_read_file_def zoom_def disk_devices pure_def del: parent_chain.simps)
qed

theorem non_pe_image_refused_witness:
  "handle_boot_entry disk_platform (ext4_formats [1, 2, 3]) (\<lambda>p s n k. None) plain_loader nested_config (Suc (Suc (Suc (Suc 0)))) 0
     \<lparr>be_name = '''', be_file = outer_file, be_initrd = None, be_additional_initrd_files = None, be_options = None, be_default = True\<rparr>
     \<lparr>world = (), keyslot_buffer = (\<lambda>_. None), masterkey_buffer = (\<lambda>_. None)\<rparr> =
   (Err (error_new_without_source ''image is not a valid PeCoff''),
    \<lparr>world = (), keyslot_buffer = (\<lambda>_. None), masterkey_buffer = (\<lambda>_. None)\<rparr>)"
proof -
  let ?e = "\<lparr>be_name = '''', be_file = outer_file, be_initrd = None, be_additional_initrd_files = None, be_options = None, be_default = True\<rparr>"
  let ?s = "\<lparr>world = (), keyslot_buffer = (\<lambda>_. None), masterkey_buffer = (\<lambda>_. None :: unit option)\<rparr>"
  have t: "touch_partitions nested_config f (cf_extra_partitions (be_file ?e)) ?s = (Ok (), ?s)" for f
    by (simp add: pure_def)
  have r: "resolve_and_read_file disk_platform (ext4_formats [1, 2, 3]) (\<lambda>p s n k. None) nested_config (Suc (Suc (Suc (Suc 0)))) (be_file ?e) ?s =
      (Ok [1, 2, 3], ?s)"
    unfolding boot_entry.simps by (rule disk_fetch) (rule nested_lookup)
  show ?thesis by (rule non_pe_image_refused [OF t r]) simp
qed

end
