(* ===== verification/Fuel.thy ===== *)
theory Fuel imports Boot begin

text \<open>
  Fuel bounds, in the model, the loops that the program does not bound: polls of a drive, keys at
  a prompt, attempts at a password, reads to the end of a file, nesting of storage, parents of a
  partition, rounds of the main loop. This theory shows that it bounds nothing else. \<open>extends m m'\<close>
  says that \<open>m'\<close> does what \<open>m\<close> does wherever \<open>m\<close> does not run out of fuel; every way in which
  the model composes computations keeps the relation (the collection \<open>fuel_intros\<close>), so every
  function of the program extends itself with more fuel.
\<close>

section \<open>The relation\<close>

named_theorems fuel_intros \<open>computations that more fuel does not change\<close>

definition extends :: "('s \<Rightarrow> ('e, 'a) outcome \<times> 't) \<Rightarrow> ('s \<Rightarrow> ('e, 'a) outcome \<times> 't) \<Rightarrow> bool" where
  "extends m m' \<longleftrightarrow> (\<forall>s. fst (m s) \<noteq> Halt OutOfFuel \<longrightarrow> m' s = m s)"

lemma extendsD: "extends m m' \<Longrightarrow> m s = (r, t) \<Longrightarrow> r \<noteq> Halt OutOfFuel \<Longrightarrow> m' s = (r, t)"
  by (simp add: extends_def)

lemma extends_disj: "extends m m' \<longleftrightarrow> (\<forall>s. m' s = m s \<or> (\<exists>t. m s = (Halt OutOfFuel, t)))"
  unfolding extends_def by (metis fst_conv surj_pair)

lemma extends_refl [fuel_intros]: "extends m m"
  by (simp add: extends_def)

lemma extends_trans: "extends m m' \<Longrightarrow> extends m' m'' \<Longrightarrow> extends m m''"
  by (simp add: extends_def)

lemma extends_out [fuel_intros]: "extends (pure (Halt OutOfFuel)) m"
  by (simp add: extends_def pure_def)

lemma extends_pure [fuel_intros]: "(r \<noteq> Halt OutOfFuel \<Longrightarrow> r' = r) \<Longrightarrow> extends (pure r) (pure r')"
  by (auto simp: extends_def pure_def)

lemma extends_pbind [fuel_intros]:
  assumes "extends m m'" "\<And>a. extends (f a) (f' a)"
  shows "extends (pbind m f) (pbind m' f')"
  unfolding extends_def
proof (intro allI impI)
  fix s
  assume run: "fst (pbind m f s) \<noteq> Halt OutOfFuel"
  obtain r t where rt: "m s = (r, t)" by fastforce
  with run have "r \<noteq> Halt OutOfFuel" by (auto simp: pbind_def)
  with rt assms(1) have "m' s = (r, t)" by (auto dest: extendsD)
  then show "pbind m' f' s = pbind m f s"
    using rt run assms(2) by (cases r) (auto simp: pbind_def extends_def)
qed

text \<open>Inspecting the outcome of a computation, a halt being handed on.\<close>

lemma extends_case:
  assumes "extends m m'" "\<And>a. extends (f a) (f' a)" "\<And>e. extends (g e) (g' e)"
    and "\<And>h s. h \<noteq> OutOfFuel \<Longrightarrow> k' h s = k h s" "\<And>s. fst (k OutOfFuel s) = Halt OutOfFuel"
  shows "extends (\<lambda>s. case m s of (r, t) \<Rightarrow> (case r of Ok a \<Rightarrow> f a t | Err e \<Rightarrow> g e t | Halt h \<Rightarrow> k h t))
     (\<lambda>s. case m' s of (r, t) \<Rightarrow> (case r of Ok a \<Rightarrow> f' a t | Err e \<Rightarrow> g' e t | Halt h \<Rightarrow> k' h t))"
  unfolding extends_def
proof (intro allI impI)
  fix s
  let ?F = "\<lambda>r t. case r of Ok a \<Rightarrow> f a t | Err e \<Rightarrow> g e t | Halt h \<Rightarrow> k h t"
  assume run: "fst (case m s of (r, t) \<Rightarrow> ?F r t) \<noteq> Halt OutOfFuel"
  obtain r t where rt: "m s = (r, t)" by fastforce
  with run assms(5) have "r \<noteq> Halt OutOfFuel" by auto
  with rt assms(1) have "m' s = (r, t)" by (auto dest: extendsD)
  then show "(case m' s of (r, t) \<Rightarrow> (case r of Ok a \<Rightarrow> f' a t | Err e \<Rightarrow> g' e t | Halt h \<Rightarrow> k' h t)) =
      (case m s of (r, t) \<Rightarrow> ?F r t)"
    using rt run assms(2,3) assms(4) [of _ t] \<open>r \<noteq> Halt OutOfFuel\<close> by (cases r) (auto simp: extends_def)
qed

text \<open>The state may select the computation.\<close>

lemma extends_state: "(\<And>s. extends (f s) (f' s)) \<Longrightarrow> extends (\<lambda>s. f s s) (\<lambda>s. f' s s)"
  by (simp add: extends_def)

lemma extends_at: "extends m m' \<Longrightarrow> extends (\<lambda>s. m (f s)) (\<lambda>s. m' (f s))"
  by (simp add: extends_def)

lemma extends_if [fuel_intros]: "(b \<Longrightarrow> extends m m') \<Longrightarrow> (\<not> b \<Longrightarrow> extends n n') \<Longrightarrow> extends (if b then m else n) (if b then m' else n')"
  by simp

lemma extends_if_fun [fuel_intros]:
  "extends m m' \<Longrightarrow> extends n n' \<Longrightarrow> extends (\<lambda>t. if b then m t else n t) (\<lambda>t. if b then m' t else n' t)"
  by (cases b) simp_all

lemma extends_option [fuel_intros]:
  "extends n n' \<Longrightarrow> (\<And>a. extends (f a) (f' a)) \<Longrightarrow> extends (case o' of None \<Rightarrow> n | Some a \<Rightarrow> f a) (case o' of None \<Rightarrow> n' | Some a \<Rightarrow> f' a)"
  by (cases o') auto

lemma extends_prod [fuel_intros]:
  "(\<And>a b. extends (f a b) (f' a b)) \<Longrightarrow> extends (case p of (a, b) \<Rightarrow> f a b) (case p of (a, b) \<Rightarrow> f' a b)"
  by (cases p) auto

lemma extends_list [fuel_intros]:
  "extends n n' \<Longrightarrow> (\<And>x xs. extends (f x xs) (f' x xs)) \<Longrightarrow>
     extends (case l of [] \<Rightarrow> n | x # xs \<Rightarrow> f x xs) (case l of [] \<Rightarrow> n' | x # xs \<Rightarrow> f' x xs)"
  by (cases l) auto

lemma extends_map_err [fuel_intros]: "extends m m' \<Longrightarrow> extends (pmap_err g m) (pmap_err g m')"
  by (simp add: extends_def pmap_err_def case_prod_unfold)

lemma extends_zoom [fuel_intros]: "extends m m' \<Longrightarrow> extends (zoom get' put m) (zoom get' put m')"
  by (simp add: extends_def zoom_def case_prod_unfold)

lemma extends_context_from [fuel_intros]: "extends m m' \<Longrightarrow> extends (context_from into ctx m) (context_from into ctx m')"
  by (simp add: context_from_def extends_map_err)

lemma extends_uefi_context [fuel_intros]: "extends m m' \<Longrightarrow> extends (uefi_context ctx m) (uefi_context ctx m')"
  by (simp add: uefi_context_def extends_map_err)

lemma extends_apply:
  assumes "extends m m'" "\<And>t. fst (F (Halt OutOfFuel, t)) = Halt OutOfFuel"
  shows "extends (\<lambda>s. F (m s)) (\<lambda>s. F (m' s))"
  using assms unfolding extends_disj by (metis prod.collapse)

lemma extends_unwrapped [fuel_intros]: "extends m m' \<Longrightarrow> extends (unwrapped m) (unwrapped m')"
  unfolding unwrapped_def by (rule extends_apply) simp_all

lemma extends_ignoring [fuel_intros]: "extends m m' \<Longrightarrow> extends (ignoring m) (ignoring m')"
  unfolding ignoring_def by (rule extends_apply) simp_all

section \<open>Sessions and drives\<close>

text \<open>A loop with fuel: the step of the induction has one more on both sides.\<close>

lemma fuel_step: "Suc fuel \<le> fuel' \<Longrightarrow> (\<And>k. fuel' = Suc k \<Longrightarrow> fuel \<le> k \<Longrightarrow> P) \<Longrightarrow> P"
  by (cases fuel') auto

lemma extends_poll [fuel_intros]: "fuel \<le> fuel' \<Longrightarrow> extends (poll P fuel pr cid buf) (poll P fuel' pr cid buf)"
proof (induction fuel arbitrary: fuel' buf)
  case (Suc fuel)
  from Suc.prems show ?case
    by (elim fuel_step) (auto intro!: fuel_intros Suc.IH simp: Let_def)
qed (simp add: extends_out)

lemma extends_receive [fuel_intros]: "fuel \<le> fuel' \<Longrightarrow> extends (receive P fuel pr cid e) (receive P fuel' pr cid e)"
  unfolding receive_def Let_def by (intro fuel_intros)

lemma extends_send_packet [fuel_intros]:
  "fuel \<le> fuel' \<Longrightarrow> extends (send_packet P fuel pr cid h p e) (send_packet P fuel' pr cid h p e)"
  unfolding send_packet_def Let_def by (intro fuel_intros)

lemma extends_send_raw_command [fuel_intros]:
  "fuel \<le> fuel' \<Longrightarrow> extends (send_raw_command P fuel c) (send_raw_command P fuel' c)"
  using extends_send_packet unfolding extends_def send_raw_command_def Let_def by blast

lemma extends_drop_session [fuel_intros]: "fuel \<le> fuel' \<Longrightarrow> extends (drop_session P fuel) (drop_session P fuel')"
  unfolding drop_session_def [abs_def] by (rule extends_apply) (auto intro!: fuel_intros)

lemma extends_start_body [fuel_intros]:
  "fuel \<le> fuel' \<Longrightarrow> extends (start_body P fuel sp au ch) (start_body P fuel' sp au ch)"
  unfolding start_body_def [abs_def] start_exchange_def by (rule extends_state, intro fuel_intros)

lemma extends_session_start [fuel_intros]:
  assumes "fuel \<le> fuel'"
  shows "extends (session_start P fuel sp au ch) (session_start P fuel' sp au ch)"
proof -
  have drop: "extends (\<lambda>s. case drop_session P fuel s of (Halt h, s') \<Rightarrow> (Halt h, session_device s') | (_, s') \<Rightarrow> (Err e, session_device s'))
     (\<lambda>s. case drop_session P fuel' s of (Halt h, s') \<Rightarrow> (Halt h, session_device s') | (_, s') \<Rightarrow> (Err e, session_device s'))" for e
    by (rule extends_apply) (auto intro!: fuel_intros assms)
  let ?s = "\<lambda>dev. \<lparr>session_device = dev, tsn = 0, hsn = 0, protocol = 0x01\<rparr>"
  show ?thesis unfolding session_start_def [abs_def]
    by (rule extends_case [where m = "\<lambda>dev. start_body P fuel sp au ch (?s dev)" and m' = "\<lambda>dev. start_body P fuel' sp au ch (?s dev)"])
      (auto intro!: extends_at fuel_intros assms drop)
qed

lemma extends_unlock_body [fuel_intros]: "fuel \<le> fuel' \<Longrightarrow> extends (unlock_body P fuel) (unlock_body P fuel')"
  unfolding unlock_body_def set_locking_range_def set_mbr_done_def set_locking_sp_value_def
  by (intro fuel_intros)

lemma extends_scoped [fuel_intros]:
  fixes s :: "'d opal_session"
  assumes "fuel \<le> fuel'" "extends body body'"
  shows "extends (scoped P fuel body s) (scoped P fuel' body' s)"
proof -
  have drop: "extends (\<lambda>s'. case drop_session P fuel s' of (Halt h, s'') \<Rightarrow> (Halt h, session_device s'') | (_, s'') \<Rightarrow> (r, session_device s''))
     (\<lambda>s'. case drop_session P fuel' s' of (Halt h, s'') \<Rightarrow> (Halt h, session_device s'') | (_, s'') \<Rightarrow> (r, session_device s''))" for r
    by (rule extends_apply) (auto intro!: fuel_intros assms)
  show ?thesis unfolding scoped_def [abs_def]
    by (rule extends_at [where f = "\<lambda>_. s"], rule extends_case) (auto intro: assms(2) drop)
qed

lemma extends_unlock_device [fuel_intros]:
  "fuel \<le> fuel' \<Longrightarrow> extends (unlock_device P fuel kdf pwd) (unlock_device P fuel' kdf pwd)"
  unfolding unlock_device_def [abs_def]
  by (rule extends_state, intro fuel_intros) (auto intro: fuel_intros)

lemma extends_unlock [fuel_intros]: "fuel \<le> fuel' \<Longrightarrow> extends (unlock P fuel kdf pwd) (unlock P fuel' kdf pwd)"
  unfolding unlock_def by (intro fuel_intros)

section \<open>The text interface\<close>

lemma extends_uefi_key [fuel_intros]:
  "(\<And>c. extends (f c) (f' c)) \<Longrightarrow> (\<And>c. extends (g c) (g' c)) \<Longrightarrow>
     extends (case k of Printable c \<Rightarrow> f c | Special c \<Rightarrow> g c) (case k of Printable c \<Rightarrow> f' c | Special c \<Rightarrow> g' c)"
  by (cases k) auto

lemma extends_key [fuel_intros]: "fuel \<le> fuel' \<Longrightarrow> extends (key C fuel) (key C fuel')"
proof (induction fuel arbitrary: fuel')
  case (Suc fuel)
  from Suc.prems show ?case by (elim fuel_step) (auto intro!: fuel_intros Suc.IH)
qed (simp add: extends_out)

lemma extends_drain_keys [fuel_intros]: "fuel \<le> fuel' \<Longrightarrow> extends (drain_keys C fuel) (drain_keys C fuel')"
proof (induction fuel arbitrary: fuel')
  case (Suc fuel)
  from Suc.prems show ?case by (elim fuel_step) (auto intro!: fuel_intros Suc.IH)
qed (simp add: extends_out)

lemma extends_consume [fuel_intros]:
  "fuel \<le> fuel' \<Longrightarrow> extends (consume_old_keypresses C fuel) (consume_old_keypresses C fuel')"
  unfolding consume_old_keypresses_def by (intro fuel_intros)

lemma extends_read_loop [fuel_intros]:
  "fuel \<le> fuel' \<Longrightarrow> extends (read_loop C fuel rep data) (read_loop C fuel' rep data)"
proof (induction fuel arbitrary: fuel' data)
  case (Suc fuel)
  from Suc.prems show ?case
    by (elim fuel_step) (auto intro!: fuel_intros Suc.IH simp del: key.simps)
qed (simp add: extends_out)

lemma extends_password [fuel_intros]: "fuel \<le> fuel' \<Longrightarrow> extends (password C fuel) (password C fuel')"
  unfolding password_def by (intro fuel_intros)

lemma extends_line [fuel_intros]: "fuel \<le> fuel' \<Longrightarrow> extends (line C fuel) (line C fuel')"
  unfolding line_def by (intro fuel_intros)

lemma extends_choose_loop [fuel_intros]:
  "fuel \<le> fuel' \<Longrightarrow> extends (choose_loop C fuel row opts c d) (choose_loop C fuel' row opts c d)"
proof (induction fuel arbitrary: fuel' c d)
  case (Suc fuel)
  from Suc.prems show ?case
    by (elim fuel_step) (auto intro!: fuel_intros Suc.IH simp del: key.simps)
qed (simp add: extends_out)

lemma extends_choose [fuel_intros]: "fuel \<le> fuel' \<Longrightarrow> extends (ui_choose C fuel opts) (ui_choose C fuel' opts)"
proof -
  assume le: "fuel \<le> fuel'"
  have "extends (\<lambda>w. choose_loop C fuel (con_cursor_row C w) opts c True w)
     (\<lambda>w. choose_loop C fuel' (con_cursor_row C w) opts c True w)" for c
    unfolding extends_def by (intro allI impI) (rule extends_choose_loop [OF le, unfolded extends_def, THEN spec, THEN mp])
  then show ?thesis unfolding ui_choose_def by (intro fuel_intros le)
qed

section \<open>Passwords and keys\<close>

lemma extends_get_password [fuel_intros]:
  assumes "fuel \<le> fuel'" "\<And>f. extends (fetch f) (fetch' f)"
  shows "extends (get_password_of_keyslot F fuel fetch ks c) (get_password_of_keyslot F fuel' fetch' ks c)"
proof -
  let ?read = "\<lambda>fuel fetch. (case ks_source ks of
      Stdin \<Rightarrow>
        pbind (on_world (write_str (pf_console F) (''Password for keyslot '' @ ks_name ks @ '': ''))) (\<lambda>_.
        pbind (on_world (password (pf_console F) fuel)) (\<lambda>p. pure (Ok (into_bytes p))))
    | KeyFile file \<Rightarrow> fetch file)"
  have "extends (?read fuel fetch) (?read fuel' fetch')"
    by (cases "ks_source ks") (auto intro!: fuel_intros assms)
  then have "extends (pbind (?read fuel fetch) f) (pbind (?read fuel' fetch') f)" for f
    by (intro fuel_intros)
  then show ?thesis
    unfolding get_password_of_keyslot_def [abs_def] extends_def by (auto split: option.splits)
qed

lemma extends_on_drive [fuel_intros]: "extends m m' \<Longrightarrow> extends (on_drive gw pw m) (on_drive gw pw m')"
  by (simp add: extends_def on_drive_def case_prod_unfold)

lemma extends_unlock_loop [fuel_intros]:
  assumes "fuel \<le> fuel'" "\<And>f. extends (fetch f) (fetch' f)"
  shows "extends (unlock_loop F kdf gw pw P fuel fetch ks c) (unlock_loop F kdf gw pw P fuel' fetch' ks c)"
  using assms(1)
proof (induction fuel arbitrary: fuel' c)
  case (Suc fuel)
  from Suc.prems show ?case
    by (elim fuel_step) (auto intro!: fuel_intros extends_case Suc.IH assms(2))
qed (simp add: extends_out)

lemma extends_unlock_opal [fuel_intros]:
  assumes "fuel \<le> fuel'" "\<And>f. extends (fetch f) (fetch' f)"
  shows "extends (unlock_opal F kdf gw pw P fuel fetch ks d) (unlock_opal F kdf gw pw P fuel' fetch' ks d)"
proof -
  have "extends (\<lambda>s. unlock_loop F kdf gw pw P fuel fetch ks Cached (s, d)) (\<lambda>s. unlock_loop F kdf gw pw P fuel' fetch' ks Cached (s, d))"
    by (rule extends_at) (intro fuel_intros assms)
  from extends_apply [OF this, of "\<lambda>x. case x of (r, (s', _)) \<Rightarrow> (r, s')"]
  show ?thesis unfolding unlock_opal_def [abs_def] by (intro fuel_intros) (simp add: case_prod_unfold)
qed

section \<open>Reading\<close>

lemma extends_read_exact [fuel_intros]:
  "fuel \<le> fuel' \<Longrightarrow> extends (read_exact R e fuel n acc) (read_exact R e fuel' n acc)"
proof (induction fuel arbitrary: fuel' n acc)
  case (Suc fuel)
  from Suc.prems show ?case by (elim fuel_step) (auto intro!: fuel_intros Suc.IH)
qed (simp add: extends_out)

lemma extends_read_to_end [fuel_intros]:
  "fuel \<le> fuel' \<Longrightarrow> extends (read_to_end_loop R fuel n acc) (read_to_end_loop R fuel' n acc)"
proof (induction fuel arbitrary: fuel' acc)
  case (Suc fuel)
  from Suc.prems show ?case by (elim fuel_step) (auto intro!: fuel_intros Suc.IH)
qed (simp add: extends_out)

section \<open>The probes\<close>

lemma extends_luks_error:
  "(\<And>t. extends i i') \<Longrightarrow> (\<And>x. extends (g x) (g' x)) \<Longrightarrow>
     extends (\<lambda>t. case e of InvalidPassword \<Rightarrow> i t | LuksOther x \<Rightarrow> g x t) (\<lambda>t. case e of InvalidPassword \<Rightarrow> i' t | LuksOther x \<Rightarrow> g' x t)"
  by (cases e) auto

lemma extends_luks_loop [fuel_intros]:
  assumes "fuel \<le> fuel'" "\<And>f. extends (fetch f) (fetch' f)"
  shows "extends (luks_loop F G fuel fetch ks c) (luks_loop F G fuel' fetch' ks c)"
  using assms(1)
proof (induction fuel arbitrary: fuel' c)
  case (Suc fuel)
  from Suc.prems show ?case
    by (elim fuel_step) (auto intro!: fuel_intros extends_case extends_luks_error Suc.IH assms(2))
qed (simp add: extends_out)

lemma extends_luks_unlock [fuel_intros]:
  assumes "fuel \<le> fuel'" "\<And>f. extends (fetch f) (fetch' f)"
  shows "extends (luks_unlock F G fuel fetch ks uuid) (luks_unlock F G fuel' fetch' ks uuid)"
proof -
  have "extends (pbind (luks_loop F G fuel fetch ks Cached) f) (pbind (luks_loop F G fuel' fetch' ks Cached) f)" for f
    by (intro fuel_intros assms)
  then show ?thesis unfolding luks_unlock_def [abs_def] extends_def by (auto split: option.splits)
qed

lemma extends_first_ok [fuel_intros]:
  "(\<And>x. extends (f x) (f' x)) \<Longrightarrow> extends (first_ok f xs) (first_ok f' xs)"
  by (induction xs) (auto intro!: fuel_intros extends_case)

lemma extends_through [fuel_intros]: "extends m m' \<Longrightarrow> extends (through up down m) (through up down m')"
  by (simp add: extends_def through_def case_prod_unfold)

lemma extends_orelse [fuel_intros]: "extends m m' \<Longrightarrow> extends k k' \<Longrightarrow> extends (orelse m k) (orelse m' k')"
  unfolding orelse_def by (intro fuel_intros)

lemma extends_decided [fuel_intros]: "extends m m' \<Longrightarrow> extends (decided m msg) (decided m' msg)"
  unfolding decided_def by (intro fuel_intros)


lemma extends_probe_lvm [fuel_intros]:
  "(\<And>ps f. extends (inner ps f) (inner' ps f)) \<Longrightarrow> extends (probe_lvm G inner p rest file) (probe_lvm G inner' p rest file)"
  unfolding probe_lvm_def [abs_def] by (rule extends_case) (auto intro!: fuel_intros)

lemma extends_probe_gpt [fuel_intros]:
  "(\<And>ps f. extends (inner ps f) (inner' ps f)) \<Longrightarrow> extends (probe_gpt G inner ps file) (probe_gpt G inner' ps file)"
  unfolding probe_gpt_def [abs_def] by (rule extends_case) (auto intro!: fuel_intros)

lemma extends_probe_fat [fuel_intros]:
  assumes "fuel \<le> fuel'"
  shows "extends (probe_fat G fuel p rest file) (probe_fat G fuel' p rest file)"
  unfolding probe_fat_def [abs_def] by (rule extends_case) (auto intro!: fuel_intros assms)

lemma extends_outcome [fuel_intros]:
  "(\<And>a. r = Ok a \<Longrightarrow> extends (f a) (f' a)) \<Longrightarrow> (\<And>e. extends (g e) (g' e)) \<Longrightarrow> (\<And>h. extends (k h) (k' h)) \<Longrightarrow>
     extends (case r of Ok a \<Rightarrow> f a | Err e \<Rightarrow> g e | Halt h \<Rightarrow> k h) (case r of Ok a \<Rightarrow> f' a | Err e \<Rightarrow> g' e | Halt h \<Rightarrow> k' h)"
  by (cases r) auto

lemma extends_probe_luks [fuel_intros]:
  assumes "fuel \<le> fuel'" "\<And>f. extends (fetch f) (fetch' f)" "\<And>ps f. extends (inner ps f) (inner' ps f)"
  shows "extends (probe_luks F G cfg fuel fetch inner p rest file) (probe_luks F G cfg fuel' fetch' inner' p rest file)"
  unfolding probe_luks_def by (intro fuel_intros assms) auto

section \<open>The search\<close>

lemma extends_find_internal [fuel_intros]:
  assumes "fuel \<le> fuel'" "\<And>f. extends (fetch f) (fetch' f)"
  shows "extends (find_read_file_internal F G cfg fetch fuel ps path) (find_read_file_internal F G cfg fetch' fuel' ps path)"
  using assms(1)
proof (induction fuel arbitrary: fuel' ps path)
  case (Suc fuel)
  from Suc.prems obtain k where k: "fuel' = Suc k" "fuel \<le> k" by (elim fuel_step) auto
  have "extends (find_read_file_internal F G cfg fetch fuel ps f) (find_read_file_internal F G cfg fetch' k ps f)" for ps f
    by (rule Suc.IH [OF k(2)])
  then show ?case unfolding k(1) find_read_file_internal.simps by (intro fuel_intros k(2) assms(2))
qed (simp add: extends_out)

lemma extends_pass_drive [fuel_intros]:
  "(\<And>ks. extends (u ks) (u' ks)) \<Longrightarrow> extends (pass_drive cfg sn ue ctx u ps) (pass_drive cfg sn ue ctx u' ps)"
  unfolding pass_drive_def by (intro fuel_intros) auto

lemma extends_unlock_nvme [fuel_intros]:
  assumes "fuel \<le> fuel'" "\<And>f. extends (fetch f) (fetch' f)"
  shows "extends (unlock_nvme F kdf fuel fetch N dv h ks) (unlock_nvme F kdf fuel' fetch' N dv h ks)"
  unfolding unlock_nvme_def Let_def by (intro fuel_intros assms)

lemma extends_search_device [fuel_intros]:
  assumes "fuel \<le> fuel'" "\<And>f. extends (fetch f) (fetch' f)"
  shows "extends (search_device F G kdf cfg fetch fuel d ps path) (search_device F G kdf cfg fetch' fuel' d ps path)"
proof -
  have "extends (\<lambda>s. find_read_file_internal F G cfg fetch fuel ps path (s, r)) (\<lambda>s. find_read_file_internal F G cfg fetch' fuel' ps path (s, r))"
    for ps r by (rule extends_at) (intro fuel_intros assms)
  note found = extends_apply [OF this]
  obtain h b e where d: "d = (h, b, e)" by (cases d)
  show ?thesis unfolding search_device_def d prod.case by (intro fuel_intros assms found) (simp add: case_prod_unfold)
qed

lemma extends_find_loop [fuel_intros]:
  assumes "\<And>d ps path. extends (search d ps path) (search' d ps path)"
  shows "extends (find_read_file_loop search ds ps path) (find_read_file_loop search' ds ps path)"
  by (induction ds arbitrary: ps) (auto intro!: fuel_intros assms)

lemma extends_find_read_file [fuel_intros]:
  assumes "fuel \<le> fuel'" "\<And>f. extends (fetch f) (fetch' f)"
  shows "extends (find_read_file F G kdf cfg fetch fuel ps path) (find_read_file F G kdf cfg fetch' fuel' ps path)"
  unfolding find_read_file_def by (intro fuel_intros assms)

lemma parent_chain_more:
  "fuel \<le> fuel' \<Longrightarrow> parent_chain cfg fuel n acc \<noteq> Halt OutOfFuel \<Longrightarrow> parent_chain cfg fuel' n acc = parent_chain cfg fuel n acc"
proof (induction fuel arbitrary: fuel' n acc)
  case (Suc fuel)
  from Suc.prems(1) obtain k where "fuel' = Suc k" "fuel \<le> k" by (elim fuel_step) auto
  with Suc.IH [of k] Suc.prems(2) show ?case
    by (auto simp: btree_index_def split: option.splits)
qed simp

lemma extends_resolve [fuel_intros]:
  "fuel \<le> fuel' \<Longrightarrow> extends (resolve_and_read_file F G kdf cfg fuel path) (resolve_and_read_file F G kdf cfg fuel' path)"
proof (induction fuel arbitrary: fuel' path)
  case (Suc fuel)
  from Suc.prems obtain k where k: "fuel' = Suc k" "fuel \<le> k" by (elim fuel_step) auto
  have chain: "parent_chain cfg (Suc fuel) n [] \<noteq> Halt OutOfFuel \<Longrightarrow> parent_chain cfg (Suc k) n [] = parent_chain cfg (Suc fuel) n []" for n
    by (rule parent_chain_more) (use k(2) in simp_all)
  have "extends (resolve_and_read_file F G kdf cfg fuel f) (resolve_and_read_file F G kdf cfg k f)" for f
    by (rule Suc.IH [OF k(2)])
  then show ?case unfolding k(1) resolve_and_read_file.simps by (intro fuel_intros k(2) chain)
qed (simp add: extends_out)


section \<open>Booting\<close>

lemma extends_fetch_files [fuel_intros]:
  "(\<And>f. extends (fetch f) (fetch' f)) \<Longrightarrow> extends (fetch_files fetch fs acc) (fetch_files fetch' fs acc)"
  by (induction fs arbitrary: acc) (auto intro!: fuel_intros)

lemma extends_fetch_additional [fuel_intros]:
  "(\<And>f. extends (fetch f) (fetch' f)) \<Longrightarrow> extends (fetch_additional fetch as acc) (fetch_additional fetch' as acc)"
  by (induction as arbitrary: acc) (auto intro!: fuel_intros)

lemma extends_construct_initramfs [fuel_intros]:
  "(\<And>f. extends (fetch f) (fetch' f)) \<Longrightarrow> extends (construct_initramfs L fetch i a) (construct_initramfs L fetch' i a)"
  unfolding construct_initramfs_def by (intro fuel_intros)

lemma extends_touch_partitions [fuel_intros]:
  "(\<And>ps. extends (search ps) (search' ps)) \<Longrightarrow> extends (touch_partitions cfg search ns) (touch_partitions cfg search' ns)"
  by (induction ns) (auto intro!: fuel_intros)

lemma extends_confirm_loop [fuel_intros]: "fuel \<le> fuel' \<Longrightarrow> extends (confirm_loop C fuel) (confirm_loop C fuel')"
proof (induction fuel arbitrary: fuel')
  case (Suc fuel)
  from Suc.prems obtain k where k: "fuel' = Suc k" "fuel \<le> k" by (elim fuel_step) auto
  show ?case unfolding k(1) confirm_loop.simps by (intro fuel_intros Suc.IH [OF k(2)]) (simp add: k(2))
qed (simp add: extends_out)

lemma extends_chain_load [fuel_intros]:
  "fuel \<le> fuel' \<Longrightarrow> extends (chain_load F L cfg fuel h img o' i) (chain_load F L cfg fuel' h img o' i)"
  unfolding chain_load_def by (intro fuel_intros)

lemma extends_handle_boot_entry [fuel_intros]:
  assumes "fuel \<le> fuel'"
  shows "extends (handle_boot_entry F G kdf L cfg fuel h e) (handle_boot_entry F G kdf L cfg fuel' h e)"
  unfolding handle_boot_entry_def Let_def by (intro fuel_intros assms)

lemma extends_unlock_by_serial [fuel_intros]:
  "(\<And>ks. extends (u ks) (u' ks)) \<Longrightarrow> extends (unlock_by_serial cfg sn ue u) (unlock_by_serial cfg sn ue u')"
  unfolding unlock_by_serial_def by (intro fuel_intros) auto

lemma extends_unlock_drives_loop [fuel_intros]:
  assumes "fuel \<le> fuel'" "\<And>f. extends (fetch f) (fetch' f)"
  shows "extends (unlock_drives_loop F G kdf cfg fetch fuel hs) (unlock_drives_loop F G kdf cfg fetch' fuel' hs)"
proof (induction hs)
  case (Cons h hs)
  show ?case unfolding unlock_drives_loop.simps Let_def by (intro fuel_intros Cons assms)
qed (simp add: extends_refl)

lemma extends_handle_unlock [fuel_intros]:
  "fuel \<le> fuel' \<Longrightarrow> extends (handle_unlock_configured_opal_drives F G kdf cfg fuel) (handle_unlock_configured_opal_drives F G kdf cfg fuel')"
  unfolding handle_unlock_configured_opal_drives_def by (intro fuel_intros)

lemma extends_run [fuel_intros]:
  "fuel \<le> fuel' \<Longrightarrow> extends (run F G kdf L cfg fuel h) (run F G kdf L cfg fuel' h)"
  unfolding run_def by (intro fuel_intros)

lemma extends_run_loop [fuel_intros]:
  assumes "extends body body'"
  shows "fuel \<le> fuel' \<Longrightarrow> extends (run_loop fuel body) (run_loop fuel' body')"
proof (induction fuel arbitrary: fuel')
  case (Suc fuel)
  from Suc.prems obtain k where k: "fuel' = Suc k" "fuel \<le> k" by (elim fuel_step) auto
  show ?case unfolding k(1) run_loop.simps
    by (rule extends_case) (auto intro: assms Suc.IH [OF k(2)] extends_refl)
qed (simp add: extends_out)

lemma extends_exit [fuel_intros]: "fuel \<le> fuel' \<Longrightarrow> extends (exit_greeter C fuel) (exit_greeter C fuel')"
  unfolding exit_greeter_def by (intro fuel_intros)

lemma extends_main: "fuel \<le> fuel' \<Longrightarrow> extends (main F G kdf L fuel h) (main F G kdf L fuel' h)"
  unfolding main_def [abs_def] by (rule extends_case) (auto intro!: fuel_intros)

section \<open>More fuel\<close>

text \<open>
  What holds of a run that has ended with some fuel is so with any more; how much is enough is a
  matter of the theories of the loops.
\<close>

lemma main_more_fuel:
  "main F G kdf L fuel h s = (r, t) \<Longrightarrow> r \<noteq> Halt OutOfFuel \<Longrightarrow> fuel \<le> fuel' \<Longrightarrow> main F G kdf L fuel' h s = (r, t)"
  using extendsD [OF extends_main] by blast

lemma resolve_more_fuel:
  "resolve_and_read_file F G kdf cfg fuel f s = (r, t) \<Longrightarrow> r \<noteq> Halt OutOfFuel \<Longrightarrow> fuel \<le> fuel' \<Longrightarrow>
     resolve_and_read_file F G kdf cfg fuel' f s = (r, t)"
  using extendsD [OF extends_resolve] by blast

end
