(* ===== verification/Wire.thy ===== *)
theory Wire imports Laws begin

text \<open>
  Packets at the other end of the wire. A decoder that reads a packet as the specification lays it
  out, big endian and atom by atom, and what it reads from the packets of \<^verbatim>\<open>OpalSession\<close>: their
  lengths fit, their session numbers and communication id are the session's, and their payload is the
  one that was built. Every packet that an unlock sends is well formed in this sense: that a log
  of packets grows by well-formed packets only is an invariant of commands.
\<close>

section \<open>Reading packets\<close>

text \<open>The first atom of a byte string is its shortest prefix that is an atom; no other prefix is one.\<close>

definition first_atom :: "u8 list \<Rightarrow> nat option" where
  "first_atom bs = List.find (\<lambda>n. decode_atom (take n bs) \<noteq> None) [1..<Suc (length bs)]"

lemma first_atom_Some: "first_atom bs = Some n \<Longrightarrow> 0 < n \<and> n \<le> length bs"
  by (auto simp: first_atom_def find_Some_iff simp del: upt_Suc)

function spelled :: "u8 list \<Rightarrow> atom list option" where
  "spelled bs =
     (if bs = [] then Some []
      else case first_atom bs of
        None \<Rightarrow> None
      | Some n \<Rightarrow>
          (case decode_atom (take n bs) of
             None \<Rightarrow> None
           | Some a \<Rightarrow> (case spelled (drop n bs) of None \<Rightarrow> None | Some as \<Rightarrow> Some (a # as))))"
  by pat_completeness auto
termination
  by (relation "measure length") (auto dest!: first_atom_Some)

declare spelled.simps [simp del]

lemma decode_atom_prefix: "decode_atom c = Some a \<Longrightarrow> decode_atom (c @ d) = Some b \<Longrightarrow> d = []"
proof -
  assume c: "decode_atom c = Some a" "decode_atom (c @ d) = Some b"
  have "(token_len_at (c @ d) 0 :: (unit, nat) outcome) = Ok (length c)" by (rule token_len_atom [OF c(1)])
  moreover have "(token_len_at ((c @ d) @ []) 0 :: (unit, nat) outcome) = Ok (length (c @ d))" by (rule token_len_atom [OF c(2)])
  ultimately show ?thesis by simp
qed

lemma first_atom_append:
  assumes "decode_atom c = Some a"
  shows "first_atom (c @ rest) = Some (length c)"
proof -
  have c: "c \<noteq> []" using assms by auto
  have no: "decode_atom (take m (c @ rest)) = None" if "m < length c" for m
  proof (rule ccontr)
    assume "decode_atom (take m (c @ rest)) \<noteq> None"
    moreover have "take m (c @ rest) = take m c" using that by simp
    ultimately obtain b where "decode_atom (take m c) = Some b" by auto
    then have "drop m c = []" using decode_atom_prefix [of "take m c" b "drop m c" a] assms by simp
    with that show False by simp
  qed
  let ?k = "length c - 1"
  have "[1..<Suc (length (c @ rest))] ! ?k = length c" "?k < length [1..<Suc (length (c @ rest))]"
    using c by (cases c; simp del: upt_Suc)+
  then show ?thesis unfolding first_atom_def find_Some_iff
    using assms c no by (intro exI [of _ ?k]) (auto simp del: upt_Suc)
qed

lemma spelled_carries: "carries bs as \<Longrightarrow> spelled bs = Some as"
proof (induction as arbitrary: bs)
  case (Cons a as)
  then obtain c rest where c: "bs = c @ rest" "decode_atom c = Some a" "carries rest as" by (elim carries_ConsE)
  moreover from c(2) have "c \<noteq> []" by auto
  ultimately show ?case using Cons.IH [OF c(3)] first_atom_append [OF c(2), of rest]
    by (subst spelled.simps) simp
qed (simp add: spelled.simps)

text \<open>The fields of a packet, at their places in the specification, and its payload.\<close>

definition packet_field :: "nat \<Rightarrow> nat \<Rightarrow> u8 list \<Rightarrow> nat" where
  "packet_field i n buf = be_nat (take n (drop i buf))"

definition packet_payload :: "u8 list \<Rightarrow> u8 list" where
  "packet_payload buf = take (packet_field 52 4 buf) (drop 56 buf)"

lemma be_field: "length (pre :: u8 list) = i \<Longrightarrow> packet_field i n (pre @ be_bytes n v @ post) = v mod 256 ^ n"
  by (simp add: packet_field_def be_nat_be_bytes)

lemma wire_packet_bytes:
  "wire_packet s (packet_of p e) =
     replicate 4 0 @ [ucast (drop_bit 8 (com_id (session_device s) AND 0xff00)), ucast (com_id (session_device s) AND 0x00ff), 0, 0] @
     replicate 4 0 @ replicate 4 0 @ be_bytes 4 (unat (word_of_nat (length (pad4 p) + 36) :: u32)) @
     be_bytes 4 (unat (tsn s)) @ be_bytes 4 (unat (hsn s)) @ replicate 4 0 @ replicate 2 0 @ replicate 2 0 @ replicate 4 0 @
     be_bytes 4 (unat (word_of_nat (length (pad4 p) + 12) :: u32)) @ [0, 0, 0, 0, 0, 0] @ replicate 2 0 @
     be_bytes 4 (unat (word_of_nat (length p) :: u32)) @ pad4 p"
proof -
  have zero: "le_bytes n 0 = replicate n 0" for n by (induction n) simp_all
  show ?thesis
    unfolding wire_packet_def header_bytes_def cp_bytes_def pkt_bytes_def sub_bytes_def
    by (simp add: lengths_swapped_def set_session_def packet_of_def com_packet_header_default_def packet_header_default_def
        subpacket_header_default_def le_bytes_swap32 zero del: le_bytes_numeral of_nat_add)
qed

lemma be_bytes_at: "be_nat (take n (be_bytes n v @ post)) = v mod 256 ^ n"
  by (simp add: be_nat_be_bytes)

lemma wire_fields:
  "packet_field 20 4 (wire_packet s (packet_of p e)) = unat (tsn s)"
  "packet_field 24 4 (wire_packet s (packet_of p e)) = unat (hsn s)"
  "length p < 2 ^ 31 \<Longrightarrow> packet_field 52 4 (wire_packet s (packet_of p e)) = length p"
  using unat32_bound
  by (simp_all add: packet_field_def wire_packet_bytes be_nat_be_bytes unat_u32_of_nat del: of_nat_add)

lemma wire_com_id:
  "take 2 (drop 4 (wire_packet s (packet_of p e))) =
     [ucast (drop_bit 8 (com_id (session_device s) AND 0xff00)), ucast (com_id (session_device s) AND 0x00ff)]"
  by (simp add: wire_packet_bytes del: of_nat_add)

lemma wire_payload: "length p < 2 ^ 31 \<Longrightarrow> packet_payload (wire_packet s (packet_of p e)) = p"
  unfolding packet_payload_def wire_fields
  by (simp add: wire_packet_bytes pad4_eq del: of_nat_add)

section \<open>Well-formed packets\<close>

text \<open>
  The type of what goes over the wire: whole words, the three lengths of the headers agree with the
  length of the packet, the communication id is in its place, and the payload spells atoms.
\<close>

definition packet_wf :: "u16 \<Rightarrow> u8 list \<Rightarrow> bool" where
  "packet_wf cid buf \<longleftrightarrow>
     56 \<le> length buf \<and> length buf mod 4 = 0 \<and> be_nat (take 2 (drop 4 buf)) = unat cid \<and>
     packet_field 16 4 buf + 20 = length buf \<and> packet_field 40 4 buf + 44 = length buf \<and>
     packet_field 52 4 buf + 56 \<le> length buf \<and> length buf < packet_field 52 4 buf + 60 \<and>
     spelled (packet_payload buf) \<noteq> None"

fun event_wf :: "u16 \<Rightarrow> event \<Rightarrow> bool" where
  "event_wf cid Reconnected = True"
| "event_wf cid (Sent pr c buf) = (pr = 1 \<and> c = cid \<and> packet_wf cid buf)"

lemma wire_com_id_value: "be_nat (take 2 (drop 4 (wire_packet s (packet_of p e)))) = unat (com_id (session_device s))"
proof -
  let ?c = "com_id (session_device s)"
  have m: "0xff00 = (push_bit 8 (mask 8) :: u16)" "0x00ff = (mask 8 :: u16)"
    by (simp_all add: mask_eq_exp_minus_1 push_bit_eq_mult)
  have "(ucast (drop_bit 8 (?c AND 0xff00)) :: u8) = ucast (drop_bit 8 ?c)" "(ucast (?c AND 0x00ff) :: u8) = ucast ?c"
    unfolding m by (intro bit_word_eqI; auto simp: bit_simps)+
  then show ?thesis unfolding wire_com_id using com_id_bytes [of ?c] by (simp add: be_nat_Cons be_nat_def)
qed

lemma wire_lengths:
  assumes "length p < 2 ^ 31"
  shows "length (wire_packet s (packet_of p e)) = length (pad4 p) + 56"
    "packet_field 16 4 (wire_packet s (packet_of p e)) = length (pad4 p) + 36"
    "packet_field 40 4 (wire_packet s (packet_of p e)) = length (pad4 p) + 12"
  using assms length_pad4_le [of p]
  by (simp_all add: packet_field_def wire_packet_bytes be_nat_be_bytes unat_u32_of_nat del: of_nat_add)

lemma packet_wf_wire:
  assumes "carries p as" "length p < 2 ^ 31"
  shows "packet_wf (com_id (session_device s)) (wire_packet s (packet_of p e))"
proof -
  have "length (pad4 p) mod 4 = 0" "length p \<le> length (pad4 p)" "length (pad4 p) < length p + 4"
    by (simp_all only: length_pad4 mod_mult_self2_is_0)
  moreover have "(length (pad4 p) + 56) mod 4 = length (pad4 p) mod 4" by presburger
  ultimately show ?thesis
    by (simp add: packet_wf_def wire_lengths [OF assms(2)] wire_fields(3) [OF assms(2)] wire_com_id_value
        wire_payload [OF assms(2)] spelled_carries [OF assms(1)])
qed

section \<open>Logs of well-formed packets\<close>

definition sends_wf :: "u16 \<Rightarrow> 'd \<times> event list \<Rightarrow> 'd \<times> event list \<Rightarrow> bool" where
  "sends_wf cid d d' \<longleftrightarrow> (\<exists>evs. snd d' = snd d @ evs \<and> list_all (event_wf cid) evs)"

lemma sends_wf_refl: "sends_wf cid d d"
  by (simp add: sends_wf_def)

lemma sends_wf_trans: "sends_wf cid d e \<Longrightarrow> sends_wf cid e f \<Longrightarrow> sends_wf cid d f"
  unfolding sends_wf_def by (elim exE conjE) (auto intro!: exI)

lemma sends_wf_reconnect: "keeps (sends_wf cid) (reconnect_controller (traced P))"
  by (auto simp: keeps_def traced_def sends_wf_def split: prod.splits)

text \<open>
  A command adds its packet, or nothing when the buffer for it cannot be allocated; whatever
  comes of the answer, a panic or a polling loop without end included, adds nothing.
\<close>

lemma sends_wf_command:
  assumes "carries p as" "length p \<le> 4096"
  shows "keeps (on_session cid (sends_wf cid)) (send_raw_command (traced P) fuel (packet_of p e))"
  unfolding keeps_def
proof
  fix s
  obtain r t where run: "send_raw_command (traced P) fuel (packet_of p e) s = (r, t)" by fastforce
  have "packet_wf (com_id (session_device s)) (wire_packet s (packet_of p e))"
    using assms(2) by (intro packet_wf_wire [OF assms(1)]) simp
  then show "on_session cid (sends_wf cid) s (snd (send_raw_command (traced P) fuel (packet_of p e) s))"
    using send_logs [OF run] run sends_wf_refl
    by (auto simp: on_session_def on_dev_def same_session_simps sends_wf_def session_log_def device_log_def)
qed

interpretation wire: command_invariant "traced P" cid "sends_wf cid" for P cid
  by unfold_locales
    (auto intro: reflpI transpI sends_wf_refl sends_wf_trans sends_wf_reconnect sends_wf_command)

section \<open>Properties\<close>

text \<open>
  C9: every packet that an unlock sends, to whatever drive and however the run ends (with success,
  with an error, in a panic or in a polling loop without end), is a well-formed packet for the
  communication id of the drive, under security protocol 1.
\<close>

theorem unlock_sends_packets:
  assumes "unlock (traced P) fuel kdf pwd d = (r, d')"
  shows "\<exists>evs. device_log (drive_dev d') = device_log (drive_dev d) @ evs \<and> list_all (event_wf (com_id (drive_dev d))) evs"
  using wire.unlock_keeps [OF assms refl] by (simp add: sends_wf_def device_log_def)

theorem unlock_sends_packets_witness:
  "\<exists>d' evs. unlock (traced sync_drive) 1 (\<lambda>p s n k. None) (Raw (replicate 32 7)) \<lparr>drive_dev = sync_device\<rparr> = (Ok (), d') \<and>
    device_log (drive_dev d') = evs \<and> list_all (event_wf 0x1000) evs"
proof -
  obtain d' where d': "unlock (traced sync_drive) 1 (\<lambda>p s n k. None) (Raw (replicate 32 7)) \<lparr>drive_dev = sync_device\<rparr> = (Ok (), d')"
    using sync_unlock by blast
  from unlock_sends_packets [OF d'] d' show ?thesis by (auto simp: sync_device_def device_log_def)
qed

end
