(* ===== verification/Tper.thy ===== *)
theory Tper imports Wire Transparent begin

text \<open>
  A specification of the drive: a trusted peripheral as the TCG Storage specifications describe
  it, as far as an unlock uses it. It reads the packets it is sent with the decoder of \<open>Wire\<close>, keeps one
  session, checks the credential of Admin1 and counts wrong ones, sets the lock columns of the global
  range and MBRDone, and answers level 0 discovery. The drive of the program is a parameter; the
  theorems are about any drive that conforms to this one, and say that an unlock is \<open>present\<close>.
\<close>

section \<open>The drive\<close>

record tper =
  tp_serial :: "u8 list"
  tp_pin :: "u8 list"
  tp_limit :: nat
  tp_wide :: bool
  tp_tries :: nat
  tp_read_locked :: bool
  tp_write_locked :: bool
  tp_mbr_done :: bool
  tp_next :: u32
  tp_session :: "(u32 \<times> u32) option"
  tp_reply :: "u8 list list"

text \<open>
  A method call: object, method and arguments between the call token and an end-of-data list of
  zeroes. The arguments of \<open>StartSession\<close> and of \<open>Set\<close>.
\<close>

fun invocation :: "atom list \<Rightarrow> (u8 list \<times> u8 list \<times> atom list) option" where
  "invocation (Ctl c # Bstr obj # Bstr meth # Ctl l # rest) =
     (let n = length rest - 7 in
      if c = 0xF8 \<and> l = 0xF0 \<and> 7 \<le> length rest \<and>
         drop n rest = [Ctl 0xF1, Ctl 0xF9, Ctl 0xF0, Uint 0, Uint 0, Uint 0, Ctl 0xF1]
      then Some (obj, meth, take n rest) else None)"
| "invocation _ = None"

fun named :: "nat \<Rightarrow> atom list \<Rightarrow> (atom \<times> atom list) option" where
  "named n (Ctl a # Uint m # v # Ctl b # rest) = (if a = 0xF2 \<and> m = n \<and> b = 0xF3 then Some (v, rest) else None)"
| "named n _ = None"

fun start_arguments :: "atom list \<Rightarrow> (nat \<times> u8 list \<times> u8 list \<times> u8 list) option" where
  "start_arguments (Uint h # Bstr sp # Uint w # rest) =
     (if w = 1 then
        (case named 0 rest of
           Some (Bstr challenge, rest) \<Rightarrow>
             (case named 3 rest of Some (Bstr authority, []) \<Rightarrow> Some (h, sp, challenge, authority) | _ \<Rightarrow> None)
         | _ \<Rightarrow> None)
      else None)"
| "start_arguments _ = None"

fun columns_of :: "atom list \<Rightarrow> (nat \<times> nat) list option" where
  "columns_of (Ctl a # Uint c # Uint v # Ctl b # rest) =
     (if a = 0xF2 \<and> b = 0xF3 then map_option ((#) (c, v)) (columns_of rest) else None)"
| "columns_of as = (if as = [Ctl 0xF1, Ctl 0xF3] then Some [] else None)"

fun set_arguments :: "atom list \<Rightarrow> (nat \<times> nat) list option" where
  "set_arguments (Ctl a # Uint n # Ctl b # rest) = (if a = 0xF2 \<and> n = 1 \<and> b = 0xF0 then columns_of rest else None)"
| "set_arguments _ = None"

text \<open>The columns that can be set, on the global range and on the table that controls the shadow MBR.\<close>

definition set_column :: "u8 list \<Rightarrow> nat \<times> nat \<Rightarrow> 'w tper_scheme \<Rightarrow> 'w tper_scheme option" where
  "set_column obj cv t =
     (let (c, v) = cv in
      if obj = bytes uid_OPAL_LOCKINGRANGE_GLOBAL \<and> c = 7 then Some (t\<lparr>tp_read_locked := v \<noteq> 0\<rparr>)
      else if obj = bytes uid_OPAL_LOCKINGRANGE_GLOBAL \<and> c = 8 then Some (t\<lparr>tp_write_locked := v \<noteq> 0\<rparr>)
      else if obj = bytes uid_OPAL_MBRCONTROL \<and> c = 2 then Some (t\<lparr>tp_mbr_done := v \<noteq> 0\<rparr>)
      else None)"

fun set_columns :: "u8 list \<Rightarrow> (nat \<times> nat) list \<Rightarrow> 'w tper_scheme \<Rightarrow> 'w tper_scheme option" where
  "set_columns obj [] t = Some t"
| "set_columns obj (cv # cvs) t = (case set_column obj cv t of None \<Rightarrow> None | Some t \<Rightarrow> set_columns obj cvs t)"

section \<open>Replies\<close>

text \<open>Session numbers are sent in atoms of four bytes, or, as other drives do, in the shortest atoms.\<close>

definition number_token :: "bool \<Rightarrow> u32 \<Rightarrow> u8 list" where
  "number_token wide w =
     (if wide \<or> 256 ^ 3 \<le> unat w then 0x84 # be_bytes 4 (unat w)
      else if 256 ^ 2 \<le> unat w then 0x83 # be_bytes 3 (unat w)
      else if 256 \<le> unat w then 0x82 # be_bytes 2 (unat w)
      else if 64 \<le> unat w then 0x81 # be_bytes 1 (unat w)
      else [ucast w])"

definition result_reply :: "u8 \<Rightarrow> u8 list list" where
  "result_reply code = answer [[0xF0], [0xF1]] code"

definition sync_session :: "u8 list list \<Rightarrow> u8 \<Rightarrow> u8 list list" where
  "sync_session args code =
     answer ([[0xF8], 0xA8 # bytes uid_OPAL_SMUID, [0xA8, 0, 0, 0, 0, 0, 0, 0xFF, 0x03], [0xF0]] @ args @ [[0xF1]]) code"

text \<open>\<open>StartSession\<close>: the credential is compared as long as there are tries left.\<close>

definition tper_start :: "nat \<Rightarrow> u8 list \<Rightarrow> u8 list \<Rightarrow> u8 list \<Rightarrow> 'w tper_scheme \<Rightarrow> 'w tper_scheme" where
  "tper_start h sp challenge authority t =
     (if tp_session t \<noteq> None then t\<lparr>tp_reply := sync_session [] 0x03\<rparr>
      else if sp \<noteq> bytes uid_OPAL_LOCKINGSP \<or> authority \<noteq> bytes uid_OPAL_ADMIN1
      then t\<lparr>tp_reply := sync_session [] 0x0C\<rparr>
      else if tp_tries t = 0 then t\<lparr>tp_reply := sync_session [] 0x12\<rparr>
      else if challenge = tp_pin t
      then t\<lparr>tp_tries := tp_limit t, tp_session := Some (tp_next t, word_of_nat h), tp_next := tp_next t + 1,
             tp_reply := sync_session [number_token (tp_wide t) (word_of_nat h), number_token (tp_wide t) (tp_next t)] 0\<rparr>
      else t\<lparr>tp_tries := tp_tries t - 1, tp_reply := sync_session [] 0x01\<rparr>)"

definition tper_set :: "u8 list \<Rightarrow> atom list \<Rightarrow> 'w tper_scheme \<Rightarrow> 'w tper_scheme" where
  "tper_set obj args t =
     (case set_arguments args of
        None \<Rightarrow> t\<lparr>tp_reply := result_reply 0x0C\<rparr>
      | Some cvs \<Rightarrow>
          (case set_columns obj cvs t of
             None \<Rightarrow> t\<lparr>tp_reply := result_reply 0x0C\<rparr>
           | Some t \<Rightarrow> t\<lparr>tp_reply := result_reply 0\<rparr>))"

text \<open>
  A message with the session numbers it names. Without a session only \<open>StartSession\<close> is heard; a
  message for a session that is not open is dropped, and the reply to it is empty.
\<close>

definition tper_message :: "u32 \<times> u32 \<Rightarrow> atom list \<Rightarrow> 'w tper_scheme \<Rightarrow> 'w tper_scheme" where
  "tper_message num as t =
     (if num \<noteq> (0, 0) \<and> tp_session t \<noteq> Some num then t\<lparr>tp_reply := []\<rparr>
      else if as = [Ctl 0xFA] then
        (if num = (0, 0) then t\<lparr>tp_reply := []\<rparr> else t\<lparr>tp_session := None, tp_reply := [[0xFA]]\<rparr>)
      else case invocation as of
        None \<Rightarrow> t\<lparr>tp_reply := []\<rparr>
      | Some (obj, meth, args) \<Rightarrow>
          (if num = (0, 0) then
             (if obj = bytes uid_OPAL_SMUID \<and> meth = bytes method_STARTSESSION then
                (case start_arguments args of
                   None \<Rightarrow> t\<lparr>tp_reply := sync_session [] 0x0C\<rparr>
                 | Some (h, sp, challenge, authority) \<Rightarrow> tper_start h sp challenge authority t)
              else t\<lparr>tp_reply := []\<rparr>)
           else if meth = bytes method_SET then tper_set obj args t
           else t\<lparr>tp_reply := result_reply 0x0C\<rparr>))"

text \<open>Level 0 discovery: locking and Opal 2 features.\<close>

definition tper_flags :: "'w tper_scheme \<Rightarrow> u8" where
  "tper_flags t = 0x1B OR (if tp_read_locked t \<or> tp_write_locked t then 0x04 else 0) OR (if tp_mbr_done t then 0x20 else 0)"

definition tper_features :: "'w tper_scheme \<Rightarrow> feature list" where
  "tper_features t =
     [Feature 0x0002 0x10 (tper_flags t # replicate 11 0),
      Feature 0x0203 0x10 ([0x10, 0x04, 0x00, 0x01] @ replicate 12 0)]"

definition tper_discovery :: "'w tper_scheme \<Rightarrow> u8 list" where
  "tper_discovery t = [0, 0, 0, 80, 0, 0, 0, 1] @ replicate 40 0 @ concat (map feature_bytes (tper_features t))"

definition tper_answer :: "u8 list list \<Rightarrow> u8 list" where
  "tper_answer cs = reply_buffer (header (packet_of (concat cs) True)) (concat cs) []"

definition fill :: "u8 list \<Rightarrow> u8 list \<Rightarrow> u8 list" where
  "fill buf content = take (length buf) content @ replicate (length buf - length content) 0"

text \<open>The drive behind the trait. A reply is handed out once.\<close>

definition tper_com_id :: u16 where "tper_com_id = 0x1004"

definition tper_send :: "u8 \<Rightarrow> u16 \<Rightarrow> u8 list \<Rightarrow> 'w tper_scheme \<Rightarrow> 'w tper_scheme" where
  "tper_send pr cid buf t =
     (if pr = 1 \<and> cid = tper_com_id \<and> take 2 (drop 4 buf) = [0x10, 0x04] then
        (case spelled (packet_payload buf) of
           None \<Rightarrow> t\<lparr>tp_reply := []\<rparr>
         | Some as \<Rightarrow> tper_message (word_of_nat (packet_field 20 4 buf), word_of_nat (packet_field 24 4 buf)) as t)
      else t)"

definition tper_drive :: "('w tper_scheme, 'err) secure_protocol" where
  "tper_drive =
     \<lparr>secure_send = (\<lambda>pr cid buf t. (Ok (), tper_send pr cid buf t)),
      secure_recv = (\<lambda>pr cid buf t.
        if pr = 1 \<and> cid = 1 then (Ok (fill buf (tper_discovery t)), t)
        else if pr = 1 \<and> cid = tper_com_id then (Ok (fill buf (tper_answer (tp_reply t))), t\<lparr>tp_reply := []\<rparr>)
        else (Ok (replicate (length buf) 0), t)),
      reconnect_controller = (\<lambda>t. (Ok (), t)), align = (\<lambda>t. 4), serial_num = tp_serial\<rparr>"

section \<open>One exchange\<close>

text \<open>The bytes between a reply and the end of the buffer.\<close>

lemma fill_answer:
  assumes "length (concat cs) \<le> 1900"
  shows "fill (replicate 2048 0) (tper_answer cs) =
    reply_buffer (header (packet_of (concat cs) True)) (concat cs) (replicate (1992 - length (concat cs)) 0)"
proof -
  have "header_wf (header (packet_of (concat cs) True))"
    by (simp add: header_wf_def packet_of_def com_packet_header_default_def subpacket_header_default_def)
  from length_reply [OF this, of "concat cs" "[]"] have "length (tper_answer cs) = 56 + length (concat cs)"
    by (simp add: tper_answer_def)
  then show ?thesis using assms
    by (simp add: fill_def reply_buffer_def tper_answer_def diff_diff_left [symmetric])
qed

lemma announces_answer:
  assumes "length (concat cs) \<le> 1900"
  shows "announces (header (packet_of (concat cs) True)) (concat cs) (replicate (1992 - length (concat cs)) 0)"
proof -
  have "length (pad4 (concat cs)) \<le> length (concat cs) + 3" by (rule length_pad4_le)
  with assms show ?thesis
    by (simp add: announces_def complete_def header_wf_def packet_of_def com_packet_header_default_def
        subpacket_header_default_def unat_u32_of_nat del: of_nat_add)
qed

definition after :: "u32 \<times> u32 \<Rightarrow> atom list \<Rightarrow> 'w tper_scheme \<Rightarrow> 'w tper_scheme" where
  "after num as t = (tper_message num as t)\<lparr>tp_reply := []\<rparr>"

definition with_device :: "'d \<Rightarrow> 'd opal_session \<Rightarrow> 'd opal_session" where
  "with_device d s = s\<lparr>session_device := (session_device s)\<lparr>device := d\<rparr>\<rparr>"

lemma tper_command:
  fixes s :: "'w tper_scheme opal_session"
  assumes s: "protocol s = 1" "com_id (session_device s) = tper_com_id"
    and p: "carries p as" "length p \<le> 4096"
    and r: "tp_reply (tper_message (tsn s, hsn s) as (device (session_device s))) = cs"
      "map decode_atom cs = map Some bs" "length (concat cs) \<le> 1900"
  shows "send_raw_command tper_drive (Suc fuel) (packet_of p e) s =
    ((check_status e \<lparr>response_header = header (packet_of (concat cs) True), response_tokens = filter nonempty cs\<rparr>
       :: ('err error, _) outcome), with_device (after (tsn s, hsn s) as (device (session_device s))) s)"
proof -
  let ?t = "tper_message (tsn s, hsn s) as (device (session_device s))"
  have sent: "tper_send (protocol s) (com_id (session_device s)) (wire_packet s (packet_of p e)) (device (session_device s)) = ?t"
    using s p wire_payload [of p s e] spelled_carries [OF p(1)]
    by (simp add: tper_send_def wire_fields(1,2) wire_com_id tper_com_id_def)
  show ?thesis
  proof (rule send_answered [OF _ _ _ _ announces_answer [OF r(3)] r(2)])
    show "session_proto (secure_send tper_drive (protocol s) (com_id (session_device s)) (wire_packet s (packet_of p e))) s =
        (Ok (), with_device ?t s)"
      using sent by (simp add: session_proto_run tper_drive_def with_device_def)
    show "session_proto (secure_recv tper_drive (protocol s) (com_id (session_device s)) (replicate 2048 0)) (with_device ?t s) =
        (Ok (reply_buffer (header (packet_of (concat cs) True)) (concat cs) (replicate (1992 - length (concat cs)) 0)),
         with_device (after (tsn s, hsn s) as (device (session_device s))) s)"
      using s fill_answer [OF r(3)] r(1)
      by (simp add: session_proto_run tper_drive_def with_device_def after_def tper_com_id_def)
  qed (use p(2) in \<open>simp_all add: tper_drive_def layout_ok_def is_power_of_two_def\<close>)
qed

section \<open>The messages of an unlock\<close>

lemma invocation_call: "invocation (call_atoms obj meth args) = Some (bytes obj, bytes meth, args)"
  by (simp add: call_atoms_def)

lemma call_atoms_not_close: "call_atoms obj meth args \<noteq> [Ctl 0xFA]"
  by (simp add: call_atoms_def)

lemma message_start:
  assumes "tp_session t = None"
  shows "tper_message (0, 0) (call_atoms uid_OPAL_SMUID method_STARTSESSION
      (start_arg_atoms uid_OPAL_LOCKINGSP uid_OPAL_ADMIN1 key)) t =
    (if tp_tries t = 0 then t\<lparr>tp_reply := sync_session [] 0x12\<rparr>
     else if key = tp_pin t
     then t\<lparr>tp_tries := tp_limit t, tp_session := Some (tp_next t, 105), tp_next := tp_next t + 1,
            tp_reply := sync_session [number_token (tp_wide t) 105, number_token (tp_wide t) (tp_next t)] 0\<rparr>
     else t\<lparr>tp_tries := tp_tries t - 1, tp_reply := sync_session [] 0x01\<rparr>)"
  using assms by (simp add: tper_message_def call_atoms_not_close invocation_call start_arg_atoms_def tper_start_def)

lemma message_set:
  assumes "tp_session t = Some num" "num \<noteq> (0, 0)"
  shows "tper_message num (call_atoms obj method_SET (set_arg_atoms cols)) t = tper_set (bytes obj) (set_arg_atoms cols) t"
  using assms by (simp add: tper_message_def call_atoms_not_close invocation_call)

lemma message_range:
  assumes "tp_session t = Some num" "num \<noteq> (0, 0)"
  shows "tper_message num (call_atoms (locking_range_uid 0) method_SET (set_arg_atoms (state_columns ReadWrite))) t =
    t\<lparr>tp_read_locked := False, tp_write_locked := False, tp_reply := result_reply 0\<rparr>"
  unfolding message_set [OF assms]
  by (simp add: tper_set_def set_arg_atoms_def state_columns_def opal_consts set_column_def
      locking_range_uid_def)

lemma message_mbr:
  assumes "tp_session t = Some num" "num \<noteq> (0, 0)"
  shows "tper_message num (call_atoms uid_OPAL_MBRCONTROL method_SET
      (set_arg_atoms [(token token_MBRDONE, token (simple_token_of_bool True))])) t =
    t\<lparr>tp_mbr_done := True, tp_reply := result_reply 0\<rparr>"
  unfolding message_set [OF assms]
  by (simp add: tper_set_def set_arg_atoms_def opal_consts simple_token_of_bool_def set_column_def)

lemma message_close:
  "num \<noteq> (0, 0) \<Longrightarrow> tp_session t = Some num \<Longrightarrow> tper_message num [Ctl 0xFA] t = t\<lparr>tp_session := None, tp_reply := [[0xFA]]\<rparr>"
  "tper_message (0, 0) [Ctl 0xFA] t = t\<lparr>tp_reply := []\<rparr>"
  by (simp_all add: tper_message_def)

text \<open>The atoms of the replies, and what the code reads from them.\<close>

lemma decode_number_token: "decode_atom (number_token wide w) = Some (Uint (unat w))"
proof (cases "wide \<or> 64 \<le> unat w")
  case True
  have "be_nat (be_bytes n (unat w)) = unat w" if "unat w < 256 ^ n" for n using that by (simp add: be_nat_be_bytes)
  then show ?thesis using unat32_bound [of w] True
    by (auto simp: number_token_def decode_atom_def simp del: le_bytes_numeral)
next
  case False
  then have u: "unat (ucast w :: u8) = unat w" by (simp add: unsigned_ucast_eq take_bit_eq_mod)
  then have "(ucast w :: u8) < 0x40" using False by (simp add: word_less_nat_alt)
  from tiny_atom [OF this] u False show ?thesis by (simp add: number_token_def)
qed

lemma result_reply_atoms:
  "code < 0x40 \<Longrightarrow> map decode_atom (result_reply code) = map Some
     [Ctl 0xF0, Ctl 0xF1, Ctl 0xF9, Ctl 0xF0, Uint (unat code), Uint 0, Uint 0, Ctl 0xF1]"
  using tiny_atom [of code] tiny_atom [of 0] by (simp add: result_reply_def answer_def)

lemma sync_session_atoms:
  assumes "code < 0x40" "map decode_atom args = map Some as"
  shows "map decode_atom (sync_session args code) = map Some ([Ctl 0xF8, Bstr (bytes uid_OPAL_SMUID),
     Bstr [0, 0, 0, 0, 0, 0, 0xFF, 0x03], Ctl 0xF0] @ as @ [Ctl 0xF1, Ctl 0xF9, Ctl 0xF0, Uint (unat code), Uint 0, Uint 0, Ctl 0xF1])"
  using tiny_atom [OF assms(1)] tiny_atom [of 0] assms(2)
  by (simp add: sync_session_def answer_def decode_bs8 opal_consts decode_atom_def [of "0xA8 # _"])

section \<open>The session, step by step\<close>

lemma check_sync:
  assumes "code < 0x40"
  shows "(check_status True \<lparr>response_header = h, response_tokens = filter nonempty (sync_session args code)\<rparr> :: ('e error, _) outcome) =
    (if code = 0 then Ok \<lparr>response_header = h, response_tokens = filter nonempty (sync_session args code)\<rparr>
     else Err (Opal (Status (StatusCode code))))"
  unfolding sync_session_def by (rule check_verdict [OF assms])

lemma length_number_token: "length (number_token wide w) \<le> 5"
  by (simp add: number_token_def)

lemma number_lengths: "length (number_token wide v) + length (number_token wide w) \<le> 100"
  using length_number_token [of wide v] length_number_token [of wide w] by simp

lemma length_sync: "length (concat (sync_session args code)) = 27 + length (concat args)"
  by (simp add: sync_session_def answer_def opal_consts bytestrings_def)

lemma adopt_sync:
  "(adopt_numbers \<lparr>response_header = hdr, response_tokens = filter nonempty (sync_session [number_token True h, number_token True t] 0)\<rparr> s
      :: ('err error, _) outcome \<times> _) = (Ok (), s\<lparr>hsn := h, tsn := t\<rparr>)"
proof -
  let ?r = "\<lparr>response_header = hdr, response_tokens = filter nonempty (sync_session [number_token True h, number_token True t] 0)\<rparr>"
  have toks: "4 < length (response_tokens ?r)" "5 < length (response_tokens ?r)"
    "response_tokens ?r ! 4 = 0x84 # be_bytes 4 (unat h)" "response_tokens ?r ! 5 = 0x84 # be_bytes 4 (unat t)"
    by (simp_all add: sync_session_def answer_def nonempty_def number_token_def del: le_bytes_numeral)
  obtain v where v: "get_uint ?r 4 = (Ok v :: ('err error, _) outcome)" "unat (ucast v :: u32) = be_nat (be_bytes 4 (unat h))"
    using get_uint_four_bytes [where 'e = "'err error", OF toks(1,3)] by auto
  obtain w where w: "get_uint ?r 5 = (Ok w :: ('err error, _) outcome)" "unat (ucast w :: u32) = be_nat (be_bytes 4 (unat t))"
    using get_uint_four_bytes [where 'e = "'err error", OF toks(2,4)] by auto
  have "(ucast v :: u32) = h" "(ucast w :: u32) = t"
    using v(2) w(2) unat32_bound by (simp_all add: word_unat_eq_iff be_nat_be_bytes)
  then show ?thesis using v(1) w(1) by (simp add: adopt_numbers_def pbind_def pure_def)
qed

text \<open>Numbers in shorter atoms are read with the header byte: the host's 105 comes back as 0x8169.\<close>

lemma number_token_read:
  assumes "response_tokens r ! i = number_token wide t" "i < length (response_tokens r)"
  shows "\<exists>w. get_uint r i = Ok w"
proof (cases "wide \<or> 64 \<le> unat t")
  case True
  then have "\<exists>c bs. number_token wide t = c # bs \<and> length bs \<le> 7 \<and> c AND 0x80 \<noteq> 0 \<and> c AND 0x40 = 0 \<and> c AND 0x10 = 0"
    by (auto simp: number_token_def)
  then show ?thesis using get_uint_short assms by metis
next
  case False
  then have "(ucast t :: u8) < 0x40" by (simp add: word_less_nat_alt unsigned_ucast_eq take_bit_eq_mod)
  with False show ?thesis using get_uint_tiny [OF _ assms(2)] tiny_bits [of "ucast t :: u8"] assms(1)
    by (auto simp: number_token_def)
qed

lemma number_token_nonempty: "nonempty (number_token wide t)"
proof (cases "wide \<or> 64 \<le> unat t")
  case False
  then have "unat (ucast t :: u8) < 64" by (simp add: unsigned_ucast_eq take_bit_eq_mod)
  then have "(ucast t :: u8) \<noteq> 0xFF" by (auto simp: word_unat_eq_iff)
  with False show ?thesis by (simp add: number_token_def nonempty_def)
qed (auto simp: number_token_def nonempty_def)

lemma adopt_short:
  "\<exists>x. \<forall>hdr s. (adopt_numbers \<lparr>response_header = hdr, response_tokens = filter nonempty (sync_session [number_token False 105, number_token False t] 0)\<rparr> s
      :: ('err error, _) outcome \<times> _) = (Ok (), s\<lparr>hsn := 0x8169, tsn := x\<rparr>)"
proof -
  let ?r = "\<lambda>hdr. \<lparr>response_header = hdr, response_tokens = filter nonempty (sync_session [number_token False 105, number_token False t] 0)\<rparr>"
  have short: "number_token False 105 = [0x81, 105]" by (simp add: number_token_def be_bytes_def)
  have toks: "4 < length (response_tokens (?r hdr))" "5 < length (response_tokens (?r hdr))"
    "response_tokens (?r hdr) ! 4 = [0x81, 105]" "response_tokens (?r hdr) ! 5 = number_token False t" for hdr
    using number_token_nonempty [of False t] by (simp_all add: short sync_session_def answer_def nonempty_def)
  obtain v w where vw: "get_uint (?r opal_header_default) 4 = (Ok v :: ('err error, _) outcome)" "unat v = 0x8169"
    "get_uint (?r opal_header_default) 5 = (Ok w :: ('err error, _) outcome)"
    using get_uint_short [OF toks(3,1), of opal_header_default] number_token_read [OF toks(4,2), of opal_header_default]
    by (auto simp: be_nat_def)
  then have same: "get_uint (?r hdr) 4 = (Ok v :: ('err error, _) outcome)" "get_uint (?r hdr) 5 = (Ok w :: ('err error, _) outcome)" for hdr
    by (simp_all add: get_uint_def)
  have "(ucast v :: u32) = 0x8169"
    using vw(2) by (simp add: word_unat_eq_iff unsigned_ucast_eq take_bit_eq_mod)
  then show ?thesis by (auto simp: adopt_numbers_def pbind_def pure_def same)
qed

definition opened :: "'w tper_scheme \<Rightarrow> 'w tper_scheme" where
  "opened t = t\<lparr>tp_tries := tp_limit t, tp_session := Some (tp_next t, 105), tp_next := tp_next t + 1, tp_reply := []\<rparr>"

definition first_session :: "'d secure_device \<Rightarrow> 'd opal_session" where
  "first_session dv = \<lparr>session_device = dv, tsn = 0, hsn = 0, protocol = 1\<rparr>"

lemma tper_start_body:
  fixes t :: "'w tper_scheme"
  assumes dv: "device dv = t" "com_id dv = tper_com_id" "\<not> is_eprise dv" "tp_session t = None"
    and key: "key \<noteq> []" "length key < 2048"
    and adopt: "\<And>hdr s. tp_tries t \<noteq> 0 \<and> key = tp_pin t \<longrightarrow> (adopt_numbers \<lparr>response_header = hdr, response_tokens = filter nonempty
        (sync_session [number_token (tp_wide t) 105, number_token (tp_wide t) (tp_next t)] 0)\<rparr> s ::
        ('err error, _) outcome \<times> 'w tper_scheme opal_session) = (Ok (), s\<lparr>hsn := h, tsn := x\<rparr>)"
  shows "start_body tper_drive (Suc fuel) uid_OPAL_LOCKINGSP uid_OPAL_ADMIN1 (Some key) (first_session dv) =
    (if tp_tries t = 0
     then ((Err (Opal (Status AUTHORITY_LOCKED_OUT)) :: ('err error, _) outcome), with_device (t\<lparr>tp_reply := []\<rparr>) (first_session dv))
     else if key = tp_pin t
     then (Ok (), (with_device (opened t) (first_session dv))\<lparr>hsn := h, tsn := x\<rparr>)
     else (Err (Opal (Status NOT_AUTHORIZED)),
       with_device (t\<lparr>tp_tries := tp_tries t - 1, tp_reply := []\<rparr>) (first_session dv)))"
proof -
  let ?s = "first_session dv"
  let ?p = "call_bytes uid_OPAL_SMUID method_STARTSESSION (start_args uid_OPAL_LOCKINGSP uid_OPAL_ADMIN1 key)"
  let ?as = "call_atoms uid_OPAL_SMUID method_STARTSESSION (start_arg_atoms uid_OPAL_LOCKINGSP uid_OPAL_ADMIN1 key)"
  have s: "protocol ?s = 1" "com_id (session_device ?s) = tper_com_id" "tsn ?s = 0" "hsn ?s = 0" "device (session_device ?s) = t"
    using dv by (simp_all add: first_session_def)
  have p: "carries ?p ?as"
    using key by (intro call_carries start_args_carry) simp_all
  have "length (start_args uid_OPAL_LOCKINGSP uid_OPAL_ADMIN1 key) \<le> 4000"
    using key by (intro start_args_length) simp_all
  then have len: "length ?p \<le> 4096" by (intro call_length) simp_all
  have run: "send_raw_command tper_drive (Suc fuel) (packet_of ?p True) ?s =
      ((check_status True \<lparr>response_header = header (packet_of (concat (sync_session args code)) True),
          response_tokens = filter nonempty (sync_session args code)\<rparr> :: ('err error, _) outcome),
       with_device (t'\<lparr>tp_reply := []\<rparr>) ?s)"
    if "tper_message (0, 0) ?as t = t'\<lparr>tp_reply := sync_session args code\<rparr>" "code < 0x40"
      "map decode_atom args = map Some as" "length (concat args) \<le> 100" for t' args code as
    using tper_command [where 'err = 'err, OF s(1,2) p len, unfolded s, OF _ sync_session_atoms [OF that(2,3)], of fuel True]
      that(1,4) length_sync [of args code] by (simp add: after_def)
  note msg = message_start [OF dv(4), of key]
  have "(start_body tper_drive (Suc fuel) uid_OPAL_LOCKINGSP uid_OPAL_ADMIN1 (Some key) ?s :: ('err error, _) outcome \<times> _) =
      pbind (send_raw_command tper_drive (Suc fuel) (packet_of ?p True)) adopt_numbers ?s"
    using start_body_eq [of ?s key] dv(3) key(2) by (simp add: first_session_def)
  moreover consider "tp_tries t = 0" | "tp_tries t \<noteq> 0" "key = tp_pin t" | "tp_tries t \<noteq> 0" "key \<noteq> tp_pin t" by blast
  then have "pbind (send_raw_command tper_drive (Suc fuel) (packet_of ?p True)) adopt_numbers ?s =
     (if tp_tries t = 0
     then ((Err (Opal (Status AUTHORITY_LOCKED_OUT)) :: ('err error, _) outcome), with_device (t\<lparr>tp_reply := []\<rparr>) ?s)
     else if key = tp_pin t then (Ok (), (with_device (opened t) ?s)\<lparr>hsn := h, tsn := x\<rparr>)
     else (Err (Opal (Status NOT_AUTHORIZED)), with_device (t\<lparr>tp_tries := tp_tries t - 1, tp_reply := []\<rparr>) ?s))"
  proof cases
    case 1
    with msg have "tper_message (0, 0) ?as t = t\<lparr>tp_reply := sync_session [] 0x12\<rparr>" by simp
    from run [OF this, of "[]"] 1 show ?thesis by (simp add: pbind_def check_sync AUTHORITY_LOCKED_OUT_def)
  next
    case 2
    with msg have "tper_message (0, 0) ?as t =
      (opened t)\<lparr>tp_reply := sync_session [number_token (tp_wide t) 105, number_token (tp_wide t) (tp_next t)] 0\<rparr>" by (simp add: opened_def)
    from run [OF this, of "[Uint (unat (105 :: u32)), Uint (unat (tp_next t))]"] 2 show ?thesis
      by (simp add: pbind_def check_sync adopt [rule_format] decode_number_token number_lengths) (simp add: opened_def)
  next
    case 3
    with msg have "tper_message (0, 0) ?as t = (t\<lparr>tp_tries := tp_tries t - 1\<rparr>)\<lparr>tp_reply := sync_session [] 0x01\<rparr>" by simp
    from run [OF this, of "[]"] 3 show ?thesis by (simp add: pbind_def check_sync NOT_AUTHORIZED_def)
  qed
  ultimately show ?thesis by (rule trans)
qed

lemma tper_drop:
  assumes "protocol s = 1" "com_id (session_device s) = tper_com_id"
    and "tper_message (tsn s, hsn s) [Ctl 0xFA] (device (session_device s)) = t'\<lparr>tp_reply := cs\<rparr>" "cs \<in> {[], [[0xFA]]}"
  shows "(drop_session tper_drive (Suc fuel) s :: ('err error, _) outcome \<times> _) = (Ok (), with_device (t'\<lparr>tp_reply := []\<rparr>) s)"
proof -
  have c: "decode_atom [0xFA] = Some (Ctl 0xFA)" by (simp add: decode_atom_def)
  then have "map decode_atom cs = map Some (if cs = [] then [] else [Ctl 0xFA])" "length (concat cs) \<le> 1900"
    using assms(4) by auto
  from tper_command [where 'err = 'err, OF assms(1,2) carries_atom [OF c], of cs, OF _ _ this, of fuel False]
  show ?thesis using assms(3)
    by (simp add: drop_session_def close_command_eq check_status_no_eod after_def)
qed

lemma tper_method:
  assumes "protocol s = 1" "com_id (session_device s) = tper_com_id" "carries p as" "length p \<le> 4096"
    and "tper_message (tsn s, hsn s) as (device (session_device s)) = t'\<lparr>tp_reply := result_reply 0\<rparr>"
  shows "pbind (send_raw_command tper_drive (Suc fuel) (packet_of p True)) (\<lambda>_. pure (Ok ())) s =
    ((Ok () :: ('err error, _) outcome), with_device (t'\<lparr>tp_reply := []\<rparr>) s)"
proof -
  have "length (concat (result_reply 0)) \<le> 1900" by (simp add: result_reply_def answer_def)
  then show ?thesis
    using tper_command [where 'err = 'err, OF assms(1-4) _ result_reply_atoms [of 0], of fuel True] assms(5)
      check_verdict [where 'e = 'err, of 0 _ "[[0xF0], [0xF1]]"]
    by (simp add: pbind_def pure_def after_def result_reply_def)
qed

abbreviation range_packet :: "u8 list" where
  "range_packet \<equiv> call_bytes (locking_range_uid 0) method_SET (set_args (state_columns ReadWrite))"

lemma range_packet_carries:
  "carries range_packet (call_atoms (locking_range_uid 0) method_SET (set_arg_atoms (state_columns ReadWrite)))"
  "length range_packet \<le> 4096"
  by (intro call_carries set_args_carry state_columns_tiny locking_range_uid_wf bs8_wf_consts,
      intro call_length, simp_all add: set_args_def state_columns_def locking_range_uid_def)

lemma tper_range:
  assumes "protocol s = 1" "com_id (session_device s) = tper_com_id"
    and "tp_session (device (session_device s)) = Some (tsn s, hsn s)" "(tsn s, hsn s) \<noteq> (0, 0)"
  shows "(set_locking_range tper_drive (Suc fuel) 0 ReadWrite s :: ('err error, _) outcome \<times> _) =
    (Ok (), with_device ((device (session_device s))\<lparr>tp_read_locked := False, tp_write_locked := False, tp_reply := []\<rparr>) s)"
  unfolding set_locking_range_def locking_range_command_eq
  using tper_method [where 'err = 'err, OF assms(1,2) range_packet_carries message_range [OF assms(3,4)], of fuel]
  by simp

lemma tper_mbr:
  assumes "protocol s = 1" "com_id (session_device s) = tper_com_id"
    and "tp_session (device (session_device s)) = Some (tsn s, hsn s)" "(tsn s, hsn s) \<noteq> (0, 0)"
  shows "(set_mbr_done tper_drive (Suc fuel) True s :: ('err error, _) outcome \<times> _) =
    (Ok (), with_device ((device (session_device s))\<lparr>tp_mbr_done := True, tp_reply := []\<rparr>) s)"
proof -
  let ?c = "[(token token_MBRDONE, token (simple_token_of_bool True))]"
  let ?p = "call_bytes uid_OPAL_MBRCONTROL method_SET (set_args ?c)"
  have "carries (set_args ?c) (set_arg_atoms ?c)"
    by (intro set_args_carry) (simp add: opal_consts simple_token_of_bool_def)
  then have "carries ?p (call_atoms uid_OPAL_MBRCONTROL method_SET (set_arg_atoms ?c))"
    by (intro call_carries bs8_wf_consts)
  moreover have "length ?p \<le> 4096" by (intro call_length) (simp_all add: set_args_def)
  ultimately show ?thesis
    unfolding set_mbr_done_def set_locking_sp_value_def set_value_command_eq
    using tper_method [where 'err = 'err, OF assms(1,2) _ _ message_mbr [OF assms(3,4)], of ?p fuel]
    by simp
qed

section \<open>Unlocking\<close>

text \<open>
  What presenting a key is: nothing if no tries are left, a wrong key costs one, the right key opens
  the global range and the disk behind the shadow MBR and gives the tries back.
\<close>

definition present :: "u8 list \<Rightarrow> 'w tper_scheme \<Rightarrow> ('err error, unit) outcome \<times> 'w tper_scheme" where
  "present key t =
     (if tp_tries t = 0 then (Err (Opal (Status AUTHORITY_LOCKED_OUT)), t)
      else if key = tp_pin t then
        (Ok (), t\<lparr>tp_tries := tp_limit t, tp_read_locked := False, tp_write_locked := False, tp_mbr_done := True,
           tp_next := tp_next t + 1\<rparr>)
      else (Err (Opal (Status NOT_AUTHORIZED)), t\<lparr>tp_tries := tp_tries t - 1\<rparr>))"

text \<open>A drive between two unlocks: no session is open and no reply is waiting.\<close>

definition ready :: "'w tper_scheme \<Rightarrow> bool" where
  "ready t \<longleftrightarrow> tp_session t = None \<and> tp_reply t = []"

text \<open>
  The session numbers that the drive sends in answer to a key, if it sends any, are in atoms of four
  bytes, the form that the code relies on.
\<close>

definition answers_wide :: "u8 list \<Rightarrow> 'w tper_scheme \<Rightarrow> bool" where
  "answers_wide key t \<longleftrightarrow> tp_wide t \<or> tp_tries t = 0 \<or> key \<noteq> tp_pin t"

lemma with_device_sel [simp]:
  "device (session_device (with_device d s)) = d" "com_id (session_device (with_device d s)) = com_id (session_device s)"
  "protocol (with_device d s) = protocol s" "tsn (with_device d s) = tsn s" "hsn (with_device d s) = hsn s"
  "session_device (with_device d s) = (session_device s)\<lparr>device := d\<rparr>"
  "with_device d' (with_device d s) = with_device d' s"
  by (simp_all add: with_device_def)

definition granted :: "u32 \<times> u32 \<Rightarrow> 'w tper_scheme secure_device \<Rightarrow> 'w tper_scheme opal_session" where
  "granted num dv = \<lparr>session_device = dv\<lparr>device := opened (device dv)\<rparr>, tsn = fst num, hsn = snd num, protocol = 1\<rparr>"

lemma tper_session_start:
  fixes dv :: "'w tper_scheme secure_device"
  assumes dv: "com_id dv = tper_com_id" "\<not> is_eprise dv" and t: "tp_session (device dv) = None" "tp_reply (device dv) = []"
    and key: "key \<noteq> []" "length key < 2048"
    and adopt: "\<And>hdr s. tp_tries (device dv) \<noteq> 0 \<and> key = tp_pin (device dv) \<longrightarrow> (adopt_numbers \<lparr>response_header = hdr, response_tokens = filter nonempty
        (sync_session [number_token (tp_wide (device dv)) 105, number_token (tp_wide (device dv)) (tp_next (device dv))] 0)\<rparr> s
        :: ('err error, _) outcome \<times> 'w tper_scheme opal_session) = (Ok (), s\<lparr>hsn := h, tsn := x\<rparr>)"
  shows "(session_start tper_drive (Suc fuel) uid_OPAL_LOCKINGSP uid_OPAL_ADMIN1 (Some key) dv :: ('err error, _) outcome \<times> _) =
    (case present key (device dv) of
       (Ok _, t) \<Rightarrow> (Ok (granted (x, h) dv), session_device (granted (x, h) dv))
     | (Err e, t) \<Rightarrow> (Err e, dv\<lparr>device := t\<rparr>)
     | (Halt h, t) \<Rightarrow> (Halt h, dv))"
proof -
  let ?t = "device dv"
  note body = tper_start_body [where 'err = 'err, OF refl dv t(1) key adopt, of fuel, unfolded first_session_def]
  have drop: "(drop_session tper_drive (Suc fuel) (with_device t' \<lparr>session_device = dv, tsn = 0, hsn = 0, protocol = 1\<rparr>)
      :: ('err error, _) outcome \<times> _) = (Ok (), with_device t' \<lparr>session_device = dv, tsn = 0, hsn = 0, protocol = 1\<rparr>)"
    if "tp_reply t' = []" for t'
    using tper_drop [where 'err = 'err and t' = t' and cs = "[]"] dv(1) message_close(2) [of t'] that by simp
  consider "tp_tries ?t = 0" | "tp_tries ?t \<noteq> 0" "key = tp_pin ?t" | "tp_tries ?t \<noteq> 0" "key \<noteq> tp_pin ?t" by blast
  then show ?thesis
  proof cases
    case 2
    then show ?thesis unfolding session_start_def body by (simp add: present_def granted_def with_device_def)
  qed (use t(2) in \<open>simp_all add: session_start_def body present_def drop\<close>)
qed

lemma tper_scoped:
  fixes dv :: "'w tper_scheme secure_device"
  assumes "com_id dv = tper_com_id"
  shows "(scoped tper_drive (Suc fuel) (unlock_body tper_drive (Suc fuel)) (granted (tp_next (device dv), 105) dv) dv0 :: ('err error, _) outcome \<times> _) =
    (Ok (), dv\<lparr>device := (opened (device dv))\<lparr>tp_read_locked := False, tp_write_locked := False, tp_mbr_done := True,
       tp_session := None\<rparr>\<rparr>)"
proof -
  let ?s = "granted (tp_next (device dv), 105) dv" and ?t = "opened (device dv)"
  let ?t1 = "?t\<lparr>tp_read_locked := False, tp_write_locked := False\<rparr>"
  let ?t2 = "?t1\<lparr>tp_mbr_done := True\<rparr>"
  have s: "protocol ?s = 1" "com_id (session_device ?s) = tper_com_id" "device (session_device ?s) = ?t"
    "tsn ?s = tp_next (device dv)" "hsn ?s = 105" "tp_session ?t = Some (tsn ?s, hsn ?s)" "(tsn ?s, hsn ?s) \<noteq> (0, 0)" "tp_reply ?t = []"
    using assms by (simp_all add: granted_def opened_def)
  have range: "(set_locking_range tper_drive (Suc fuel) 0 ReadWrite ?s :: ('err error, _) outcome \<times> _) = (Ok (), with_device ?t1 ?s)"
    using tper_range [where 'err = 'err, OF s(1,2), of fuel] s by simp
  have mbr: "(set_mbr_done tper_drive (Suc fuel) True (with_device ?t1 ?s) :: ('err error, _) outcome \<times> _) = (Ok (), with_device ?t2 ?s)"
    using tper_mbr [where 'err = 'err and s = "with_device ?t1 ?s", of fuel] s by simp
  have drop: "(drop_session tper_drive (Suc fuel) (with_device ?t2 ?s) :: ('err error, _) outcome \<times> _) =
      (Ok (), with_device (?t2\<lparr>tp_session := None\<rparr>) ?s)"
    using tper_drop [where 'err = 'err and s = "with_device ?t2 ?s" and t' = "?t2\<lparr>tp_session := None\<rparr>" and cs = "[[0xFA]]", of fuel]
      message_close(1) [OF s(7), of ?t2] s by simp
  show ?thesis
    by (simp add: scoped_def unlock_body_def pbind_def range mbr drop) (simp add: granted_def)
qed

lemma tper_unlock_device:
  fixes dv :: "'w tper_scheme secure_device"
  assumes "com_id dv = tper_com_id" "\<not> is_eprise dv" "ready (device dv)"
    and key: "unlock_key kdf (tp_serial (device dv)) pwd = (Ok key :: ('err error, _) outcome)" "key \<noteq> []" "length key < 2048"
    and wide: "answers_wide key (device dv)"
  shows "(unlock_device tper_drive (Suc fuel) kdf pwd dv :: ('err error, _) outcome \<times> _) =
    (case present key (device dv) of (r, t) \<Rightarrow> (r, dv\<lparr>device := t\<rparr>))"
proof -
  have serial: "serial_num (tper_drive :: ('w tper_scheme, 'err) secure_protocol) t = tp_serial t" for t
    by (simp add: tper_drive_def)
  have reset: "(dev_reconnect_controller tper_drive dv' :: ('err error, _) outcome \<times> _) = (Ok (), dv')" for dv' :: "'w tper_scheme secure_device"
    by (simp add: dev_reconnect_controller_def tper_drive_def pmap_err_def zoom_def)
  have t: "tp_session (device dv) = None" "tp_reply (device dv) = []" using assms(3) by (auto simp: ready_def)
  have adopt: "tp_tries (device dv) \<noteq> 0 \<and> key = tp_pin (device dv) \<longrightarrow> (adopt_numbers \<lparr>response_header = hdr, response_tokens = filter nonempty
        (sync_session [number_token (tp_wide (device dv)) 105, number_token (tp_wide (device dv)) (tp_next (device dv))] 0)\<rparr> s
        :: ('err error, _) outcome \<times> 'w tper_scheme opal_session) = (Ok (), s\<lparr>hsn := 105, tsn := tp_next (device dv)\<rparr>)" for hdr s
    using wide adopt_sync [where 'err = 'err and 'a = "'w tper_scheme", of hdr 105 "tp_next (device dv)" s] by (auto simp: answers_wide_def)
  note start = tper_session_start [where 'err = 'err, OF assms(1,2) t key(2,3) adopt, of fuel]
  note scope = tper_scoped [where 'err = 'err, OF assms(1), of fuel "session_device (granted (tp_next (device dv), 105) dv)"]
  consider "tp_tries (device dv) = 0" | "tp_tries (device dv) \<noteq> 0" "key = tp_pin (device dv)"
    | "tp_tries (device dv) \<noteq> 0" "key \<noteq> tp_pin (device dv)" by blast
  then show ?thesis
  proof cases
    case 2
    then have now: "present key (device dv) = (Ok () :: ('err error, _) outcome, (device dv)\<lparr>tp_tries := tp_limit (device dv),
        tp_read_locked := False, tp_write_locked := False, tp_mbr_done := True, tp_next := tp_next (device dv) + 1\<rparr>)"
      by (simp add: present_def)
    show ?thesis using t
      by (simp add: unlock_device_def serial key(1) pbind_def start now scope reset) (simp add: opened_def)
  qed (simp_all add: unlock_device_def serial key(1) pbind_def start present_def)
qed

section \<open>Drives with short session numbers\<close>

text \<open>A command for a session that the drive does not know is answered by nothing.\<close>

lemma message_unheard:
  assumes "num \<noteq> (0, 0)" "tp_session t \<noteq> Some num"
  shows "tper_message num as t = t\<lparr>tp_reply := []\<rparr>"
  using assms by (simp add: tper_message_def)

lemma tper_unheard:
  fixes s :: "'w tper_scheme opal_session"
  assumes "protocol s = 1" "com_id (session_device s) = tper_com_id" "carries p as" "length p \<le> 4096"
    and "(tsn s, hsn s) \<noteq> (0, 0)" "tp_session (device (session_device s)) \<noteq> Some (tsn s, hsn s)"
  shows "(send_raw_command tper_drive (Suc fuel) (packet_of p True) s :: ('err error, _) outcome \<times> _) =
    (Err (Opal NoMethodStatus), with_device ((device (session_device s))\<lparr>tp_reply := []\<rparr>) s)"
proof -
  note msg = message_unheard [OF assms(5,6), of as]
  have "(send_raw_command tper_drive (Suc fuel) (packet_of p True) s :: ('err error, _) outcome \<times> _) =
      (check_status True \<lparr>response_header = header (packet_of (concat []) True), response_tokens = filter nonempty []\<rparr>,
       with_device (after (tsn s, hsn s) as (device (session_device s))) s)"
    by (rule tper_command [OF assms(1-4), of "[]" "[]"]) (simp_all add: msg)
  then show ?thesis by (simp add: check_status_def response_len_def Let_def after_def msg)
qed

lemma unheard_scoped:
  fixes s :: "'w tper_scheme opal_session"
  assumes "protocol s = 1" "com_id (session_device s) = tper_com_id" "(tsn s, hsn s) \<noteq> (0, 0)"
    and "tp_session (device (session_device s)) \<noteq> Some (tsn s, hsn s)"
  shows "(scoped tper_drive (Suc fuel) (unlock_body tper_drive (Suc fuel)) s dv0 :: ('err error, _) outcome \<times> _) =
    (Err (Opal NoMethodStatus), (session_device s)\<lparr>device := (device (session_device s))\<lparr>tp_reply := []\<rparr>\<rparr>)"
proof -
  let ?t = "(device (session_device s))\<lparr>tp_reply := []\<rparr>"
  have "(set_locking_range tper_drive (Suc fuel) 0 ReadWrite s :: ('err error, _) outcome \<times> _) =
      (Err (Opal NoMethodStatus), with_device ?t s)"
    unfolding set_locking_range_def locking_range_command_eq
    using tper_unheard [where 'err = 'err, OF assms(1,2) range_packet_carries assms(3,4), of fuel] by (simp add: pbind_def)
  moreover have "(drop_session tper_drive (Suc fuel) (with_device ?t s) :: ('err error, _) outcome \<times> _) = (Ok (), with_device ?t s)"
    using tper_drop [where 'err = 'err and s = "with_device ?t s" and t' = ?t and cs = "[]", of fuel]
      message_unheard [of "(tsn s, hsn s)" ?t "[Ctl 0xFA]"] assms by simp
  ultimately show ?thesis by (simp add: scoped_def unlock_body_def pbind_def)
qed

lemma short_numbers_run:
  fixes dv :: "'w tper_scheme secure_device"
  assumes dv: "com_id dv = tper_com_id" "\<not> is_eprise dv" "tp_session (device dv) = None" "tp_reply (device dv) = []" "\<not> tp_wide (device dv)"
    and tries: "tp_tries (device dv) \<noteq> 0"
    and key: "unlock_key kdf (tp_serial (device dv)) pwd = (Ok (tp_pin (device dv)) :: ('err error, _) outcome)"
      "tp_pin (device dv) \<noteq> []" "length (tp_pin (device dv)) < 2048"
  shows "(unlock_device tper_drive (Suc fuel) kdf pwd dv :: ('err error, _) outcome \<times> _) =
    (Err (Opal NoMethodStatus), dv\<lparr>device := opened (device dv)\<rparr>)"
proof -
  have narrow: "tp_wide (device dv) = False" using dv(5) by simp
  obtain x where adopt: "(adopt_numbers \<lparr>response_header = hdr, response_tokens = filter nonempty
        (sync_session [number_token (tp_wide (device dv)) 105, number_token (tp_wide (device dv)) (tp_next (device dv))] 0)\<rparr> s
        :: ('err error, _) outcome \<times> 'w tper_scheme opal_session) = (Ok (), s\<lparr>hsn := 0x8169, tsn := x\<rparr>)" for hdr s
    unfolding narrow using adopt_short [where 'err = 'err and 'a = "'w tper_scheme"] by metis
  then have "tp_tries (device dv) \<noteq> 0 \<and> tp_pin (device dv) = tp_pin (device dv) \<longrightarrow> (adopt_numbers \<lparr>response_header = hdr, response_tokens = filter nonempty
        (sync_session [number_token (tp_wide (device dv)) 105, number_token (tp_wide (device dv)) (tp_next (device dv))] 0)\<rparr> s
        :: ('err error, _) outcome \<times> 'w tper_scheme opal_session) = (Ok (), s\<lparr>hsn := 0x8169, tsn := x\<rparr>)" for hdr s by simp
  note start = tper_session_start [where 'err = 'err, OF dv(1-4) key(2,3) this, of fuel]
  let ?s = "granted (x, 0x8169) dv"
  have s: "protocol ?s = 1" "com_id (session_device ?s) = tper_com_id" "(tsn ?s, hsn ?s) \<noteq> (0, 0)"
    "tp_session (device (session_device ?s)) \<noteq> Some (tsn ?s, hsn ?s)"
    using dv(1) by (simp_all add: granted_def opened_def)
  have serial: "serial_num (tper_drive :: ('w tper_scheme, 'err) secure_protocol) t = tp_serial t" for t
    by (simp add: tper_drive_def)
  show ?thesis using tries
    by (simp add: unlock_device_def serial key(1) pbind_def start present_def unheard_scoped [OF s]) (simp add: granted_def opened_def)
qed

section \<open>Opening the drive\<close>

lemma tper_discovery_length: "length (tper_discovery t) = 84"
  by (simp add: tper_discovery_def tper_features_def feature_bytes_def)

lemma tper_locked_flag: "locked_flag (fold apply_feature (tper_features t) no_info) \<longleftrightarrow> tp_read_locked t \<or> tp_write_locked t"
  using locked_flag_iff [of "fold apply_feature (tper_features t) no_info" "tper_flags t"]
  by (simp add: tper_features_def apply_feature_def feature_code_defs Let_def no_info_def tper_flags_def)

lemma tper_open:
  fixes t :: "'w tper_scheme"
  shows "(opal_drive_new tper_drive t :: ('err error, _) outcome \<times> _) =
    (Ok \<lparr>drive_dev = \<lparr>device = t, com_id = tper_com_id, is_eprise = False, was_locked = (tp_read_locked t \<or> tp_write_locked t)\<rparr>\<rparr>, t)"
proof -
  let ?P = "tper_drive :: ('w tper_scheme, 'err) secure_protocol" and ?fs = "tper_features t"
  let ?pre = "[0, 0, 0, 80, 0, 0, 0, 1] @ replicate 40 0 :: u8 list"
  have "secure_device_new ?P t =
    (let info = fold apply_feature ?fs no_info in
     case (case enterprise info of Some c \<Rightarrow> Some c | None \<Rightarrow> opal_v2 info) of
       None \<Rightarrow> (Err Unsupported, t)
     | Some c \<Rightarrow> (Ok \<lparr>device = t, com_id = base_com_id c, is_eprise = (enterprise info \<noteq> None), was_locked = locked_flag info\<rparr>, t))"
  proof (rule device_from_features [where pre = ?pre and k = 940])
    show "secure_recv ?P 1 1 (replicate 1024 0) t = (Ok (?pre @ concat (map feature_bytes ?fs) @ replicate 940 0), t)"
      using tper_discovery_length [of t] by (simp add: tper_drive_def fill_def) (simp add: tper_discovery_def)
    show "list_all feature_wf ?fs" by (simp add: tper_features_def feature_wf_def feature_code_defs)
  qed (simp_all add: tper_drive_def layout_ok_def is_power_of_two_def)
  moreover have "enterprise (fold apply_feature ?fs no_info) = None"
    "opal_v2 (fold apply_feature ?fs no_info) = Some \<lparr>base_com_id = tper_com_id, num_com_ids = 1\<rparr>"
    by (simp_all add: tper_features_def apply_feature_def feature_code_defs Let_def no_info_def data_com_id_def be16_def tper_com_id_def)
  ultimately show ?thesis
    by (simp add: opal_drive_new_def pbind_def pure_def Let_def tper_locked_flag)
qed

lemma serial_set_columns: "set_columns obj cvs t = Some t' \<Longrightarrow> tp_serial t' = tp_serial t"
  by (induction cvs arbitrary: t) (auto simp: set_column_def Let_def split: option.splits prod.splits if_splits)

lemma serial_message: "tp_serial (tper_message num as t) = tp_serial t"
  by (auto simp: tper_message_def tper_start_def tper_set_def dest: serial_set_columns split: option.splits)

interpretation tper: protocol_laws tper_drive
  by unfold_locales (auto simp: tper_drive_def fill_def tper_send_def serial_message split: if_splits option.splits)

text \<open>A drive that conforms to the reference: seen through \<open>ab\<close> it is the reference.\<close>

lemma conforming_unlock:
  fixes Q :: "('c, 'err) secure_protocol" and ab :: "'c \<Rightarrow> 'w tper_scheme"
  assumes "drive_morphism Q tper_drive ab"
    and spec: "(unlock_device tper_drive fuel kdf pwd (seen_device ab (drive_dev d)) :: ('err error, _) outcome \<times> _) =
      (r, (seen_device ab (drive_dev d))\<lparr>device := t\<rparr>)"
    and run: "unlock Q fuel kdf pwd d = (r', d')"
  shows "r' = r \<and> ab (device (drive_dev d')) = t \<and>
    com_id (drive_dev d') = com_id (drive_dev d) \<and> is_eprise (drive_dev d') = is_eprise (drive_dev d)"
proof -
  note seen = drive_morphism.unlock_seen [OF assms(1), of fuel kdf pwd d]
  have "r' = r" "seen_device ab (drive_dev d') = (seen_device ab (drive_dev d))\<lparr>device := t\<rparr>"
    using seen spec unfolding run by (simp_all add: unlock_def zoom_def seen_drive_def)
  then show ?thesis by (simp add: seen_device_def)
qed

lemma conforming_serial:
  fixes Q :: "('c, 'err) secure_protocol" and ab :: "'c \<Rightarrow> 'w tper_scheme"
  assumes "drive_morphism Q tper_drive ab"
  shows "serial Q d = tp_serial (ab (device (drive_dev d)))"
  using drive_morphism.same_serial [OF assms, of "device (drive_dev d)"] by (simp add: serial_def tper_drive_def)

lemma ready_present: "ready t \<Longrightarrow> present key t = (r, t') \<Longrightarrow> ready t'"
  by (auto simp: ready_def present_def split: if_splits)

lemma conforming_run:
  fixes Q :: "('c, 'err) secure_protocol" and ab :: "'c \<Rightarrow> 'w tper_scheme"
  assumes "drive_morphism Q tper_drive ab"
    and "com_id (drive_dev d) = tper_com_id" "\<not> is_eprise (drive_dev d)" "ready (ab (device (drive_dev d)))"
    and "unlock_key kdf (serial Q d) pwd = (Ok key :: ('err error, _) outcome)" "key \<noteq> []" "length key < 2048"
    and "answers_wide key (ab (device (drive_dev d)))"
    and run: "unlock Q (Suc fuel) kdf pwd d = (r, d')"
  shows "present key (ab (device (drive_dev d))) = (r, ab (device (drive_dev d'))) \<and> ready (ab (device (drive_dev d'))) \<and>
    com_id (drive_dev d') = tper_com_id \<and> \<not> is_eprise (drive_dev d')"
proof -
  obtain r0 t where now: "present key (ab (device (drive_dev d))) = (r0 :: ('err error, unit) outcome, t)" by fastforce
  have "(unlock_device tper_drive (Suc fuel) kdf pwd (seen_device ab (drive_dev d)) :: ('err error, _) outcome \<times> _) =
      (r0, (seen_device ab (drive_dev d))\<lparr>device := t\<rparr>)"
    using tper_unlock_device [where 'err = 'err and dv = "seen_device ab (drive_dev d)", of kdf pwd key fuel]
      assms(2-8) now conforming_serial [OF assms(1)] by (simp add: seen_device_def)
  from conforming_unlock [OF assms(1) this run] show ?thesis
    using now assms(2,3) ready_present [OF assms(4) now] by simp
qed

lemma present_right:
  "present (tp_pin t) t = (r, t') \<Longrightarrow> tp_tries t \<noteq> 0 \<Longrightarrow>
     r = Ok () \<and> \<not> tp_read_locked t' \<and> \<not> tp_write_locked t' \<and> tp_mbr_done t'"
  by (auto simp: present_def)

definition narrow_drive :: tper where
  "narrow_drive = \<lparr>tp_serial = [0x53], tp_pin = replicate 32 7, tp_limit = 5, tp_wide = False, tp_tries = 2, tp_read_locked = True,
     tp_write_locked = True, tp_mbr_done = False, tp_next = 0x1001, tp_session = None, tp_reply = []\<rparr>"

section \<open>Properties\<close>

text \<open>
  C5: unlocking presents the key. On a drive that conforms to the reference drive, has no session
  open and sends session numbers in atoms of four bytes, an unlock has the result and the effect of
  presenting the key derived from the password to the drive: the right key opens the global range
  and sets MBRDone, a wrong one is refused and costs a try, and without tries left the authority is
  locked out. No session stays open. Of the session numbers nothing is asked unless the key is
  right and there are tries, since otherwise none are sent.
\<close>

theorem unlock_presents_key:
  fixes Q :: "('c, 'err) secure_protocol" and ab :: "'c \<Rightarrow> 'w tper_scheme"
  assumes "drive_morphism Q tper_drive ab"
    and "com_id (drive_dev d) = tper_com_id" "\<not> is_eprise (drive_dev d)" "ready (ab (device (drive_dev d)))"
    and "unlock_key kdf (serial Q d) pwd = (Ok key :: ('err error, _) outcome)" "key \<noteq> []" "length key < 2048"
    and "answers_wide key (ab (device (drive_dev d)))"
  shows "case unlock Q (Suc fuel) kdf pwd d of (r, d') \<Rightarrow>
    present key (ab (device (drive_dev d))) = (r, ab (device (drive_dev d'))) \<and> ready (ab (device (drive_dev d')))"
  using conforming_run [OF assms] by (auto split: prod.splits)

text \<open>The reference drive with a log of the packets conforms to the reference drive.\<close>

definition factory_drive :: tper where
  "factory_drive = \<lparr>tp_serial = [0x53], tp_pin = replicate 32 7, tp_limit = 5, tp_wide = True, tp_tries = 2, tp_read_locked = True,
     tp_write_locked = True, tp_mbr_done = False, tp_next = 0x1001, tp_session = None, tp_reply = []\<rparr>"

definition factory_opened :: "(tper \<times> event list) opal_drive" where
  "factory_opened = \<lparr>drive_dev = \<lparr>device = (factory_drive, []), com_id = tper_com_id, is_eprise = False, was_locked = True\<rparr>\<rparr>"

theorem unlock_presents_key_witness:
  "\<exists>d'. unlock (traced tper_drive :: (tper \<times> event list, unit) secure_protocol) (Suc 0) (\<lambda>p s n k. None) (Raw (replicate 32 7)) factory_opened =
      (Ok (), d') \<and> \<not> tp_read_locked (fst (device (drive_dev d'))) \<and> tp_mbr_done (fst (device (drive_dev d')))"
proof -
  obtain r d' where run: "unlock (traced tper_drive :: (tper \<times> event list, unit) secure_protocol) (Suc 0) (\<lambda>p s n k. None) (Raw (replicate 32 7)) factory_opened = (r, d')"
    by fastforce
  have "present (replicate 32 7) factory_drive = (r, fst (device (drive_dev d')))"
    using unlock_presents_key [OF tracing.drive_morphism_axioms [of "tper_drive :: (tper, unit) secure_protocol"], of factory_opened "\<lambda>p s n k. None" "Raw (replicate 32 7)" "replicate 32 7" 0] run
    by (simp add: factory_opened_def factory_drive_def ready_def answers_wide_def unlock_key_def)
  then show ?thesis using run present_right [of factory_drive] by (auto simp: factory_drive_def)
qed

text \<open>
  C7: the life of a locked drive. A conforming drive with a locked global range that has tries left
  and sends session numbers in atoms of four bytes is found locked when it is opened; an unlock with
  the password whose key is the drive's succeeds; opened again, the drive is found unlocked.
\<close>

theorem locked_drive_opens:
  fixes Q :: "('c, 'err) secure_protocol" and ab :: "'c \<Rightarrow> 'w tper_scheme"
  assumes "drive_morphism Q tper_drive ab" "ready (ab c)" "tp_wide (ab c)" "tp_read_locked (ab c) \<or> tp_write_locked (ab c)" "tp_tries (ab c) \<noteq> 0"
    and "unlock_key kdf (serial_num Q c) pwd = (Ok (tp_pin (ab c)) :: ('err error, _) outcome)"
      "tp_pin (ab c) \<noteq> []" "length (tp_pin (ab c)) < 2048"
  shows "\<exists>c1 d d1 c2 d2. opal_drive_new Q c = (Ok d, c1) \<and> drive_was_locked d \<and> unlock Q (Suc fuel) kdf pwd d = (Ok (), d1) \<and>
    opal_drive_new Q (device (drive_dev d1)) = (Ok d2, c2) \<and> \<not> drive_was_locked d2"
proof -
  note new = drive_morphism.open_seen [OF assms(1), symmetric, unfolded tper_open]
  obtain r c1 where 1: "opal_drive_new Q c = (r, c1)" by fastforce
  with new [of c] obtain d where d: "r = Ok d" "seen_drive ab d = \<lparr>drive_dev = \<lparr>device = ab c, com_id = tper_com_id,
      is_eprise = False, was_locked = True\<rparr>\<rparr>"
    using assms(4) by (cases r) auto
  have dv: "ab (device (drive_dev d)) = ab c" "com_id (drive_dev d) = tper_com_id" "\<not> is_eprise (drive_dev d)" "was_locked (drive_dev d)"
    using d(2) by (simp_all add: seen_drive_def seen_device_def)
  have "serial Q d = serial_num Q c"
    using drive_morphism.same_serial [OF assms(1)] dv(1) by (metis serial_def)
  then have key: "unlock_key kdf (serial Q d) pwd = (Ok (tp_pin (ab c)) :: ('err error, _) outcome)" using assms(6) by simp
  obtain r1 d1 where 2: "unlock Q (Suc fuel) kdf pwd d = (r1, d1)" by fastforce
  then have "present (tp_pin (ab c)) (ab c) = (r1, ab (device (drive_dev d1)))"
    using conforming_run [OF assms(1) dv(2,3) _ key assms(7,8) _ 2] assms(2,3) dv(1) by (simp add: answers_wide_def)
  then have r1: "r1 = Ok ()" "\<not> tp_read_locked (ab (device (drive_dev d1)))" "\<not> tp_write_locked (ab (device (drive_dev d1)))"
    using assms(5) by (auto dest: present_right)
  obtain r2 c2 where 3: "opal_drive_new Q (device (drive_dev d1)) = (r2, c2)" by fastforce
  with new [of "device (drive_dev d1)"] r1 obtain d2 where "r2 = Ok d2" "\<not> drive_was_locked d2"
    by (cases r2) (auto simp: seen_drive_def seen_device_def drive_was_locked_def)
  then show ?thesis using 1 2 3 d(1) r1(1) dv(4) by (auto simp: drive_was_locked_def)
qed

theorem locked_drive_opens_witness:
  "\<exists>c1 d d1 c2 d2. opal_drive_new (traced tper_drive :: (tper \<times> event list, unit) secure_protocol) (factory_drive, []) = (Ok d, c1) \<and>
    drive_was_locked d \<and> unlock (traced tper_drive :: (tper \<times> event list, unit) secure_protocol) (Suc 0) (\<lambda>p s n k. None) (Raw (replicate 32 7)) d = (Ok (), d1) \<and>
    opal_drive_new (traced tper_drive :: (tper \<times> event list, unit) secure_protocol) (device (drive_dev d1)) = (Ok d2, c2) \<and>
    \<not> drive_was_locked d2"
proof (rule locked_drive_opens [OF tracing.drive_morphism_axioms])
  show "unlock_key (\<lambda>p s n k. None) (serial_num (traced tper_drive) (factory_drive, [])) (Raw (replicate 32 7)) =
      (Ok (tp_pin (fst (factory_drive, [] :: event list))) :: (unit error, _) outcome)"
    by (simp add: unlock_key_def factory_drive_def)
qed (simp_all add: factory_drive_def ready_def)

text \<open>
  C18: a drive that sends session numbers in the shortest atoms, as the specification allows it,
  cannot be unlocked. The right key starts a session, but its numbers are read with the header bytes
  of their atoms, so that the drive hears none of the requests that follow, nor the one to close the
  session: the unlock fails, the drive stays locked, and it keeps the session open.
\<close>

theorem short_session_numbers_fail:
  fixes Q :: "('c, 'err) secure_protocol" and ab :: "'c \<Rightarrow> 'w tper_scheme"
  assumes "drive_morphism Q tper_drive ab" "t = ab (device (drive_dev d))"
    and "com_id (drive_dev d) = tper_com_id" "\<not> is_eprise (drive_dev d)"
    and "tp_session t = None" "tp_reply t = []" "\<not> tp_wide t" "tp_tries t \<noteq> 0"
    and "unlock_key kdf (serial Q d) pwd = (Ok (tp_pin t) :: ('err error, _) outcome)" "tp_pin t \<noteq> []" "length (tp_pin t) < 2048"
  shows "case unlock Q (Suc fuel) kdf pwd d of (r, d') \<Rightarrow> r = Err (Opal NoMethodStatus) \<and>
    ab (device (drive_dev d')) = t\<lparr>tp_tries := tp_limit t, tp_session := Some (tp_next t, 105), tp_next := tp_next t + 1\<rparr>"
proof -
  obtain r d' where run: "unlock Q (Suc fuel) kdf pwd d = (r, d')" by fastforce
  have "(unlock_device tper_drive (Suc fuel) kdf pwd (seen_device ab (drive_dev d)) :: ('err error, _) outcome \<times> _) =
      (Err (Opal NoMethodStatus), (seen_device ab (drive_dev d))\<lparr>device := opened t\<rparr>)"
    using short_numbers_run [where 'err = 'err and dv = "seen_device ab (drive_dev d)", of kdf pwd fuel]
      assms(2-) conforming_serial [OF assms(1)] by (simp add: seen_device_def)
  from conforming_unlock [OF assms(1) this run] show ?thesis using run assms(6) by (simp add: opened_def)
qed

theorem short_session_numbers_fail_witness:
  "\<exists>d'. unlock (traced tper_drive :: (tper \<times> event list, unit) secure_protocol) (Suc 0) (\<lambda>p s n k. None) (Raw (replicate 32 7))
      \<lparr>drive_dev = \<lparr>device = (narrow_drive, []), com_id = tper_com_id, is_eprise = False, was_locked = True\<rparr>\<rparr> = (Err (Opal NoMethodStatus), d') \<and>
    tp_read_locked (fst (device (drive_dev d'))) \<and> tp_session (fst (device (drive_dev d'))) = Some (0x1001, 105)"
  using short_session_numbers_fail [OF tracing.drive_morphism_axioms [of "tper_drive :: (tper, unit) secure_protocol"],
    of narrow_drive "\<lparr>drive_dev = \<lparr>device = (narrow_drive, []), com_id = tper_com_id, is_eprise = False, was_locked = True\<rparr>\<rparr>"
      "\<lambda>p s n k. None" "Raw (replicate 32 7)" 0]
  by (auto simp: narrow_drive_def unlock_key_def split: prod.splits)

end
