(* ===== verification/Attempts.thy ===== *)
theory Attempts imports Tper Search begin

text \<open>
  Passwords until one opens the drive: \<^verbatim>\<open>unlock_opal\<close> of \<^verbatim>\<open>src/main.rs\<close> against a drive that conforms
  to the reference drive of \<open>Tper\<close>, whose state is part of the machine. Wrong passwords cost tries; the
  loop ends when the right one comes while there are tries, or when the drive locks the authority
  out and the greeter resets the machine.
\<close>

section \<open>Supplying passwords\<close>

text \<open>
  \<open>J c ps\<close> are the states in which the passwords \<open>ps\<close> are about to be supplied, from the buffer or not as
  \<open>c\<close> says. \<open>attended\<close>: a prompt supplies the first and leaves the drive alone; an unlock leaves
  the passwords to come alone; the machine holds the drive.
\<close>

definition drive_now :: "('c \<Rightarrow> 't) \<Rightarrow> ('w \<Rightarrow> 'c \<Rightarrow> 'c) \<Rightarrow> ('w, 'k) greeter \<Rightarrow> 'c opal_drive \<Rightarrow> 't" where
  "drive_now ab pw s d = ab (pw (world s) (device (drive_dev d)))"

definition attended ::
  "'w platform \<Rightarrow> ('c, uefi_error) secure_protocol \<Rightarrow> ('c \<Rightarrow> 't) \<Rightarrow> ('c \<Rightarrow> 'w) \<Rightarrow> ('w \<Rightarrow> 'c \<Rightarrow> 'c) \<Rightarrow>
   (config_file \<Rightarrow> (('w, 'k) greeter, 'x greeter_error, u8 list) prog) \<Rightarrow> keyslot \<Rightarrow> nat \<Rightarrow>
   (cache \<Rightarrow> u8 list list \<Rightarrow> ('w, 'k) greeter set) \<Rightarrow> bool" where
  "attended F Q ab gw pw fetch ks N J \<longleftrightarrow>
     (\<forall>c. pw (gw c) c = c) \<and> (\<forall>w c. gw (pw w c) = w) \<and>
     (\<forall>c p ps s. s \<in> J c (p # ps) \<longrightarrow>
        (\<exists>s' \<in> J Discard ps. (\<forall>fuel. N \<le> fuel \<longrightarrow> get_password_of_keyslot F fuel fetch ks c s = (Ok p, s')) \<and>
           (\<forall>d. drive_now ab pw s' d = drive_now ab pw s d))) \<and>
     (\<forall>ps s fuel kdf pwd d. s \<in> J Discard ps \<longrightarrow> gw (device (drive_dev d)) = world s \<longrightarrow>
        s\<lparr>world := gw (device (drive_dev (snd (unlock Q fuel kdf pwd d))))\<rparr> \<in> J Discard ps)"

text \<open>A state of the loop: the drive as the machine holds it is \<open>t\<close>, and ready.\<close>

definition loop_at :: "('c \<Rightarrow> 'w tper_scheme) \<Rightarrow> ('v \<Rightarrow> 'c \<Rightarrow> 'c) \<Rightarrow> ('v, 'k) greeter \<Rightarrow> 'c opal_drive \<Rightarrow> 'w tper_scheme \<Rightarrow> bool" where
  "loop_at ab pw s d t \<longleftrightarrow> drive_now ab pw s d = t \<and> ready t \<and> com_id (drive_dev d) = tper_com_id \<and> \<not> is_eprise (drive_dev d)"

definition key_of :: "kdf \<Rightarrow> u8 list \<Rightarrow> keyslot \<Rightarrow> u8 list \<Rightarrow> u8 list option" where
  "key_of kdf salt ks p =
     (case (unlock_key kdf salt (password_or_raw_of (ks_source ks) p) :: (uefi_error error, _) outcome) of
        Ok k \<Rightarrow> if k \<noteq> [] \<and> length k < 2048 then Some k else None
      | _ \<Rightarrow> None)"

text \<open>What the loop makes of the result of an unlock.\<close>

definition settle ::
  "'w platform \<Rightarrow> kdf \<Rightarrow> ('d \<Rightarrow> 'w) \<Rightarrow> ('w \<Rightarrow> 'd \<Rightarrow> 'd) \<Rightarrow> ('d, uefi_error) secure_protocol \<Rightarrow> nat \<Rightarrow>
   (config_file \<Rightarrow> (('w, 'k) greeter, 'x greeter_error, u8 list) prog) \<Rightarrow> keyslot \<Rightarrow> (uefi_error error, unit) outcome \<Rightarrow>
   (('w, 'k) greeter \<times> 'd opal_drive, 'x greeter_error, unit) prog" where
  "settle F kdf gw pw Q fuel fetch ks r sd =
     (case r of
         Ok _ \<Rightarrow> (Ok (), sd)
       | Err e \<Rightarrow>
         (if e = Opal (Status NOT_AUTHORIZED) then unlock_loop F kdf gw pw Q fuel fetch ks Discard sd
          else if e = Opal (Status AUTHORITY_LOCKED_OUT) then
            pbind (on_greeter (on_world (write_str (pf_console F) ''Too many bad tries, SED locked out, resetting in 10s..''))) (\<lambda>_.
            pbind (on_greeter (on_world (sleep (pf_console F) 10 0))) (\<lambda>_. pure (Halt (ResetTo COLD)))) sd
          else (Err (error_new (OpalSource e) ''efi error trying to unlock device''), sd))
       | Halt h \<Rightarrow> (Halt h, sd))"

declare unlock_loop.simps(2) [simp del]

lemma attempt:
  fixes Q :: "('c, uefi_error) secure_protocol" and ab :: "'c \<Rightarrow> 't tper_scheme"
    and fetch :: "config_file \<Rightarrow> (('w, 'k) greeter, 'x greeter_error, u8 list) prog"
  assumes morph: "drive_morphism Q tper_drive ab" and att: "attended F Q ab gw pw fetch ks N J"
    and s: "s \<in> J c (p # ps)" and at: "loop_at ab pw s d t" and key: "key_of kdf (tp_serial t) ks p = Some k" and N: "N \<le> Suc fuel"
    and wide: "answers_wide k t"
  shows "\<exists>s' d' r t'. s' \<in> J Discard ps \<and> present k t = (r, t') \<and> loop_at ab pw s' d' t' \<and>
    unlock_loop F kdf gw pw Q (Suc fuel) fetch ks c (s, d) =
      settle F kdf gw pw Q fuel fetch ks r (s', d')"
proof -
  have hold: "pw (gw x) x = x" "gw (pw w x) = w" for x w using att by (auto simp: attended_def)
  obtain s1 where s1: "s1 \<in> J Discard ps" "get_password_of_keyslot F (Suc fuel) fetch ks c s = (Ok p, s1)"
    "drive_now ab pw s1 d = drive_now ab pw s d"
    using att s N unfolding attended_def by blast
  let ?d = "d\<lparr>drive_dev := (drive_dev d)\<lparr>device := pw (world s1) (device (drive_dev d))\<rparr>\<rparr>"
  have t: "ab (device (drive_dev ?d)) = t" "ready t" "com_id (drive_dev ?d) = tper_com_id" "\<not> is_eprise (drive_dev ?d)"
    using at s1(3) by (auto simp: loop_at_def drive_now_def)
  have "serial Q ?d = tp_serial t"
    using drive_morphism.same_serial [OF morph, of "device (drive_dev ?d)"] t(1) by (simp add: serial_def tper_drive_def)
  then have k: "unlock_key kdf (serial Q ?d) (password_or_raw_of (ks_source ks) p) = (Ok k :: (uefi_error error, _) outcome)"
    "k \<noteq> []" "length k < 2048"
    using key by (auto simp: key_of_def split: outcome.splits if_splits)
  obtain r d' where run: "unlock Q (Suc fuel) kdf (password_or_raw_of (ks_source ks) p) ?d = (r, d')" by fastforce
  let ?s = "s1\<lparr>world := gw (device (drive_dev d'))\<rparr>"
  have pres: "present k t = (r, ab (device (drive_dev d')))" and after: "ready (ab (device (drive_dev d')))"
    "com_id (drive_dev d') = tper_com_id" "\<not> is_eprise (drive_dev d')"
    using conforming_run [OF morph t(3,4) _ k _ run] t(1,2) wide by simp_all
  have "gw (device (drive_dev ?d)) = world s1" by (simp add: hold)
  then have "?s \<in> J Discard ps" using att s1(1) run unfolding attended_def by (metis snd_conv)
  moreover have "loop_at ab pw ?s d' (ab (device (drive_dev d')))" using after by (simp add: loop_at_def drive_now_def hold)
  moreover have "unlock_loop F kdf gw pw Q (Suc fuel) fetch ks c (s, d) =
      settle F kdf gw pw Q fuel fetch ks r (?s, d')"
    using s1(2) run by (cases r) (simp_all add: unlock_loop.simps(2) settle_def pbind_def [of "zoom fst _ _"] zoom_def on_drive_def)
  ultimately show ?thesis using pres by blast
qed

text \<open>A password that the drive refuses.\<close>

definition refused :: "kdf \<Rightarrow> keyslot \<Rightarrow> 't tper_scheme \<Rightarrow> u8 list \<Rightarrow> bool" where
  "refused kdf ks t p \<longleftrightarrow> (\<exists>k. key_of kdf (tp_serial t) ks p = Some k \<and> k \<noteq> tp_pin t)"

lemma present_refused:
  "refused kdf ks t p \<Longrightarrow> key_of kdf (tp_serial t) ks p = Some k \<Longrightarrow> tp_tries t \<noteq> 0 \<Longrightarrow>
     (present k t :: ('err error, unit) outcome \<times> _) = (Err (Opal (Status NOT_AUTHORIZED)), t\<lparr>tp_tries := tp_tries t - 1\<rparr>)"
  by (auto simp: refused_def present_def)

lemma refused_tries [simp]: "refused kdf ks (t\<lparr>tp_tries := n\<rparr>) p = refused kdf ks t p"
  by (simp add: refused_def)

lemma wrong_attempt:
  fixes Q :: "('c, uefi_error) secure_protocol" and ab :: "'c \<Rightarrow> 't tper_scheme"
    and fetch :: "config_file \<Rightarrow> (('w, 'k) greeter, 'x greeter_error, u8 list) prog"
  assumes "drive_morphism Q tper_drive ab" "attended F Q ab gw pw fetch ks N J" "s \<in> J c (p # ps)" "loop_at ab pw s d t"
    and wrong: "refused kdf ks t p" "tp_tries t \<noteq> 0" and "N \<le> Suc fuel"
  shows "\<exists>s' d'. s' \<in> J Discard ps \<and> loop_at ab pw s' d' (t\<lparr>tp_tries := tp_tries t - 1\<rparr>) \<and>
    unlock_loop F kdf gw pw Q (Suc fuel) fetch ks c (s, d) = unlock_loop F kdf gw pw Q fuel fetch ks Discard (s', d')"
proof -
  obtain k where k: "key_of kdf (tp_serial t) ks p = Some k" using wrong(1) by (auto simp: refused_def)
  then have "answers_wide k t" using wrong(1) by (auto simp: refused_def answers_wide_def)
  from attempt [OF assms(1-4) k assms(7) this] present_refused [where 'err = uefi_error, OF wrong(1) k wrong(2)]
  show ?thesis by (auto simp: settle_def)
qed

lemma right_attempt:
  fixes Q :: "('c, uefi_error) secure_protocol" and ab :: "'c \<Rightarrow> 't tper_scheme"
    and fetch :: "config_file \<Rightarrow> (('w, 'k) greeter, 'x greeter_error, u8 list) prog"
  assumes "drive_morphism Q tper_drive ab" "attended F Q ab gw pw fetch ks N J" "s \<in> J c (p # ps)" "loop_at ab pw s d t"
    and right: "key_of kdf (tp_serial t) ks p = Some (tp_pin t)" "tp_tries t \<noteq> 0" and "N \<le> Suc fuel" and wide: "tp_wide t"
  shows "\<exists>s' d' t'. unlock_loop F kdf gw pw Q (Suc fuel) fetch ks c (s, d) = (Ok (), (s', d')) \<and> s' \<in> J Discard ps \<and>
    loop_at ab pw s' d' t' \<and> \<not> tp_read_locked t' \<and> \<not> tp_write_locked t' \<and> tp_mbr_done t'"
proof -
  obtain s' d' r t' where at: "s' \<in> J Discard ps" "present (tp_pin t) t = (r, t')" "loop_at ab pw s' d' t'"
    "unlock_loop F kdf gw pw Q (Suc fuel) fetch ks c (s, d) = settle F kdf gw pw Q fuel fetch ks r (s', d')"
    using attempt [OF assms(1-4) right(1) assms(7)] wide unfolding answers_wide_def by blast
  with present_right [OF at(2) right(2)] show ?thesis by (auto simp: settle_def)
qed

lemma right_password:
  fixes Q :: "('c, uefi_error) secure_protocol" and ab :: "'c \<Rightarrow> 't tper_scheme"
    and fetch :: "config_file \<Rightarrow> (('w, 'k) greeter, 'x greeter_error, u8 list) prog"
  assumes "drive_morphism Q tper_drive ab" "attended F Q ab gw pw fetch ks N J" "N \<le> Suc fuel"
    and "s \<in> J c (wrong @ p # ps)" "loop_at ab pw s d t"
    and "\<forall>w \<in> set wrong. refused kdf ks t w" "length wrong < tp_tries t" "key_of kdf (tp_serial t) ks p = Some (tp_pin t)" "tp_wide t"
  shows "\<exists>s' d' t'. unlock_loop F kdf gw pw Q (Suc (length wrong + fuel)) fetch ks c (s, d) = (Ok (), (s', d')) \<and>
    s' \<in> J Discard ps \<and> loop_at ab pw s' d' t' \<and> \<not> tp_read_locked t' \<and> \<not> tp_write_locked t' \<and> tp_mbr_done t'"
  using assms(4-9)
proof (induction wrong arbitrary: c s d t)
  case Nil
  then show ?case using right_attempt [OF assms(1,2), of s c p ps d t kdf fuel] assms(3) by simp
next
  case (Cons w wrong)
  have "s \<in> J c (w # wrong @ p # ps)" "refused kdf ks t w" "tp_tries t \<noteq> 0" "N \<le> Suc (Suc (length wrong + fuel))"
    using Cons.prems assms(3) by auto
  from wrong_attempt [OF assms(1,2) this(1) Cons.prems(2) this(2-4)] obtain s' d' where step:
    "s' \<in> J Discard (wrong @ p # ps)" "loop_at ab pw s' d' (t\<lparr>tp_tries := tp_tries t - 1\<rparr>)"
    "unlock_loop F kdf gw pw Q (Suc (Suc (length wrong + fuel))) fetch ks c (s, d) =
       unlock_loop F kdf gw pw Q (Suc (length wrong + fuel)) fetch ks Discard (s', d')"
    by auto
  from Cons.IH [OF step(1,2)] Cons.prems step(3) show ?case by (auto simp: less_diff_conv)
qed

section \<open>Locking out\<close>

text \<open>A console that shows the message and waits, and leaves the drive alone.\<close>

definition console_ok :: "'w platform \<Rightarrow> ('c \<Rightarrow> 't) \<Rightarrow> ('w \<Rightarrow> 'c \<Rightarrow> 'c) \<Rightarrow> 'x itself \<Rightarrow> bool" where
  "console_ok F ab pw x \<longleftrightarrow>
     (\<forall>m w. \<exists>w'. write_str (pf_console F) m w = ((Ok () :: ('x greeter_error, _) outcome), w') \<and> (\<forall>c. ab (pw w' c) = ab (pw w c))) \<and>
     (\<forall>n k w. \<exists>w'. sleep (pf_console F) n k w = ((Ok () :: ('x greeter_error, _) outcome), w') \<and> (\<forall>c. ab (pw w' c) = ab (pw w c)))"

lemma console_okD:
  assumes "console_ok F ab pw TYPE('x)"
  shows "\<exists>w'. write_str (pf_console F) m w = ((Ok () :: ('x greeter_error, _) outcome), w') \<and> (\<forall>c. ab (pw w' c) = ab (pw w c))"
    "\<exists>w'. sleep (pf_console F) n k w = ((Ok () :: ('x greeter_error, _) outcome), w') \<and> (\<forall>c. ab (pw w' c) = ab (pw w c))"
  using assms unfolding console_ok_def by blast+

lemma no_tries_left:
  fixes Q :: "('c, uefi_error) secure_protocol" and ab :: "'c \<Rightarrow> 't tper_scheme"
    and fetch :: "config_file \<Rightarrow> (('w, 'k) greeter, 'x greeter_error, u8 list) prog"
  assumes "drive_morphism Q tper_drive ab" "attended F Q ab gw pw fetch ks N J" "s \<in> J c (p # ps)" "loop_at ab pw s d t"
    and "key_of kdf (tp_serial t) ks p = Some k" "tp_tries t = 0" "N \<le> Suc fuel" and con: "console_ok F ab pw TYPE('x)"
  shows "\<exists>s' d'. unlock_loop F kdf gw pw Q (Suc fuel) fetch ks c (s, d) = (Halt (ResetTo COLD), (s', d')) \<and> loop_at ab pw s' d' t"
proof -
  have "(present k t :: (uefi_error error, unit) outcome \<times> _) = (Err (Opal (Status AUTHORITY_LOCKED_OUT)), t)"
    using assms(6) by (simp add: present_def)
  then obtain s' d' where at: "loop_at ab pw s' d' t"
    "unlock_loop F kdf gw pw Q (Suc fuel) fetch ks c (s, d) =
      settle F kdf gw pw Q fuel fetch ks (Err (Opal (Status AUTHORITY_LOCKED_OUT))) (s', d')"
    using attempt [OF assms(1-5,7)] assms(6) by (auto simp: answers_wide_def)
  obtain w1 where w1: "write_str (pf_console F) ''Too many bad tries, SED locked out, resetting in 10s..'' (world s') =
      ((Ok () :: ('x greeter_error, _) outcome), w1)" "\<forall>c. ab (pw w1 c) = ab (pw (world s') c)"
    using console_okD(1) [OF con] by blast
  obtain w2 where w2: "sleep (pf_console F) 10 0 w1 = ((Ok () :: ('x greeter_error, _) outcome), w2)" "\<forall>c. ab (pw w2 c) = ab (pw w1 c)"
    using console_okD(2) [OF con] by blast
  have "settle F kdf gw pw Q fuel fetch ks (Err (Opal (Status AUTHORITY_LOCKED_OUT))) (s', d') =
      (Halt (ResetTo COLD), (s'\<lparr>world := w2\<rparr>, d'))"
    using w1(1) w2(1) by (simp add: settle_def pbind_def zoom_def pure_def AUTHORITY_LOCKED_OUT_def NOT_AUTHORIZED_def)
  moreover have "loop_at ab pw (s'\<lparr>world := w2\<rparr>) d' t"
    using at(1) w1(2) w2(2) by (simp add: loop_at_def drive_now_def)
  ultimately show ?thesis using at(2) by auto
qed

lemma wrong_passwords:
  fixes Q :: "('c, uefi_error) secure_protocol" and ab :: "'c \<Rightarrow> 't tper_scheme"
    and fetch :: "config_file \<Rightarrow> (('w, 'k) greeter, 'x greeter_error, u8 list) prog"
  assumes "drive_morphism Q tper_drive ab" "attended F Q ab gw pw fetch ks N J" "N \<le> Suc fuel" "console_ok F ab pw TYPE('x)"
    and "s \<in> J c (wrong @ p # ps)" "loop_at ab pw s d t"
    and "\<forall>w \<in> set wrong. refused kdf ks t w" "length wrong = tp_tries t" "key_of kdf (tp_serial t) ks p = Some k"
  shows "\<exists>s' d'. unlock_loop F kdf gw pw Q (Suc (length wrong + fuel)) fetch ks c (s, d) = (Halt (ResetTo COLD), (s', d')) \<and>
    loop_at ab pw s' d' (t\<lparr>tp_tries := 0\<rparr>)"
  using assms(5-9)
proof (induction wrong arbitrary: c s d t)
  case Nil
  have eq: "t\<lparr>tp_tries := 0\<rparr> = t" using Nil(4) by simp
  show ?case unfolding eq using no_tries_left [OF assms(1,2), of s c p ps d t kdf k fuel] Nil assms(3,4) by simp
next
  case (Cons w wrong)
  have "s \<in> J c (w # wrong @ p # ps)" "refused kdf ks t w" "tp_tries t \<noteq> 0" "N \<le> Suc (Suc (length wrong + fuel))"
    using Cons.prems assms(3) by auto
  from wrong_attempt [OF assms(1,2) this(1) Cons.prems(2) this(2-4)] obtain s' d' where step:
    "s' \<in> J Discard (wrong @ p # ps)" "loop_at ab pw s' d' (t\<lparr>tp_tries := tp_tries t - 1\<rparr>)"
    "unlock_loop F kdf gw pw Q (Suc (Suc (length wrong + fuel))) fetch ks c (s, d) =
       unlock_loop F kdf gw pw Q (Suc (length wrong + fuel)) fetch ks Discard (s', d')"
    by auto
  have "\<forall>x \<in> set wrong. refused kdf ks (t\<lparr>tp_tries := tp_tries t - 1\<rparr>) x" "length wrong = tp_tries (t\<lparr>tp_tries := tp_tries t - 1\<rparr>)"
    "key_of kdf (tp_serial (t\<lparr>tp_tries := tp_tries t - 1\<rparr>)) ks p = Some k"
    using Cons.prems(3-5) by auto
  from Cons.IH [OF step(1,2) this] step(3) show ?case by (simp only: list.size add_Suc add_Suc_right add_0_right) simp
qed

section \<open>Properties\<close>

text \<open>
  C4: on a drive that conforms to the reference drive and sends session numbers in atoms of four
  bytes, the right password unlocks the drive after fewer wrong ones than there are tries: the loop
  ends without an error, the global range of the drive is open and MBRDone is set. One unit of
  fuel per password is enough.
\<close>

theorem right_password_unlocks:
  fixes Q :: "('c, uefi_error) secure_protocol" and ab :: "'c \<Rightarrow> 't tper_scheme"
    and fetch :: "config_file \<Rightarrow> (('w, 'k) greeter, 'x greeter_error, u8 list) prog"
  assumes "drive_morphism Q tper_drive ab" "attended F Q ab gw pw fetch ks N J" "N \<le> Suc fuel"
    and "s \<in> J Cached (wrong @ p # ps)" "loop_at ab pw s d t" "drive_was_locked d"
    and "\<forall>w \<in> set wrong. refused kdf ks t w" "length wrong < tp_tries t" "key_of kdf (tp_serial t) ks p = Some (tp_pin t)" "tp_wide t"
  shows "\<exists>s' d' t'. unlock_opal F kdf gw pw Q (Suc (length wrong + fuel)) fetch ks d s = (Ok (), s') \<and>
    loop_at ab pw s' d' t' \<and> \<not> tp_read_locked t' \<and> \<not> tp_write_locked t' \<and> tp_mbr_done t'"
proof -
  obtain s' d' t' where "unlock_loop F kdf gw pw Q (Suc (length wrong + fuel)) fetch ks Cached (s, d) = (Ok (), (s', d'))"
    "loop_at ab pw s' d' t' \<and> \<not> tp_read_locked t' \<and> \<not> tp_write_locked t' \<and> tp_mbr_done t'"
    using right_password [OF assms(1-5,7-10)] by blast
  then show ?thesis using assms(6) by (auto simp: unlock_opal_def)
qed

text \<open>
  C6: wrong passwords lock the drive out. After as many wrong passwords as there are tries the next
  one, right or wrong, makes the greeter say so and reset the machine, and the drive is as it was, but
  for the tries. The password may well be the content of a key file, which nobody can correct: a
  wrong key file uses up all tries by itself.
\<close>

theorem wrong_passwords_lock_out:
  fixes Q :: "('c, uefi_error) secure_protocol" and ab :: "'c \<Rightarrow> 't tper_scheme"
    and fetch :: "config_file \<Rightarrow> (('w, 'k) greeter, 'x greeter_error, u8 list) prog"
  assumes "drive_morphism Q tper_drive ab" "attended F Q ab gw pw fetch ks N J" "N \<le> Suc fuel" "console_ok F ab pw TYPE('x)"
    and "s \<in> J Cached (wrong @ p # ps)" "loop_at ab pw s d t" "drive_was_locked d"
    and "\<forall>w \<in> set wrong. refused kdf ks t w" "length wrong = tp_tries t" "key_of kdf (tp_serial t) ks p = Some k"
  shows "\<exists>s' d'. unlock_opal F kdf gw pw Q (Suc (length wrong + fuel)) fetch ks d s = (Halt (ResetTo COLD), s') \<and>
    loop_at ab pw s' d' (t\<lparr>tp_tries := 0\<rparr>)"
proof -
  obtain s' d' where "unlock_loop F kdf gw pw Q (Suc (length wrong + fuel)) fetch ks Cached (s, d) = (Halt (ResetTo COLD), (s', d'))"
    "loop_at ab pw s' d' (t\<lparr>tp_tries := 0\<rparr>)"
    using wrong_passwords [OF assms(1-6,8-10)] by blast
  then show ?thesis using assms(7) by (auto simp: unlock_opal_def)
qed

section \<open>Witnesses\<close>

text \<open>
  A machine in which nothing moves but the drive. One key file is wrong at first and is then
  corrected, the other stays wrong.
\<close>

definition key_slot :: keyslot where
  "key_slot = \<lparr>ks_name = ''k'', ks_source = KeyFile \<lparr>cf_partition = ''p'', cf_extra_partitions = [], cf_file = ''f''\<rparr>\<rparr>"

definition wrong_key :: "u8 list" where "wrong_key = replicate 32 1"

definition corrected_key :: "config_file \<Rightarrow> ((unit, unit) greeter, unit greeter_error, u8 list) prog" where
  "corrected_key f s = (Ok (if keyslot_buffer s ''k'' = None then wrong_key else tp_pin factory_drive), s)"

definition lasting_key :: "config_file \<Rightarrow> ((unit, unit) greeter, unit greeter_error, u8 list) prog" where
  "lasting_key f s = (Ok wrong_key, s)"

abbreviation still :: "unit \<Rightarrow> tper \<Rightarrow> tper" where "still \<equiv> \<lambda>_ c. c"

definition found_locked :: "tper opal_drive" where
  "found_locked = \<lparr>drive_dev = \<lparr>device = factory_drive, com_id = tper_com_id, is_eprise = False, was_locked = True\<rparr>\<rparr>"

definition blank :: "(unit, unit) greeter" where
  "blank = \<lparr>world = (), keyslot_buffer = Map.empty, masterkey_buffer = Map.empty\<rparr>"

definition correcting :: "cache \<Rightarrow> u8 list list \<Rightarrow> (unit, unit) greeter set" where
  "correcting c ps = {s. case c of
      Cached \<Rightarrow> ps = [wrong_key, tp_pin factory_drive] \<and> keyslot_buffer s ''k'' = None
    | Discard \<Rightarrow> ps = [tp_pin factory_drive] \<and> keyslot_buffer s ''k'' = Some wrong_key \<or> ps = []}"

definition lasting :: "cache \<Rightarrow> u8 list list \<Rightarrow> (unit, unit) greeter set" where
  "lasting c ps = {s. set ps \<subseteq> {wrong_key} \<and> keyslot_buffer s ''k'' \<in> {None, Some wrong_key}}"

lemma attended_correcting: "attended idle_platform tper_drive id (\<lambda>_. ()) still corrected_key key_slot 0 correcting"
  unfolding attended_def
  by (auto simp: correcting_def get_password_of_keyslot_def key_slot_def corrected_key_def pbind_def drive_now_def
      split: cache.splits)

lemma attended_lasting: "attended idle_platform tper_drive id (\<lambda>_. ()) still lasting_key key_slot 0 lasting"
  unfolding attended_def
  by (auto simp: lasting_def get_password_of_keyslot_def key_slot_def lasting_key_def pbind_def drive_now_def
      split: cache.splits option.splits)

lemma reference_conforms: "drive_morphism tper_drive tper_drive id"
  by unfold_locales auto

lemma loop_at_blank: "loop_at id still blank found_locked factory_drive"
  by (simp add: loop_at_def drive_now_def found_locked_def ready_def factory_drive_def)

lemma factory_keys:
  "refused kdf key_slot factory_drive wrong_key"
  "key_of kdf (tp_serial factory_drive) key_slot (tp_pin factory_drive) = Some (tp_pin factory_drive)"
  "key_of kdf (tp_serial factory_drive) key_slot wrong_key = Some wrong_key"
  by (simp_all add: refused_def key_of_def key_slot_def wrong_key_def unlock_key_def factory_drive_def replicate_eq_replicate)

theorem right_password_unlocks_witness:
  "\<exists>s' d' t'. unlock_opal idle_platform (\<lambda>p s n k. None) (\<lambda>_. ()) still tper_drive (Suc (Suc 0)) corrected_key key_slot found_locked blank =
      (Ok (), s') \<and> loop_at id still s' d' t' \<and> \<not> tp_read_locked t'"
proof -
  have "blank \<in> correcting Cached ([wrong_key] @ tp_pin factory_drive # [])"
    by (simp add: correcting_def blank_def)
  from right_password_unlocks [OF reference_conforms attended_correcting _ this loop_at_blank, of 0 "\<lambda>p s n k. None"]
  show ?thesis using factory_keys by (auto simp: found_locked_def drive_was_locked_def factory_drive_def)
qed

theorem wrong_passwords_lock_out_witness:
  "\<exists>s' d'. unlock_opal idle_platform (\<lambda>p s n k. None) (\<lambda>_. ()) still tper_drive (Suc (Suc (Suc 0))) lasting_key key_slot found_locked blank =
      (Halt (ResetTo COLD), s') \<and> loop_at id still s' d' (factory_drive\<lparr>tp_tries := 0\<rparr>)"
proof -
  have "blank \<in> lasting Cached ([wrong_key, wrong_key] @ wrong_key # [])"
    by (simp add: lasting_def blank_def)
  moreover have "console_ok idle_platform id still TYPE(unit)"
    by (simp add: console_ok_def idle_platform_def write_str_def sleep_def pbind_def unwrapped_def)
  ultimately show ?thesis
    using wrong_passwords_lock_out [OF reference_conforms attended_lasting, of 0 blank "[wrong_key, wrong_key]" wrong_key "[]"
        found_locked factory_drive "\<lambda>p s n k. None" wrong_key] loop_at_blank factory_keys
    by (simp add: found_locked_def drive_was_locked_def factory_drive_def)
qed

end
