(* ===== verification/Greeter.thy ===== *)
theory Greeter imports Boot begin

text \<open>
  The greeter as a whole: how \<^verbatim>\<open>main\<close> of \<^verbatim>\<open>src/main.rs\<close> ends, and what one disk that is not an Opal
  drive does to it.
\<close>

section \<open>How the greeter ends\<close>

definition halts :: "('e, 'a) outcome \<Rightarrow> bool" where
  "halts r \<longleftrightarrow> (\<exists>h. r = Halt h)"

lemma halts_pbind: "(\<And>a s. halts (fst (k a s))) \<Longrightarrow> (\<And>s e. fst (m s) \<noteq> Err e) \<Longrightarrow> halts (fst (pbind m k s))"
  by (cases "m s"; cases "fst (m s)") (auto simp: pbind_def halts_def, metis fst_conv)

lemma ignoring_no_Err: "fst (ignoring m s) \<noteq> Err e"
  by (auto simp: ignoring_def split: prod.splits outcome.splits)

lemma exit_halts: "halts (fst (exit_greeter C fuel w))"
  unfolding exit_greeter_def by (rule halts_pbind) (auto simp: pure_def halts_def ignoring_no_Err)

lemma run_loop_no_Err: "fst (run_loop fuel body s) \<noteq> Err e"
  by (induction fuel arbitrary: s) (auto simp: pure_def split: prod.splits outcome.splits)

lemma halts_zoom: "(\<And>x. halts (fst (m x))) \<Longrightarrow> halts (fst (zoom g p m s))"
  by (auto simp: zoom_def split: prod.splits) (metis fst_conv)

section \<open>A disk that is not an Opal drive\<close>

text \<open>
  What opening such a disk does: it is no NVMe disk, its device path leads to a SATA port, and the
  drive behind the port identifies itself but cannot be opened as an Opal drive (it does not know
  the command, or answers as no Opal drive does). \<open>w\<close> and \<open>w'\<close> are the machine before and after,
  and \<open>e\<close> is the error.
\<close>

definition plain_sata :: "'w platform \<Rightarrow> nat \<Rightarrow> 'w \<Rightarrow> uefi_error error \<Rightarrow> 'w \<Rightarrow> 'x itself \<Rightarrow> bool" where
  "plain_sata F h w e w' x \<longleftrightarrow> (\<exists>w0 path w1 t w2 ata path' w3 t' w4 A w5 proto w6.
     try_get_nvme_device F h w = ((Ok None :: ('x greeter_error, _) outcome), w0) \<and>
     pf_get_device_path F h w0 = (Ok path, w1) \<and> path_text F ''dtos: '' path w1 = ((Ok t :: ('x greeter_error, _) outcome), w2) \<and>
     pf_locate_ata F path w2 = (Ok ata, path', w3) \<and> path_text F ''dtos: '' path' w3 = ((Ok t' :: ('x greeter_error, _) outcome), w4) \<and>
     pf_open_ata F ata w4 = (Ok A, w5) \<and> try_make A path' h w5 = ((Ok proto :: ('x greeter_error, _) outcome), w6) \<and>
     opal_on ata_fw ata_world (ata_secure_protocol A (pf_services F)) proto w6 = (Err e, w'))"

lemma plain_sata_fails:
  fixes F :: "'w platform"
  assumes "plain_sata F h w e w' TYPE('x)"
  obtains w0 where "try_get_nvme_device F h w = ((Ok None :: ('x greeter_error, _) outcome), w0)"
    "try_get_ata_device F h w0 = ((Err (error_new (OpalSource e) ''error opening opal'') :: ('x greeter_error, _) outcome), w')"
  using assms unfolding plain_sata_def
  by (elim exE conjE) (rule that, assumption, simp add: try_get_ata_device_def pbind_def uefi_context_def context_from_def pmap_err_def)

text \<open>
  What is left of the path, and the state, when the search has gone past some devices without
  finding the file and without an error.
\<close>

fun passed ::
  "(nat \<times> u64 \<times> u64 \<Rightarrow> partition list \<Rightarrow> string \<Rightarrow> (('w, 'k) greeter, 'x greeter_error, partition list \<times> u8 list option) prog) \<Rightarrow>
   (nat \<times> u64 \<times> u64) list \<Rightarrow> partition list \<Rightarrow> string \<Rightarrow> ('w, 'k) greeter \<Rightarrow> (partition list \<times> ('w, 'k) greeter) option" where
  "passed search [] ps file s = Some (ps, s)"
| "passed search (d # ds) ps file s =
     (case search d ps file s of
        (Ok (ps, None), s) \<Rightarrow> passed search ds ps file s
      | _ \<Rightarrow> None)"

lemma passed_loop:
  "passed search ds ps file s = Some (ps', s') \<Longrightarrow>
     find_read_file_loop search (ds @ es) ps file s = find_read_file_loop search es ps' file s'"
  by (induction ds arbitrary: ps s) (auto simp: pbind_def split: prod.splits outcome.splits option.splits)

lemma pbind_replace:
  "pbind m k s = (Ok b, t) \<Longrightarrow> (\<And>a s1. k a s1 = (Ok b, t) \<Longrightarrow> k' a s1 = r) \<Longrightarrow> pbind m k' s = r"
  by (auto simp: pbind_def split: prod.splits outcome.splits)

lemma unlock_drives_append:
  "unlock_drives_loop F G kdf cfg fetch fuel hs s = (Ok (), s') \<Longrightarrow>
     unlock_drives_loop F G kdf cfg fetch fuel (hs @ hs') s = unlock_drives_loop F G kdf cfg fetch fuel hs' s'"
proof (induction hs arbitrary: s)
  case (Cons h hs)
  from Cons.prems show ?case unfolding append_Cons unlock_drives_loop.simps
    by (rule pbind_replace) (erule pbind_replace, erule Cons.IH)
qed (simp add: pure_def)

lemma plain_sata_search:
  assumes "plain_sata F h (world s) e w' TYPE('x)"
  shows "find_read_file_loop (search_device F G kdf cfg fetch fuel) ((h, a, b) # ds) ps file s =
    ((Err (error_new (OpalSource e) ''error opening opal'') :: ('x greeter_error, _) outcome), s\<lparr>world := w'\<rparr>)"
  by (rule plain_sata_fails [OF assms]) (simp add: search_device_def pbind_def zoom_def pure_def)

lemma plain_sata_unlocking:
  assumes "plain_sata F h (world s) e w' TYPE('x)"
  shows "unlock_drives_loop F G kdf cfg fetch fuel (h # hs) s =
    ((Err (error_new (OpalSource e) ''error opening opal'') :: ('x greeter_error, _) outcome), s\<lparr>world := w'\<rparr>)"
  by (rule plain_sata_fails [OF assms]) (simp add: pbind_def zoom_def pure_def)

section \<open>Properties\<close>

text \<open>
  C25: the greeter never returns to the firmware: whatever the configuration, the devices and the user
  do, it ends in a reset or a panic, or goes on.
\<close>

theorem main_never_returns: "\<exists>h. fst (main F G kdf L fuel image_handle s) = Halt h"
proof -
  have exit: "halts (fst (on_world (exit_greeter (pf_console F) fuel) t))" for t
    by (rule halts_zoom [OF exit_halts])
  have "halts (fst (pbind (run_loop fuel body) (\<lambda>_. on_world (exit_greeter (pf_console F) fuel)) t))" for body t
    by (rule halts_pbind [OF exit run_loop_no_Err])
  with exit show ?thesis
    unfolding main_def halts_def by (auto split: prod.splits outcome.splits)
qed

text \<open>
  C24: a SATA disk that cannot be opened as an Opal drive ends every search that reaches it and every
  unlocking of the drives that reaches it, with an error and whatever devices follow. A search
  reaches it if the devices before it do not hold the file and cause no error, the unlocking if it
  is through with the devices before.
\<close>

theorem plain_sata_disk_ends_search:
  fixes F :: "'w platform" and s :: "('w, 'k) greeter" and G :: "('r, 'k, 'x) formats"
    and fetch :: "config_file \<Rightarrow> (('w, 'k) greeter, 'x greeter_error, u8 list) prog"
  assumes "block_devices F (world s) = ((Ok (before @ (h, a, b) # behind) :: ('x greeter_error, _) outcome), w0)"
  shows "(\<forall>ps' s' e w'. passed (search_device F G kdf cfg fetch fuel) before ps file (s\<lparr>world := w0\<rparr>) = Some (ps', s') \<and>
      plain_sata F h (world s') e w' TYPE('x) \<longrightarrow>
      find_read_file F G kdf cfg fetch fuel ps file s =
        (Err (error_new (OpalSource e) ''error opening opal''), s'\<lparr>world := w'\<rparr>)) \<and>
    (\<forall>s' e w'. unlock_drives_loop F G kdf cfg (resolve_and_read_file F G kdf cfg fuel) fuel (map fst before) (s\<lparr>world := w0\<rparr>) = (Ok (), s') \<and>
      plain_sata F h (world s') e w' TYPE('x) \<longrightarrow>
      handle_unlock_configured_opal_drives F G kdf cfg fuel s =
        (Err (error_new (OpalSource e) ''error opening opal''), s'\<lparr>world := w'\<rparr>))"
  using assms
  by (auto simp del: find_read_file_loop.simps unlock_drives_loop.simps
      simp: find_read_file_def handle_unlock_configured_opal_drives_def pbind_def zoom_def passed_loop unlock_drives_append
        plain_sata_search plain_sata_unlocking)

section \<open>Witnesses\<close>

text \<open>
  Three disks, the last of which holds the file of \<open>ext4_formats [1, 2, 3]\<close>. The first has a spurious
  size and is skipped. The second is on a SATA port that answers everything with zeroes.
\<close>

definition zero_ata :: "unit ata_passthru" where
  "zero_ata = ramp_ata\<lparr>ap_pass_thru := (\<lambda>port pmp p d. (STATUS_SUCCESS, replicate 2048 0, d))\<rparr>"

definition three_disks :: "unit platform" where
  "three_disks = disk_platform
     \<lparr>pf_block_handles := (\<lambda>w. (Ok [8, 6, 7], w)),
      pf_open_block_io := (\<lambda>h w. (Ok (\<lparr>lowest_aligned_lba = 0, last_block = if h = 8 then 0xffffffff else 9, is_logical_partition = False\<rparr>,
        \<lparr>media_id = 0, media_block_size = if h = 8 then 65535 else 512, io_read_blocks = (\<lambda>m l n. Ok (replicate n 0))\<rparr>), w)),
      pf_get_device_path := (\<lambda>h w. (Ok (if h = 6 then [] else [0x7F]), w)),
      pf_locate_ata := (\<lambda>p w. (if p = [] then Ok 5 else Err STATUS_NOT_FOUND, p, w)), pf_open_ata := (\<lambda>h w. (Ok zero_ata, w))\<rparr>"

definition zero_disk :: "nat \<Rightarrow> unit ata_protocol" where
  "zero_disk h = \<lparr>ata_fw = (), ata_port = 2, ata_pmp = 5, ata_serial = replicate 20 0, ata_handle = h\<rparr>"

lemma zero_align: "ata_io_align (ap_mode zero_ata) = 4"
  by (simp add: zero_ata_def)

lemma byteswap_zeroes: "byteswap (replicate (2 * n) 0) = replicate (2 * n) 0"
  by (induction n) simp_all

lemma zero_device: "ap_get_device zero_ata path d = (STATUS_SUCCESS, (2, 5), d)"
  by (simp add: zero_ata_def)

lemma zero_make: "try_make zero_ata [] h () = ((Ok (zero_disk h) :: (unit greeter_error, _) outcome), ())"
proof -
  have "do_io zero_ata 2 5 Identify () = ((Ok (replicate 2048 0) :: (status, _) outcome), ())"
    using zero_align by (simp add: do_io_recv_eq to_result_def zero_ata_def landed_def)
  then show ?thesis
    using byteswap_zeroes [of 10]
    by (simp add: try_make_def get_serial_num_def uefi_context_def pmap_err_def pbind_def pure_def to_result_def
        zero_disk_def zero_device)
qed

lemma zero_open:
  "opal_on ata_fw ata_world (ata_secure_protocol zero_ata calm_services) proto () = (Err IncompatibleVersion, ())"
proof -
  let ?P = "ata_secure_protocol zero_ata calm_services"
  note al = zero_align
  have recv: "ata_recv zero_ata 1 1 (replicate 1024 0) proto = (Ok (replicate 1024 0), proto)"
    by (simp add: ata_recv_def do_io_recv_eq al pbind_def pmap_err_def zoom_def to_result_def pure_def Let_def zero_ata_def
        landed_def overwrite_def)
  have "secure_device_new ?P proto = (Err IncompatibleVersion, proto)"
    by (rule other_version_refused [where buf = "replicate 1024 0"])
      (use recv in \<open>simp_all add: ata_secure_protocol_def al layout_ok_def is_power_of_two_def replicate_small\<close>)
  moreover have same: "ata_world () proto = proto" by (cases proto) simp
  ultimately show ?thesis unfolding opal_on_def same by (simp add: opal_drive_new_def pbind_def)
qed

lemma three_devices:
  "block_devices three_disks w = ((Ok ([(8, 0, 0xffffffff)] @ (6, 0, 9) # [(7, 0, 9)]) :: ('x greeter_error, _) outcome), w)"
  by (simp add: block_devices_def three_disks_def disk_machine_def pbind_def uefi_context_def pmap_err_def pure_def)

lemma no_nvme: "try_get_nvme_device three_disks h w = (Ok None, w)"
  by (simp add: try_get_nvme_device_def three_disks_def disk_machine_def idle_platform_def path_text_def pbind_def uefi_context_def
      pmap_err_def pure_def)

lemma zero_plain: "plain_sata three_disks 6 () IncompatibleVersion () TYPE(unit)"
proof -
  have path: "pf_get_device_path three_disks 6 () = (Ok [], ())"
    "path_text three_disks ctx [] () = ((Ok '''' :: (unit greeter_error, _) outcome), ())"
    "pf_locate_ata three_disks [] () = (Ok 5, [], ())" "pf_open_ata three_disks 5 () = (Ok zero_ata, ())"
    "pf_services three_disks = calm_services" for ctx
    by (simp_all add: three_disks_def disk_machine_def idle_platform_def path_text_def pbind_def pmap_err_def pure_def)
  show ?thesis unfolding plain_sata_def
    by (intro exI conjI, rule no_nvme, rule path(1), rule path(2), rule path(3), rule path(2), rule path(4), rule zero_make)
      (simp only: path(5) zero_open)
qed

lemma spurious_passed:
  fixes s :: "(unit, 'k) greeter"
  shows "search_device three_disks G kdf cfg fetch fuel (8, 0, 0xffffffff) ps file s = (Ok (ps, None), s)"
proof -
  have ata: "try_get_ata_device three_disks 8 w = (Ok None, w)" for w
    by (simp add: try_get_ata_device_def three_disks_def disk_machine_def idle_platform_def path_text_def
        pbind_def uefi_context_def pmap_err_def pure_def)
  obtain m io where io: "pf_open_block_io three_disks 8 w = (Ok (m, io), w)" "spurious 0 0xffffffff io" for w
    by (simp add: three_disks_def spurious_def)
  show ?thesis
    by (simp add: search_device_def no_nvme ata io uefi_context_def pmap_err_def pbind_def pure_def zoom_def)
qed

theorem plain_sata_disk_ends_search_witness:
  "find_read_file three_disks (ext4_formats [1, 2, 3]) (\<lambda>p s n k. None) nested_config (\<lambda>f s. (Panic, s)) 9
     [\<lparr>pt_name = ''outer'', pt_parent = None, pt_uuid = ''1'', pt_keyslot = None\<rparr>] ''f''
     \<lparr>world = (), keyslot_buffer = (\<lambda>_. None), masterkey_buffer = (\<lambda>_. None)\<rparr> =
   (Err (error_new (OpalSource IncompatibleVersion) ''error opening opal''),
    \<lparr>world = (), keyslot_buffer = (\<lambda>_. None), masterkey_buffer = (\<lambda>_. None)\<rparr>)"
proof -
  let ?s = "\<lparr>world = (), keyslot_buffer = (\<lambda>_. None), masterkey_buffer = (\<lambda>_. None :: unit option)\<rparr>"
  show ?thesis
    by (rule conjunct1 [OF plain_sata_disk_ends_search [where s = ?s and 'x = unit, OF three_devices], rule_format,
          where s' = ?s and w' = "()", simplified])
      (simp add: spurious_passed zero_plain)
qed

end
