(* ===== verification/Frame.thy ===== *)
theory Frame imports Boot begin

text \<open>
  What the greeter does not touch. A computation stays \<open>within\<close> a relation on the state of the
  machine if its final state, on every exit, is related to the first one. The locale \<open>frame\<close> has the
  rules for a reflexive and transitive relation, in the collection \<open>frame_intros\<close>: every way in which
  the model composes computations keeps it. On a machine whose firmware calls stay within the relation
  (\<open>quiet_platform\<close>), every function of the program up to the start of an image does.
\<close>

section \<open>The relation\<close>

named_theorems frame_intros \<open>computations that stay within a relation\<close>

definition within :: "('s \<Rightarrow> 'w) \<Rightarrow> ('w \<Rightarrow> 'w \<Rightarrow> bool) \<Rightarrow> ('s, 'e, 'a) prog \<Rightarrow> bool" where
  "within f R m \<longleftrightarrow> (\<forall>s. R (f s) (f (snd (m s))))"

lemma withinD: "within f R m \<Longrightarrow> m s = (r, t) \<Longrightarrow> R (f s) (f t)"
  by (metis within_def snd_conv)

lemma withinI: "(\<And>s r t. m s = (r, t) \<Longrightarrow> R (f s) (f t)) \<Longrightarrow> within f R m"
  by (metis within_def surjective_pairing)

lemma within_keeps: "keeps (\<lambda>s t. R (f s) (f t)) m \<longleftrightarrow> within f R m"
  by (simp add: keeps_def within_def)

abbreviation on_machine :: "('w \<Rightarrow> 'w \<Rightarrow> bool) \<Rightarrow> ('w, 'e, 'a) prog \<Rightarrow> bool" where
  "on_machine \<equiv> within (\<lambda>w. w)"

abbreviation beside :: "(('w, 'k) greeter \<times> 'r) \<Rightarrow> 'w" where
  "beside \<equiv> (\<lambda>sr. world (fst sr))"

text \<open>The calls of the firmware that a relation has to admit.\<close>

definition quiet_console :: "('w \<Rightarrow> 'w \<Rightarrow> bool) \<Rightarrow> 'w console \<Rightarrow> bool" where
  "quiet_console R C \<longleftrightarrow>
     on_machine R (con_read_key C) \<and> on_machine R (con_wait_for_key C) \<and> (\<forall>x. on_machine R (con_output_string C x)) \<and>
     (\<forall>x w. R w (snd (con_write_str C x w))) \<and> (\<forall>x y. on_machine R (con_set_cursor C x y)) \<and>
     on_machine R (con_create_timer C) \<and> (\<forall>x y. on_machine R (con_set_timer C x y)) \<and>
     (\<forall>x. on_machine R (con_wait_for_event C x)) \<and> (\<forall>x w. R w (con_stall C x w))"

definition quiet_services :: "('w \<Rightarrow> 'w \<Rightarrow> bool) \<Rightarrow> 'w boot_services \<Rightarrow> bool" where
  "quiet_services R B \<longleftrightarrow> (\<forall>h. on_machine R (call_status (disconnect_controller B h)) \<and> on_machine R (call_status (connect_controller B h)))"

definition quiet_files :: "('w \<Rightarrow> 'w \<Rightarrow> bool) \<Rightarrow> 'w file_system \<Rightarrow> bool" where
  "quiet_files R S \<longleftrightarrow>
     (\<forall>h. on_machine R (fs_protocol S h) \<and> on_machine R (fs_open_volume S h) \<and> on_machine R (fs_into_type S h) \<and> on_machine R (fs_file_size S h)) \<and>
     (\<forall>h n. on_machine R (fs_open S h n)) \<and> (\<forall>h n. on_machine R (fs_read S h n))"

definition quiet_nvme :: "('w \<Rightarrow> 'w \<Rightarrow> bool) \<Rightarrow> 'w nvme_express_passthru \<Rightarrow> bool" where
  "quiet_nvme R N \<longleftrightarrow> (\<forall>n p d. R d (snd (snd (np_pass_thru N n p d))))"

definition quiet_ata :: "('w \<Rightarrow> 'w \<Rightarrow> bool) \<Rightarrow> 'w ata_passthru \<Rightarrow> bool" where
  "quiet_ata R A \<longleftrightarrow> (\<forall>i j p d. R d (snd (snd (ap_pass_thru A i j p d)))) \<and> (\<forall>p d. R d (snd (snd (ap_get_device A p d))))"

definition quiet_platform :: "('w \<Rightarrow> 'w \<Rightarrow> bool) \<Rightarrow> 'w platform \<Rightarrow> bool" where
  "quiet_platform R F \<longleftrightarrow>
     quiet_console R (pf_console F) \<and> quiet_services R (pf_services F) \<and> quiet_files R (pf_files F) \<and>
     on_machine R (pf_block_handles F) \<and> (\<forall>h. on_machine R (pf_open_block_io F h)) \<and> on_machine R (pf_partition_handles F) \<and>
     (\<forall>h. on_machine R (pf_open_partition_info F h)) \<and> (\<forall>h. on_machine R (pf_open_device_path F h)) \<and>
     (\<forall>h. on_machine R (pf_get_device_path F h)) \<and> (\<forall>p. on_machine R (pf_path_text F p)) \<and>
     (\<forall>p. on_machine R (pf_locate_nvme F p)) \<and> (\<forall>h. on_machine R (pf_open_nvme F h)) \<and>
     (\<forall>h w N w'. pf_open_nvme F h w = (Ok N, w') \<longrightarrow> quiet_nvme R N) \<and>
     (\<forall>p w. R w (snd (snd (pf_locate_ata F p w)))) \<and> (\<forall>h. on_machine R (pf_open_ata F h)) \<and>
     (\<forall>h w A w'. pf_open_ata F h w = (Ok A, w') \<longrightarrow> quiet_ata R A) \<and>
     on_machine R (pf_reset_stdout F) \<and> on_machine R (pf_clear_stdout F) \<and> (\<forall>m. on_machine R (pf_set_mode F m)) \<and>
     (\<forall>t c. on_machine R (pf_set_watchdog F t c))"

lemma quiet_opened:
  assumes "quiet_platform R F"
  shows "pf_open_nvme F h w = (Ok N, w') \<Longrightarrow> quiet_nvme R N" "pf_open_ata F h w = (Ok A, w') \<Longrightarrow> quiet_ata R A"
  using assms unfolding quiet_platform_def by metis+

text \<open>The services that load an image, without the two that are about what is started.\<close>

definition quiet_loader :: "('w \<Rightarrow> 'w \<Rightarrow> bool) \<Rightarrow> ('w, 'x) loader \<Rightarrow> bool" where
  "quiet_loader R L \<longleftrightarrow>
     (\<forall>n. on_machine R (ld_allocate_pages L n)) \<and> (\<forall>a d w. R w (ld_store L a d w)) \<and> (\<forall>h. on_machine R (ld_open_loaded_image L h)) \<and>
     (\<forall>p. on_machine R (ld_locate_file_system L p)) \<and> (\<forall>h x w. R w (ld_set_load_options L h x w))"

section \<open>Composition\<close>

locale frame =
  fixes R :: "'w \<Rightarrow> 'w \<Rightarrow> bool"
  assumes R_refl: "R w w" and R_trans: "R u v \<Longrightarrow> R v w \<Longrightarrow> R u w"

context frame
begin

lemma within_return [frame_intros]: "within f R (Pair r)" "within f R (pure r)"
  by (simp_all add: within_def pure_def R_refl)

lemma within_bind_run:
  assumes "within f R m" "\<And>s a t. m s = (Ok a, t) \<Longrightarrow> within f R (g a)"
  shows "within f R (pbind m g)"
proof (rule withinI)
  fix s r t
  assume "pbind m g s = (r, t)"
  then show "R (f s) (f t)"
    by (cases rule: pbind_cases) (auto dest: withinD [OF assms(1)] withinD [OF assms(2)] intro: R_trans)
qed

lemma within_bind [frame_intros]: "within f R m \<Longrightarrow> (\<And>a. within f R (g a)) \<Longrightarrow> within f R (pbind m g)"
  by (rule within_bind_run)

lemma within_case:
  assumes "within f R m" "\<And>a. within f R (g a)" "\<And>e. within f R (h e)" "\<And>x. within f R (k x)"
  shows "within f R (\<lambda>s. case m s of (r, t) \<Rightarrow> (case r of Ok a \<Rightarrow> g a t | Err e \<Rightarrow> h e t | Halt x \<Rightarrow> k x t))"
proof (rule withinI)
  fix s r t
  assume run: "(case m s of (r, t) \<Rightarrow> (case r of Ok a \<Rightarrow> g a t | Err e \<Rightarrow> h e t | Halt x \<Rightarrow> k x t)) = (r, t)"
  obtain r1 u where u: "m s = (r1, u)" by fastforce
  have "R (f s) (f u)" by (rule withinD [OF assms(1) u])
  moreover have "R (f u) (f t)"
    using run u withinD [OF assms(2)] withinD [OF assms(3)] withinD [OF assms(4)] by (cases r1) auto
  ultimately show "R (f s) (f t)" by (rule R_trans)
qed

lemma within_state: "(\<And>s. within f R (g s)) \<Longrightarrow> within f R (\<lambda>s. g s s)"
  by (simp add: within_def)

lemma within_if [frame_intros]: "(b \<Longrightarrow> within f R m) \<Longrightarrow> (\<not> b \<Longrightarrow> within f R n) \<Longrightarrow> within f R (if b then m else n)"
  by simp

lemma within_if_fun [frame_intros]: "within f R m \<Longrightarrow> within f R n \<Longrightarrow> within f R (\<lambda>s. if b then m s else n s)"
  by (cases b) simp_all

lemma within_option [frame_intros]:
  "within f R n \<Longrightarrow> (\<And>a. within f R (g a)) \<Longrightarrow> within f R (case o' of None \<Rightarrow> n | Some a \<Rightarrow> g a)"
  by (cases o') auto

lemma within_list [frame_intros]:
  "within f R n \<Longrightarrow> (\<And>x xs. within f R (g x xs)) \<Longrightarrow> within f R (case l of [] \<Rightarrow> n | x # xs \<Rightarrow> g x xs)"
  by (cases l) auto

lemma within_prod [frame_intros]: "(\<And>a b. within f R (g a b)) \<Longrightarrow> within f R (case p of (a, b) \<Rightarrow> g a b)"
  by (cases p) auto

lemma within_outcome [frame_intros]:
  "(\<And>a. within f R (g a)) \<Longrightarrow> (\<And>e. within f R (h e)) \<Longrightarrow> (\<And>x. within f R (k x)) \<Longrightarrow>
     within f R (case r of Ok a \<Rightarrow> g a | Err e \<Rightarrow> h e | Halt x \<Rightarrow> k x)"
  by (cases r) auto

lemma within_map_err [frame_intros]: "within f R m \<Longrightarrow> within f R (pmap_err g m)"
  by (simp add: within_def pmap_err_def case_prod_unfold)

lemma within_context [frame_intros]:
  "within f R m \<Longrightarrow> within f R (context_from into ctx m)" "within f R n \<Longrightarrow> within f R (uefi_context ctx n)"
  by (simp_all add: context_from_def uefi_context_def within_map_err)

lemma within_unwrapped [frame_intros]: "within f R m \<Longrightarrow> within f R (unwrapped m)"
  unfolding unwrapped_def [abs_def] by (rule within_case) (auto intro: within_return)

lemma within_ignoring [frame_intros]: "within f R m \<Longrightarrow> within f R (ignoring m)"
  unfolding ignoring_def [abs_def] by (rule within_case) (auto intro: within_return)

lemma within_on_world [frame_intros]: "on_machine R m \<Longrightarrow> within world R (on_world m)"
  by (simp add: within_def zoom_def case_prod_unfold)

lemma within_on_greeter [frame_intros]: "within world R m \<Longrightarrow> within beside R (on_greeter m)"
  by (simp add: within_def zoom_def case_prod_unfold)

lemma within_on_reader [frame_intros]: "within beside R (on_reader m)"
  by (simp add: within_def zoom_def case_prod_unfold R_refl)

lemma within_through [frame_intros]: "within beside R m \<Longrightarrow> within beside R (through up down m)"
  by (auto simp: within_def through_def case_prod_unfold dest: spec)

lemma within_orelse [frame_intros]: "within f R m \<Longrightarrow> within f R k \<Longrightarrow> within f R (orelse m k)"
  unfolding orelse_def by (intro frame_intros)

lemma within_not_found [frame_intros]: "within f R (not_found msg)"
  unfolding not_found_def by (rule frame_intros)

lemma within_decided [frame_intros]: "within f R m \<Longrightarrow> within f R (decided m msg)"
  unfolding decided_def by (intro frame_intros)

lemma within_first_ok [frame_intros]: "(\<And>x. within f R (g x)) \<Longrightarrow> within f R (first_ok g xs)"
  by (induction xs) (auto intro!: within_case frame_intros)

lemma within_rewind [frame_intros]: "within beside R (rewind_dyn G ctx)"
  unfolding rewind_dyn_def by (rule frame_intros)

end

section \<open>The text interface and files\<close>

context frame
begin

lemma quiet_console_calls [frame_intros]:
  assumes "quiet_console R C"
  shows "on_machine R (con_read_key C)" "on_machine R (con_wait_for_key C)" "on_machine R (con_output_string C x)"
    "on_machine R (con_set_cursor C y z)" "on_machine R (con_create_timer C)" "on_machine R (con_set_timer C i y)"
    "on_machine R (con_wait_for_event C i)" "on_machine R (write_str C str)"
  using assms by (auto simp: quiet_console_def within_def write_str_def case_prod_unfold)

lemma within_sleep [frame_intros]: "quiet_console R C \<Longrightarrow> on_machine R (sleep C secs nanos)"
proof -
  assume C: "quiet_console R C"
  then have "on_machine R (\<lambda>w. (r, con_stall C x w))" for x and r :: "('e, unit) outcome"
    by (simp add: quiet_console_def within_def)
  then show ?thesis unfolding sleep_def [abs_def] Let_def
    by (intro within_case) (auto intro!: frame_intros C)
qed

lemma within_key [frame_intros]: "quiet_console R C \<Longrightarrow> on_machine R (key C fuel)"
  by (induction fuel) (auto intro!: frame_intros)

lemma within_drain_keys [frame_intros]: "quiet_console R C \<Longrightarrow> on_machine R (drain_keys C fuel)"
  by (induction fuel) (auto intro!: frame_intros)

lemma within_consume [frame_intros]: "quiet_console R C \<Longrightarrow> on_machine R (consume_old_keypresses C fuel)"
  unfolding consume_old_keypresses_def by (intro frame_intros)

lemma within_uefi_key [frame_intros]:
  "(\<And>c. within f R (g c)) \<Longrightarrow> (\<And>c. within f R (h c)) \<Longrightarrow> within f R (case k of Printable c \<Rightarrow> g c | Special c \<Rightarrow> h c)"
  by (cases k) auto

lemma within_write_char [frame_intros]: "quiet_console R C \<Longrightarrow> on_machine R (write_char C ch)"
  unfolding write_char_def by (intro frame_intros)

lemma within_read_loop [frame_intros]: "quiet_console R C \<Longrightarrow> on_machine R (read_loop C fuel rep data)"
  by (induction fuel arbitrary: data) (auto intro!: frame_intros simp del: key.simps)

lemma within_prompts [frame_intros]:
  "quiet_console R C \<Longrightarrow> on_machine R (password C fuel)" "quiet_console R C \<Longrightarrow> on_machine R (line C fuel)"
  unfolding password_def line_def by (intro frame_intros; assumption)+

lemma within_draw_menu [frame_intros]: "quiet_console R C \<Longrightarrow> on_machine R (draw_menu C row opts c)"
  unfolding draw_menu_def [abs_def] Let_def by (rule within_state) (intro frame_intros)

lemma within_choose_loop [frame_intros]: "quiet_console R C \<Longrightarrow> on_machine R (choose_loop C fuel row opts c d)"
  by (induction fuel arbitrary: c d) (auto intro!: frame_intros simp del: key.simps)

lemma within_choose [frame_intros]: "quiet_console R C \<Longrightarrow> on_machine R (ui_choose C fuel opts)"
proof -
  assume C: "quiet_console R C"
  have "on_machine R (\<lambda>w. choose_loop C fuel (con_cursor_row C w) opts c True w)" for c
    by (rule within_state) (intro frame_intros C)
  then show ?thesis unfolding ui_choose_def by (intro frame_intros C)
qed

lemma quiet_file_calls [frame_intros]:
  assumes "quiet_files R S"
  shows "on_machine R (fs_protocol S h)" "on_machine R (fs_open_volume S h)" "on_machine R (fs_into_type S h)"
    "on_machine R (fs_file_size S h)" "on_machine R (fs_open S h n)" "on_machine R (fs_read S h k)"
  using assms by (simp_all add: quiet_files_def)

lemma within_file_type [frame_intros]:
  "(\<And>h. within f R (g h)) \<Longrightarrow> (\<And>d. within f R (k d)) \<Longrightarrow> within f R (case t of RegularFile h \<Rightarrow> g h | Directory d \<Rightarrow> k d)"
  by (cases t) auto

lemma within_read_full_file [frame_intros]: "quiet_files R S \<Longrightarrow> on_machine R (read_full_file S dev file)"
  unfolding read_full_file_def read_full_file_to_vec_def read_to_vec_def by (intro frame_intros)

section \<open>Devices\<close>

lemma quiet_platform_calls [frame_intros]:
  assumes "quiet_platform R F"
  shows "quiet_console R (pf_console F)" "quiet_services R (pf_services F)" "quiet_files R (pf_files F)"
    "on_machine R (pf_block_handles F)" "on_machine R (pf_open_block_io F h)" "on_machine R (pf_partition_handles F)"
    "on_machine R (pf_open_partition_info F h)" "on_machine R (pf_open_device_path F h)"
    "on_machine R (pf_get_device_path F h)" "on_machine R (pf_path_text F p)" "on_machine R (pf_locate_nvme F p)"
    "on_machine R (pf_open_nvme F h)" "on_machine R (pf_open_ata F h)" "on_machine R (pf_reset_stdout F)"
    "on_machine R (pf_clear_stdout F)" "on_machine R (pf_set_mode F m)" "on_machine R (pf_set_watchdog F t c)"
  using assms by (simp_all add: quiet_platform_def del: split_paired_All)

lemma within_block_devices [frame_intros]:
  assumes "quiet_platform R F"
  shows "on_machine R (block_devices F)"
proof -
  have "on_machine R (filter_block_devices F hs)" for hs
    by (induction hs) (auto intro!: within_case frame_intros assms)
  then show ?thesis unfolding block_devices_def by (intro frame_intros assms)
qed

lemma quiet_service_calls [frame_intros]:
  assumes "quiet_services R B"
  shows "on_machine R (call_status (disconnect_controller B h))" "on_machine R (call_status (connect_controller B h))"
  using assms by (simp_all add: quiet_services_def)

lemma within_reconnect [frame_intros]: "quiet_services R B \<Longrightarrow> on_machine R (uefi_reconnect B h)"
  unfolding uefi_reconnect_def by (intro frame_intros)

lemma within_reconnect_all [frame_intros]: "quiet_platform R F \<Longrightarrow> on_machine R (reconnect_all F hs)"
  by (induction hs) (auto intro!: frame_intros)

lemma within_find_esp [frame_intros]: "quiet_platform R F \<Longrightarrow> on_machine R (find_esp F hs res)"
  by (induction hs arbitrary: res) (auto intro!: frame_intros)

lemma within_find_boot_partition [frame_intros]: "quiet_platform R F \<Longrightarrow> on_machine R (find_boot_partition F)"
  unfolding find_boot_partition_def by (intro frame_intros)

lemma within_path_text [frame_intros]: "quiet_platform R F \<Longrightarrow> on_machine R (path_text F ctx p)"
  unfolding path_text_def by (intro frame_intros)

lemma within_find_random_esp_path [frame_intros]: "quiet_platform R F \<Longrightarrow> on_machine R (find_random_esp_path F)"
  unfolding find_random_esp_path_def by (intro frame_intros)

lemma within_config_stdout [frame_intros]: "quiet_platform R F \<Longrightarrow> on_machine R (config_stdout F)"
proof -
  assume F: "quiet_platform R F"
  have "on_machine R (\<lambda>w. case max_by_key mode_key (pf_modes F w) of Some m \<Rightarrow> pf_set_mode F m w | None \<Rightarrow> (Ok (), w))"
    using F by (auto simp: quiet_platform_def within_def R_refl split: option.splits)
  then show ?thesis unfolding config_stdout_def by (intro frame_intros F)
qed

end

section \<open>Drives\<close>

definition quiet_drive :: "('d \<Rightarrow> 'w) \<Rightarrow> ('w \<Rightarrow> 'w \<Rightarrow> bool) \<Rightarrow> ('d, 'err) secure_protocol \<Rightarrow> bool" where
  "quiet_drive gw R P \<longleftrightarrow>
     (\<forall>pr cid buf. within gw R (secure_send P pr cid buf) \<and> within gw R (secure_recv P pr cid buf)) \<and> within gw R (reconnect_controller P)"

abbreviation drive_machine :: "('d \<Rightarrow> 'w) \<Rightarrow> 'd opal_drive \<Rightarrow> 'w" where
  "drive_machine gw \<equiv> (\<lambda>d. gw (device (drive_dev d)))"

context frame
begin

lemma within_unlock:
  fixes gw :: "'d \<Rightarrow> 'w"
  assumes "quiet_drive gw R P"
  shows "within (drive_machine gw) R (unlock P fuel kdf pwd)"
proof -
  have "protocol_invariant P cid (\<lambda>s t. R (gw s) (gw t))" for cid
    using assms by unfold_locales (auto simp: within_keeps quiet_drive_def intro: reflpI transpI R_refl R_trans)
  then show ?thesis by (intro withinI) (rule protocol_invariant.methods_keep_unlock, auto)
qed

lemma within_opal_drive_new:
  fixes gw :: "'d \<Rightarrow> 'w"
  assumes "quiet_drive gw R P"
  shows "within gw R (opal_drive_new P)"
proof -
  have recv: "within gw R (secure_recv P pr cid buf)" for pr cid buf using assms by (simp add: quiet_drive_def)
  have "within gw R (recv_info P)"
    unfolding recv_info_def [abs_def] by (rule within_state) (intro frame_intros recv)
  moreover have "within gw R (\<lambda>d. case c of None \<Rightarrow> (Err Unsupported, d)
      | Some c \<Rightarrow> (Ok \<lparr>device = d, com_id = base_com_id c, is_eprise = e, was_locked = l\<rparr>, d))" for c e l
    by (cases c) (auto simp: within_def R_refl)
  ultimately show ?thesis unfolding opal_drive_new_def secure_device_new_def by (intro frame_intros)
qed

lemma within_opal_on:
  fixes gw :: "'d \<Rightarrow> 'w"
  assumes "quiet_drive gw R P" "\<And>w d. gw (pw w d) = w"
  shows "on_machine R (opal_on gw pw P d)"
proof (rule withinI)
  fix w r t
  assume run: "opal_on gw pw P d w = (r, t)"
  obtain r1 d1 where d1: "opal_drive_new P (pw w d) = (r1, d1)" by fastforce
  from withinD [OF within_opal_drive_new [OF assms(1)] this] show "R w t"
    using run d1 assms(2) by (simp add: opal_on_def)
qed

lemma within_nvme_io: "quiet_nvme R N \<Longrightarrow> on_machine R (nvme_send N target p)"
  by (simp add: quiet_nvme_def within_def nvme_send_def send_async_def case_prod_unfold)

lemma within_ata_io: "quiet_ata R A \<Longrightarrow> on_machine R (do_io A port pmp mode)"
  unfolding do_io_def Let_def
  by (cases mode) (auto intro!: frame_intros simp: within_def case_prod_unfold quiet_ata_def R_refl pbind_def pure_def split: outcome.splits)

lemma quiet_nvme_protocol:
  assumes "quiet_nvme R N" "quiet_services R B"
  shows "quiet_drive nvme_of R (nvme_protocol N B)"
proof -
  have on: "within nvme_of R (on_nvme m)" if "on_machine R m" for m :: "('w, 'e, 'a) prog"
    using that by (simp add: within_def zoom_def case_prod_unfold)
  have io: "on_machine R (nvme_secure_protocol N dir pr cid buf)" for dir pr cid buf
    unfolding nvme_secure_protocol_def by (rule within_nvme_io [OF assms(1)])
  have "within nvme_of R (\<lambda>s. on_nvme (uefi_reconnect B (res_handle s)) s)"
    by (rule within_state, rule on) (intro frame_intros assms(2))
  moreover have "within nvme_of R (pbind (pmap_err UefiError (on_nvme (nvme_secure_protocol N Send pr cid buf))) (\<lambda>_. pure (Ok ())))"
    "within nvme_of R (pmap_err UefiError (on_nvme (nvme_secure_protocol N Recv pr cid buf)))" for pr cid buf
    by (intro frame_intros on io)+
  ultimately show ?thesis by (simp add: quiet_drive_def nvme_protocol_def)
qed

lemma quiet_ata_protocol:
  assumes "quiet_ata R A" "quiet_services R B"
  shows "quiet_drive ata_fw R (ata_secure_protocol A B)"
proof -
  have on: "within ata_fw R (on_ata m)" if "on_machine R m" for m :: "('w, 'e, 'a) prog"
    using that by (simp add: within_def zoom_def case_prod_unfold)
  note io = on [OF within_ata_io [OF assms(1)]]
  have "within ata_fw R (ata_send A pr cid buf)" "within ata_fw R (ata_recv A pr cid buf)" for pr cid buf
    unfolding ata_send_def [abs_def] ata_recv_def [abs_def] Let_def by (rule within_state, intro frame_intros io)+
  moreover have "within ata_fw R (\<lambda>s. on_ata (uefi_reconnect B (ata_handle s)) s)"
    by (rule within_state, rule on) (intro frame_intros assms(2))
  ultimately show ?thesis by (simp add: quiet_drive_def ata_secure_protocol_def)
qed

text \<open>Looking for a drive: what is found has quiet calls, too.\<close>

lemma within_try_get_nvme [frame_intros]:
  assumes "quiet_platform R F"
  shows "on_machine R (try_get_nvme_device F h)"
proof -
  have "on_machine R (nvme_device_new N mem)" if "quiet_nvme R N" for N mem
  proof -
    have "on_machine R (\<lambda>d. (Ok \<lparr>nvme_fw = d, nvme_align = a, nvme_serial = sn\<rparr>, d))" for a sn
      by (simp add: within_def R_refl)
    then show ?thesis unfolding nvme_device_new_def recv_serial_num_def Let_def
      by (intro frame_intros within_nvme_io that)
  qed
  then have "on_machine R (\<lambda>w. nvme_device_new N (pf_memory F w) w)" if "quiet_nvme R N" for N
    by (rule within_state [where g = "\<lambda>w. nvme_device_new N (pf_memory F w)"]) (rule that)
  then have opening_calls: "on_machine R (pbind (uefi_context ctx (pf_open_nvme F n)) (\<lambda>N.
      pbind (uefi_context ctx2 (\<lambda>w. nvme_device_new N (pf_memory F w) w)) (\<lambda>dv. pure (Ok (Some (N, dv))))))" for ctx ctx2 n
    by (intro within_bind_run [where m = "uefi_context ctx (pf_open_nvme F n)"] frame_intros assms)
      (auto simp: ok_iff dest: quiet_opened(1) [OF assms])
  show ?thesis unfolding try_get_nvme_device_def
    by (rule within_bind, intro frame_intros assms, rule within_case, intro frame_intros assms, rule opening_calls) (intro frame_intros)+
qed

lemma try_get_nvme_quiet:
  assumes "quiet_platform R F" "try_get_nvme_device F h w = (Ok (Some (N, dv)), w')"
  shows "quiet_nvme R N"
  using assms(2) unfolding try_get_nvme_device_def
proof (cases rule: pbind_cases)
  case (Ok path w1)
  obtain r w2 where "pf_locate_nvme F path w1 = (r, w2)" by fastforce
  with Ok(2) show ?thesis by (cases r) (auto simp: ok_iff dest: quiet_opened(1) [OF assms(1)])
qed simp_all

lemma within_locate:
  assumes "\<And>w. R w (snd (snd (L w)))" "\<And>l p. on_machine R (k l p)"
  shows "on_machine R (\<lambda>w. case L w of (l, p, w') \<Rightarrow> k l p w')"
proof (rule withinI)
  fix w r t
  assume run: "(case L w of (l, p, w') \<Rightarrow> k l p w') = (r, t)"
  obtain l p w' where l: "L w = (l, p, w')" by (cases "L w") auto
  have "R w w'" using assms(1) [of w] l by simp
  moreover have "R w' t" using run l withinD [OF assms(2)] by simp
  ultimately show "R w t" by (rule R_trans)
qed

lemma within_try_make: "quiet_ata R A \<Longrightarrow> on_machine R (try_make A path h)"
proof -
  assume A: "quiet_ata R A"
  have "on_machine R (\<lambda>d. case ap_get_device A path d of (s, ports, d') \<Rightarrow> (to_result s ports, d'))"
    using A by (simp add: quiet_ata_def within_def case_prod_unfold)
  moreover have "on_machine R (\<lambda>d. (Ok \<lparr>ata_fw = d, ata_port = i, ata_pmp = j, ata_serial = sn, ata_handle = h\<rparr>, d))" for i j sn
    by (simp add: within_def R_refl)
  ultimately show ?thesis unfolding try_make_def get_serial_num_def by (intro frame_intros within_ata_io A)
qed

lemma within_try_get_ata [frame_intros]:
  assumes "quiet_platform R F"
  shows "on_machine R (try_get_ata_device F h)"
proof -
  have "on_machine R (pbind (uefi_context ctx (pf_open_ata F n)) (\<lambda>A. pbind (try_make A path h) (\<lambda>proto.
      pbind (context_from into ctx2 (opal_on ata_fw ata_world (ata_secure_protocol A (pf_services F)) proto)) (\<lambda>opal.
      pure (Ok (Some (A, opal)))))))" for ctx ctx2 n path and into :: "_ \<Rightarrow> 'x error_source"
  proof (rule within_bind_run)
    fix w A w'
    assume "uefi_context ctx (pf_open_ata F n) w = ((Ok A :: ('x greeter_error, _) outcome), w')"
    then have A: "quiet_ata R A" using quiet_opened(2) [OF assms] by (simp add: ok_iff)
    have "on_machine R (opal_on ata_fw ata_world (ata_secure_protocol A (pf_services F)) d)" for d
      by (rule within_opal_on) (simp_all add: quiet_ata_protocol A quiet_platform_calls(2) assms)
    then show "on_machine R (pbind (try_make A path h) (\<lambda>proto.
      pbind (context_from into ctx2 (opal_on ata_fw ata_world (ata_secure_protocol A (pf_services F)) proto)) (\<lambda>opal.
      pure (Ok (Some (A, opal))))))"
      by (intro frame_intros within_try_make A)
  qed (intro frame_intros assms)
  note opening_calls = this
  have "R w (snd (snd (pf_locate_ata F p w)))" for p w using assms by (simp add: quiet_platform_def del: split_paired_All)
  note locate = within_locate [of "pf_locate_ata F p" for p, OF this]
  show ?thesis unfolding try_get_ata_device_def
    by (rule within_bind, intro frame_intros assms, rule within_bind, intro frame_intros assms, rule locate,
        rule within_bind, intro frame_intros assms, rule within_outcome, rule opening_calls) (intro frame_intros)+
qed

lemma try_get_ata_quiet:
  assumes "quiet_platform R F" "try_get_ata_device F h w = (Ok (Some (A, d)), w')"
  shows "quiet_ata R A"
  using assms(2) unfolding try_get_ata_device_def
proof (cases rule: pbind_cases)
  case (Ok path w1)
  from Ok(2) show ?thesis
  proof (cases rule: pbind_cases)
    case (Ok t w2)
    obtain l p w3 where "pf_locate_ata F path w2 = (l, p, w3)" by (cases "pf_locate_ata F path w2") auto
    with Ok(2) show ?thesis by (cases l) (auto simp: ok_iff dest: quiet_opened(2) [OF assms(1)])
  qed simp_all
qed simp_all

section \<open>Passwords and probes\<close>

lemma within_get_password [frame_intros]:
  assumes "quiet_platform R F" "\<And>f. within world R (fetch f)"
  shows "within world R (get_password_of_keyslot F fuel fetch ks c)"
proof -
  let ?read = "case ks_source ks of
      Stdin \<Rightarrow>
        pbind (on_world (write_str (pf_console F) (''Password for keyslot '' @ ks_name ks @ '': ''))) (\<lambda>_.
        pbind (on_world (password (pf_console F) fuel)) (\<lambda>p. pure (Ok (into_bytes p))))
    | KeyFile file \<Rightarrow> fetch file"
  have "within world R ?read" by (cases "ks_source ks") (auto intro!: frame_intros assms)
  moreover have "within world R (\<lambda>s. (Ok p, s\<lparr>keyslot_buffer := (keyslot_buffer s)(n \<mapsto> p)\<rparr>))" for p n
    by (simp add: within_def R_refl)
  ultimately have "within world R (pbind ?read (\<lambda>p s. (Ok p, s\<lparr>keyslot_buffer := (keyslot_buffer s)(ks_name ks \<mapsto> p)\<rparr>)))"
    by (rule within_bind)
  then show ?thesis unfolding within_def get_password_of_keyslot_def by (auto simp: R_refl split: option.splits)
qed

lemma within_on_drive:
  assumes "within (drive_machine gw) R m" "\<And>w d. gw (pw w d) = w"
  shows "within beside R (on_drive gw pw m)"
proof (rule withinI)
  fix sd r t
  assume run: "on_drive gw pw m sd = (r, t)"
  obtain s d where sd: "sd = (s, d)" by fastforce
  let ?d = "d\<lparr>drive_dev := (drive_dev d)\<lparr>device := pw (world s) (device (drive_dev d))\<rparr>\<rparr>"
  obtain r1 d1 where "m ?d = (r1, d1)" by fastforce
  with withinD [OF assms(1) this] run show "R (world (fst sd)) (world (fst t))"
    by (auto simp: on_drive_def sd assms(2))
qed

lemma within_unlock_loop:
  assumes "quiet_platform R F" "\<And>f. within world R (fetch f)" "quiet_drive gw R P" "\<And>w d. gw (pw w d) = w"
  shows "within beside R (unlock_loop F kdf gw pw P fuel fetch ks c)"
proof (induction fuel arbitrary: c)
  case (Suc fuel)
  show ?case unfolding unlock_loop.simps
    by (rule within_bind, intro frame_intros assms, rule within_case, rule within_on_drive [OF within_unlock [OF assms(3)] assms(4)])
      (intro frame_intros within_if_fun Suc assms)+
qed (simp add: within_return)

lemma within_unlock_opal:
  assumes "quiet_platform R F" "\<And>f. within world R (fetch f)" "quiet_drive gw R P" "\<And>w d. gw (pw w d) = w"
  shows "within world R (unlock_opal F kdf gw pw P fuel fetch ks d)"
proof (rule withinI)
  fix s r t
  assume run: "unlock_opal F kdf gw pw P fuel fetch ks d s = (r, t)"
  obtain r1 s1 d1 where "unlock_loop F kdf gw pw P fuel fetch ks Cached (s, d) = (r1, s1, d1)"
    by (cases "unlock_loop F kdf gw pw P fuel fetch ks Cached (s, d)") auto
  with withinD [OF within_unlock_loop [OF assms] this] run show "R (world s) (world t)"
    by (auto simp: unlock_opal_def R_refl split: if_splits)
qed

lemma within_luks_loop [frame_intros]:
  assumes "quiet_platform R F" "\<And>f. within world R (fetch f)"
  shows "within beside R (luks_loop F G fuel fetch ks c)"
proof (induction fuel arbitrary: c)
  case (Suc fuel)
  have error: "within beside R (\<lambda>sr. case e of InvalidPassword \<Rightarrow> i sr | LuksOther x \<Rightarrow> (Err (k x), sr))"
    if "within beside R i" for e :: "'e luks_error" and i and k :: "'e \<Rightarrow> 'f"
    using that by (cases e) (simp_all add: within_return)
  show ?case unfolding luks_loop.simps
    by (rule within_bind, intro frame_intros assms, rule within_case, intro frame_intros)
      (auto intro!: frame_intros error Suc)
qed (simp add: within_return)

lemma within_luks_unlock [frame_intros]:
  assumes "quiet_platform R F" "\<And>f. within world R (fetch f)"
  shows "within beside R (luks_unlock F G fuel fetch ks uuid)"
proof (rule withinI)
  fix sr r t
  assume run: "luks_unlock F G fuel fetch ks uuid sr = (r, t)"
  have "within beside R (\<lambda>(s, r). (Ok (), (s\<lparr>masterkey_buffer := (masterkey_buffer s)(uuid \<mapsto> k)\<rparr>, r)))" for k
    by (auto simp: within_def R_refl)
  then have fresh: "within beside R (pbind (luks_loop F G fuel fetch ks Cached) (\<lambda>k (s, r).
      (Ok (), (s\<lparr>masterkey_buffer := (masterkey_buffer s)(uuid \<mapsto> k)\<rparr>, r))))"
    by (intro frame_intros assms)
  show "R (world (fst sr)) (world (fst t))"
    using run withinD [OF fresh] withinD [OF within_on_reader]
    by (cases "masterkey_buffer (fst sr) uuid") (simp_all add: luks_unlock_def)
qed

lemma within_probe_lvm [frame_intros]:
  "(\<And>ps f. within beside R (inner ps f)) \<Longrightarrow> within beside R (probe_lvm G inner p rest file)"
  unfolding probe_lvm_def [abs_def] by (rule within_case) (auto intro!: frame_intros)

lemma within_probe_gpt [frame_intros]:
  "(\<And>ps f. within beside R (inner ps f)) \<Longrightarrow> within beside R (probe_gpt G inner ps file)"
  unfolding probe_gpt_def [abs_def] by (rule within_case) (auto intro!: frame_intros)

lemma within_probe_luks [frame_intros]:
  assumes "quiet_platform R F" "\<And>f. within world R (fetch f)" "\<And>ps f. within beside R (inner ps f)"
  shows "within beside R (probe_luks F G cfg fuel fetch inner p rest file)"
  unfolding probe_luks_def by (intro frame_intros assms)

lemma within_probe_ext4 [frame_intros]: "within beside R (probe_ext4 G p rest file)"
proof -
  have "fst (snd (probe_ext4 G p rest file sr)) = fst sr" for sr
    by (cases sr) (auto simp: probe_ext4_def zoom_def not_found_def pure_def case_prod_unfold split: outcome.split option.split bool.split)
  note same = this
  show ?thesis by (simp add: within_def R_refl same)
qed

lemma within_probe_fat [frame_intros]: "within beside R (probe_fat G fuel p rest file)"
  unfolding probe_fat_def [abs_def] by (rule within_case) (auto intro!: frame_intros)

section \<open>The search\<close>

lemma within_find_internal [frame_intros]:
  assumes "quiet_platform R F" "\<And>f. within world R (fetch f)"
  shows "within beside R (find_read_file_internal F G cfg fetch fuel ps path)"
proof (induction fuel arbitrary: ps path)
  case (Suc fuel)
  show ?case unfolding find_read_file_internal.simps by (intro frame_intros assms Suc)
qed (simp add: within_return)

lemma within_pass_drive [frame_intros]:
  "(\<And>ks. within world R (u ks)) \<Longrightarrow> within world R (pass_drive cfg sn ue ctx u ps)"
  unfolding pass_drive_def by (intro frame_intros)

lemma within_unlock_nvme:
  assumes "quiet_platform R F" "\<And>f. within world R (fetch f)" "quiet_nvme R N"
  shows "within world R (unlock_nvme F kdf fuel fetch N dv h ks)"
proof -
  have P: "quiet_drive nvme_of R (nvme_protocol N (pf_services F))"
    by (rule quiet_nvme_protocol) (intro frame_intros assms)+
  show ?thesis unfolding unlock_nvme_def Let_def
    by (intro frame_intros within_opal_on [OF P] within_unlock_opal [OF assms(1,2) P]) simp_all
qed

lemma on_world_found: "on_world m s = (Ok a, t) \<Longrightarrow> \<exists>w'. m (world s) = (Ok a, w')"
  by (auto simp: ok_iff)

lemma within_search_device [frame_intros]:
  assumes "quiet_platform R F" "\<And>f. within world R (fetch f)"
  shows "within world R (search_device F G kdf cfg fetch fuel d ps file)"
proof -
  obtain h b e where d: "d = (h, b, e)" by (cases d)
  have found: "within world R (\<lambda>s. case find_read_file_internal F G cfg fetch fuel ps file (s, r) of
         (Ok data, (s, _)) \<Rightarrow> (Ok (ps, Some data), s)
       | (Err e, (s, _)) \<Rightarrow> (Ok (ps, None), s)
       | (Halt x, (s, _)) \<Rightarrow> (Halt x, s))" for ps r
  proof (rule withinI)
    fix s t and o' :: "(_, partition list \<times> _) outcome"
    assume run: "(case find_read_file_internal F G cfg fetch fuel ps file (s, r) of
         (Ok data, (s, _)) \<Rightarrow> (Ok (ps, Some data), s)
       | (Err e, (s, _)) \<Rightarrow> (Ok (ps, None), s)
       | (Halt x, (s, _)) \<Rightarrow> (Halt x, s)) = (o', t)"
    obtain o1 s1 r1 where o1: "find_read_file_internal F G cfg fetch fuel ps file (s, r) = (o1, s1, r1)"
      by (cases "find_read_file_internal F G cfg fetch fuel ps file (s, r)") auto
    have "world (fst (s, r)) = world s" by simp
    with withinD [OF within_find_internal [OF assms] o1] run o1 show "R (world s) (world t)"
      by (cases o1) auto
  qed
  have nvme: "within world R (pass_drive cfg sn ue ctx (unlock_nvme F kdf fuel fetch N dv h) ps)" if "quiet_nvme R N" for N dv sn ue ctx ps
    by (intro frame_intros within_unlock_nvme assms that)
  have ata: "within world R (pass_drive cfg sn ue ctx
      (\<lambda>ks. unlock_opal F kdf ata_fw ata_world (ata_secure_protocol A (pf_services F)) fuel fetch ks drive) ps)" if "quiet_ata R A" for A drive sn ue ctx ps
    by (intro frame_intros within_unlock_opal assms quiet_ata_protocol that) simp
  have nvme_step: "within world R (pbind (case n of
         Some (N, dv) \<Rightarrow>
           pass_drive cfg (nvme_serial dv) (utf8_error G) ctx (unlock_nvme F kdf fuel fetch N dv h) ps
       | None \<Rightarrow> pure (Ok ps)) k)"
    if "on_world (try_get_nvme_device F h) s = ((Ok n :: ('x greeter_error, _) outcome), t)" "\<And>ps. within world R (k ps)" for n s t ps k ctx
    using that try_get_nvme_quiet [OF assms(1)] by (auto intro!: frame_intros nvme simp: ok_iff split: option.splits)
  have ata_step: "within world R (pbind (case n of
         Some (A, drive) \<Rightarrow>
           pass_drive cfg (serial (ata_secure_protocol A (pf_services F)) drive) (utf8_error G) ctx
             (\<lambda>ks. unlock_opal F kdf ata_fw ata_world (ata_secure_protocol A (pf_services F)) fuel fetch ks drive) ps
       | None \<Rightarrow> pure (Ok ps)) k)"
    if "on_world (try_get_ata_device F h) s = ((Ok n :: ('x greeter_error, _) outcome), t)" "\<And>ps. within world R (k ps)" for n s t ps k ctx
    using that try_get_ata_quiet [OF assms(1)] by (auto intro!: frame_intros ata simp: ok_iff split: option.splits)
  show ?thesis unfolding search_device_def d prod.case
    by (rule within_bind_run, intro frame_intros assms, rule nvme_step, assumption, rule within_bind_run, intro frame_intros assms,
        rule ata_step, assumption) (intro frame_intros assms found)
qed

lemma within_find_loop [frame_intros]:
  assumes "\<And>d ps path. within world R (search d ps path)"
  shows "within world R (find_read_file_loop search ds ps path)"
  by (induction ds arbitrary: ps) (auto intro!: frame_intros assms)

lemma within_find_read_file [frame_intros]:
  assumes "quiet_platform R F" "\<And>f. within world R (fetch f)"
  shows "within world R (find_read_file F G kdf cfg fetch fuel ps path)"
  unfolding find_read_file_def by (intro frame_intros assms)

lemma within_resolve [frame_intros]:
  assumes "quiet_platform R F"
  shows "within world R (resolve_and_read_file F G kdf cfg fuel f)"
proof (induction fuel arbitrary: f)
  case (Suc fuel)
  show ?case unfolding resolve_and_read_file.simps by (intro frame_intros assms Suc)
qed (simp add: within_return)

section \<open>Booting\<close>

lemma within_construct_initramfs [frame_intros]:
  assumes "quiet_loader R L" "\<And>f. within world R (fetch f)"
  shows "within world R (construct_initramfs L fetch i a)"
proof -
  have "within world R (fetch_files fetch fs acc)" for fs acc
    by (induction fs arbitrary: acc) (auto intro!: frame_intros assms)
  moreover have "within world R (fetch_additional fetch as acc)" for as acc
    by (induction as arbitrary: acc) (auto intro!: frame_intros assms)
  moreover have "on_machine R (effect (ld_store L x d))" for x d
    using assms(1) by (simp add: quiet_loader_def within_def)
  moreover have "on_machine R (ld_allocate_pages L n)" for n
    using assms(1) by (simp add: quiet_loader_def)
  ultimately show ?thesis unfolding construct_initramfs_def Let_def by (intro frame_intros)
qed

lemma within_touch_partitions [frame_intros]:
  "(\<And>ps. within f R (search ps)) \<Longrightarrow> within f R (touch_partitions cfg search ns)"
  by (induction ns) (auto intro!: frame_intros)

lemma within_confirm_loop [frame_intros]: "quiet_console R C \<Longrightarrow> on_machine R (confirm_loop C fuel)"
proof (induction fuel)
  case (Suc fuel)
  then show ?case unfolding confirm_loop.simps by (intro frame_intros) simp_all
qed (simp add: within_return)

text \<open>What starts an image is left to the caller: the last step of a boot entry.\<close>

lemma within_handle_boot_entry:
  assumes "quiet_platform R F" "quiet_loader R L"
    and start: "\<And>img i s t. resolve_and_read_file F G kdf cfg fuel (be_file e) s = ((Ok img :: ('x greeter_error, _) outcome), t) \<Longrightarrow>
      2 \<le> length img \<Longrightarrow> take 2 img = [0x4d, 0x5a] \<Longrightarrow>
      on_machine R (chain_load F L cfg fuel h img (be_options e) i :: ('w, 'x greeter_error, _) prog)"
  shows "within world R (handle_boot_entry F G kdf L cfg fuel h e)"
proof -
  let ?fetch = "resolve_and_read_file F G kdf cfg fuel"
  have "within world R (if \<not> (2 \<le> length img \<and> take 2 img = [0x4d, 0x5a]) then pure x
      else pbind m (\<lambda>i. on_world (chain_load F L cfg fuel h img (be_options e) i)))"
    if "?fetch (be_file e) s = ((Ok img :: ('x greeter_error, _) outcome), t)" "within world R m" for img s t m x
    using that start by (auto intro!: frame_intros)
  note boot = this
  show ?thesis unfolding handle_boot_entry_def Let_def
    by (rule within_bind, intro frame_intros assms, rule within_bind_run, intro frame_intros assms, rule boot, assumption)
      (intro frame_intros assms)
qed

lemma within_unlock_by_serial [frame_intros]:
  "(\<And>ks. within world R (u ks)) \<Longrightarrow> within world R (unlock_by_serial cfg sn ue u)"
  unfolding unlock_by_serial_def by (intro frame_intros)

lemma within_unlock_drives_loop [frame_intros]:
  assumes "quiet_platform R F" "\<And>f. within world R (fetch f)"
  shows "within world R (unlock_drives_loop F G kdf cfg fetch fuel hs)"
proof (induction hs)
  case (Cons h hs)
  have nvme: "within world R (unlock_by_serial cfg sn ue (\<lambda>ks. let P = nvme_protocol N (pf_services F) in
      pbind (context_from OpalSource ctx (on_world (opal_on nvme_of nvme_world P d))) (\<lambda>drive.
      unlock_opal F kdf nvme_of nvme_world P fuel fetch ks drive)))" if "quiet_nvme R N" for N d sn ue ctx
    unfolding Let_def
    by (intro frame_intros within_opal_on within_unlock_opal quiet_nvme_protocol assms that) simp_all
  have ata: "within world R (let P = ata_secure_protocol A (pf_services F) in unlock_by_serial cfg (serial P drive) ue
      (\<lambda>ks. unlock_opal F kdf ata_fw ata_world P fuel fetch ks drive))" if "quiet_ata R A" for A drive ue
    unfolding Let_def by (intro frame_intros within_unlock_opal quiet_ata_protocol assms that) simp_all
  have ata_part: "within world R (pbind (on_world (try_get_ata_device F h)) (\<lambda>ata.
          case ata of
             Some (A, drive) \<Rightarrow>
               (let P = ata_secure_protocol A (pf_services F) in
                unlock_by_serial cfg (serial P drive) (utf8_error G) (\<lambda>ks.
                unlock_opal F kdf ata_fw ata_world P fuel fetch ks drive))
           | None \<Rightarrow> pure (Ok ())))"
    by (rule within_bind_run, intro frame_intros assms)
      (auto intro!: frame_intros ata simp: ok_iff dest: try_get_ata_quiet [OF assms(1)] split: option.splits)
  have drive: "within world R (case n of
         Some (N, dv) \<Rightarrow>
           unlock_by_serial cfg (nvme_serial dv) (utf8_error G) (\<lambda>ks.
             let P = nvme_protocol N (pf_services F) in
             pbind (context_from OpalSource ctx (on_world (opal_on nvme_of nvme_world P (restartable_new dv h)))) (\<lambda>drive.
             unlock_opal F kdf nvme_of nvme_world P fuel fetch ks drive))
       | None \<Rightarrow> m)"
    if "on_world (try_get_nvme_device F h) s = ((Ok n :: ('x greeter_error, _) outcome), t)" "within world R m" for n s t m ctx
    using that try_get_nvme_quiet [OF assms(1)] by (auto intro!: nvme simp: ok_iff split: option.splits)
  show ?case unfolding unlock_drives_loop.simps
    by (rule within_bind_run, intro frame_intros assms, rule within_bind, rule drive, assumption, rule ata_part, rule Cons)
qed (simp add: within_return)

lemma within_handle_unlock [frame_intros]:
  "quiet_platform R F \<Longrightarrow> within world R (handle_unlock_configured_opal_drives F G kdf cfg fuel)"
  unfolding handle_unlock_configured_opal_drives_def by (intro frame_intros)

lemma within_run:
  assumes "quiet_platform R F"
    and boot: "\<And>e. e \<in> set (boot_entries cfg) \<Longrightarrow> within world R (handle_boot_entry F G kdf L cfg fuel h e)"
  shows "within world R (run F G kdf L cfg fuel h)"
proof -
  have "within world R (pbind (pure (index (boot_entries cfg) i)) (handle_boot_entry F G kdf L cfg fuel h))" for i
    by (rule within_bind_run) (auto intro!: frame_intros boot simp: ok_iff)
  then have chosen: "within world R (if i < length (boot_entries cfg)
      then pbind (pure (index (boot_entries cfg) i)) (handle_boot_entry F G kdf L cfg fuel h)
      else if i = length (boot_entries cfg) then handle_unlock_configured_opal_drives F G kdf cfg fuel else pure Panic)" for i
    by (simp add: frame_intros assms(1))
  show ?thesis unfolding run_def
    by (rule within_bind, intro frame_intros assms, rule within_bind, intro frame_intros assms, rule within_bind,
        intro frame_intros assms, rule chosen)
qed

lemma within_run_loop: "within f R body \<Longrightarrow> within f R (run_loop fuel body)"
proof (induction fuel)
  case (Suc fuel)
  then show ?case unfolding run_loop.simps by (intro within_case) (auto intro!: frame_intros)
qed (simp add: within_return)

lemma within_load_config [frame_intros]:
  assumes "quiet_platform R F" "quiet_loader R L"
  shows "on_machine R (load_config F L h)"
proof -
  have L: "on_machine R (ld_open_loaded_image L i)" "on_machine R (ld_locate_file_system L p)" for i p
    using assms(2) by (simp_all add: quiet_loader_def)
  show ?thesis unfolding load_config_def
    by (rule within_bind, intro frame_intros L, rule within_state) (intro frame_intros L assms)
qed

lemma within_exit [frame_intros]: "quiet_console R C \<Longrightarrow> on_machine R (exit_greeter C fuel)"
  unfolding exit_greeter_def by (intro frame_intros)

end

end
