(* ===== verification/Starts.thy ===== *)
theory Starts imports Frame begin

text \<open>
  What the greeter starts. The firmware is seen through two functions on its state: the image it holds
  for every handle, and the images that have been started, in order. \<open>image_firmware\<close> states what loading
  and starting an image do to them, and that no other call does anything to them. Whatever the greeter
  does, it then starts no image but files of the configured boot entries that are PE files.
\<close>

section \<open>The firmware\<close>

definition same_images :: "('w \<Rightarrow> nat \<Rightarrow> u8 list option) \<Rightarrow> ('w \<Rightarrow> u8 list list) \<Rightarrow> 'w \<Rightarrow> 'w \<Rightarrow> bool" where
  "same_images held started w w' \<longleftrightarrow> held w' = held w \<and> started w' = started w"

definition starts_only :: "('w \<Rightarrow> u8 list list) \<Rightarrow> u8 list set \<Rightarrow> 'w \<Rightarrow> 'w \<Rightarrow> bool" where
  "starts_only started A w w' \<longleftrightarrow> (\<exists>bs. started w' = started w @ bs \<and> set bs \<subseteq> A)"

interpretation same: frame "same_images held started" for held :: "'w \<Rightarrow> nat \<Rightarrow> u8 list option" and started
  by unfold_locales (simp_all add: same_images_def)

interpretation grow: frame "starts_only started A" for started :: "'w \<Rightarrow> u8 list list" and A
proof
  fix u v w :: 'w
  show "starts_only started A w w" by (simp add: starts_only_def)
  assume "starts_only started A u v" "starts_only started A v w"
  then obtain bs cs where "started v = started u @ bs" "set bs \<subseteq> A" "started w = started v @ cs" "set cs \<subseteq> A"
    by (auto simp: starts_only_def)
  then show "starts_only started A u w" by (auto simp: starts_only_def intro: exI [of _ "bs @ cs"])
qed

text \<open>Starting may fail before the image runs; an image that runs may return, or not.\<close>

definition image_firmware ::
  "('w \<Rightarrow> nat \<Rightarrow> u8 list option) \<Rightarrow> ('w \<Rightarrow> u8 list list) \<Rightarrow> 'w platform \<Rightarrow> ('w, 'x) loader \<Rightarrow> bool" where
  "image_firmware held started F L \<longleftrightarrow>
     quiet_platform (same_images held started) F \<and> quiet_loader (same_images held started) L \<and>
     (\<forall>h p img w. case ld_load_image L h p img w of
        (Ok i, w') \<Rightarrow> held w' = (held w)(i \<mapsto> img) \<and> started w' = started w
      | (_, w') \<Rightarrow> started w' = started w) \<and>
     (\<forall>h w. started (snd (ld_start_image L h w)) = started w \<or>
        (\<exists>img. held w h = Some img \<and> started (snd (ld_start_image L h w)) = started w @ [img]))"

section \<open>Weaker relations\<close>

lemma within_mono: "(\<And>w w'. R w w' \<Longrightarrow> R' w w') \<Longrightarrow> within f R m \<Longrightarrow> within f R' m"
  by (simp add: within_def)

lemma quiet_mono:
  assumes "\<And>w w'. R w w' \<Longrightarrow> R' w w'"
  shows "quiet_console R C \<Longrightarrow> quiet_console R' C" "quiet_services R B \<Longrightarrow> quiet_services R' B" "quiet_files R S \<Longrightarrow> quiet_files R' S"
    "quiet_nvme R N \<Longrightarrow> quiet_nvme R' N" "quiet_ata R A \<Longrightarrow> quiet_ata R' A" "quiet_loader R L \<Longrightarrow> quiet_loader R' L"
  by (simp_all add: quiet_console_def quiet_services_def quiet_files_def quiet_nvme_def quiet_ata_def quiet_loader_def
      within_def assms)

lemma quiet_platform_mono:
  assumes "\<And>w w'. R w w' \<Longrightarrow> R' w w'" "quiet_platform R F"
  shows "quiet_platform R' F"
  using assms(2) unfolding quiet_platform_def
  by (elim conjE, intro conjI allI impI)
    (auto intro: within_mono [where R = R] quiet_mono [where R = R] assms(1)
      quiet_mono(4,5) [where R = R and R' = R', OF assms(1)] quiet_opened [OF assms(2)] simp del: split_paired_All)

lemma same_grow: "same_images held started w w' \<Longrightarrow> starts_only started A w w'"
  by (simp add: same_images_def starts_only_def)

section \<open>Starting an image\<close>

text \<open>A computation that starts at most the image of a handle.\<close>

definition starts_held :: "('w \<Rightarrow> nat \<Rightarrow> u8 list option) \<Rightarrow> ('w \<Rightarrow> u8 list list) \<Rightarrow> nat \<Rightarrow> u8 list \<Rightarrow> ('w, 'e, 'a) prog \<Rightarrow> bool" where
  "starts_held held started h img m \<longleftrightarrow>
     (\<forall>w. held w h = Some img \<longrightarrow> starts_only started {img} w (snd (m w)))"

lemma starts_held_bind:
  assumes "on_machine (same_images held started) m" "\<And>a. starts_held held started h img (k a)"
  shows "starts_held held started h img (pbind m k)"
  unfolding starts_held_def
proof (intro allI impI)
  fix w
  assume w: "held w h = Some img"
  obtain r w1 where run: "m w = (r, w1)" by fastforce
  have w1: "held w1 = held w" "started w1 = started w"
    using withinD [OF assms(1) run] by (simp_all add: same_images_def)
  show "starts_only started {img} w (snd (pbind m k w))"
  proof (cases r)
    case (Ok a)
    have "starts_only started {img} w1 (snd (k a w1))" using assms(2) w w1(1) by (simp add: starts_held_def)
    with Ok run w1(2) show ?thesis by (simp add: pbind_def starts_only_def)
  qed (use run w1(2) in \<open>simp_all add: pbind_def starts_only_def\<close>)
qed

lemma chain_load_starts:
  assumes "image_firmware held started F L" "img \<in> A"
  shows "on_machine (starts_only started A) (chain_load F L cfg fuel h img options i :: ('w, 'x greeter_error, _) prog)"
proof -
  let ?same = "same_images held started"
  have F: "quiet_platform ?same F" and L: "quiet_loader ?same L" using assms(1) by (simp_all add: image_firmware_def)
  have opened: "on_machine ?same (ld_open_loaded_image L j)" "on_machine ?same (effect (ld_set_load_options L j o'))" for j o'
    using L by (simp_all add: quiet_loader_def within_def)
  have console: "quiet_console ?same (pf_console F)" using F by (simp add: quiet_platform_def)
  have start: "starts_held held started j img (uefi_context ctx (ld_start_image L j) :: ('w, 'x greeter_error, _) prog)" for j ctx
    unfolding starts_held_def
  proof (intro allI impI)
    fix w
    assume "held w j = Some img"
    moreover have "started (snd (ld_start_image L j w)) = started w \<or>
        (\<exists>img. held w j = Some img \<and> started (snd (ld_start_image L j w)) = started w @ [img])"
      using assms(1) by (simp add: image_firmware_def)
    ultimately have "started (snd (ld_start_image L j w)) \<in> {started w, started w @ [img]}" by auto
    then show "starts_only started {img} w (snd (uefi_context ctx (ld_start_image L j) w))"
      by (auto simp: starts_only_def uefi_context_def pmap_err_def case_prod_unfold)
  qed
  let ?tail = "\<lambda>j. pbind (uefi_context ''error creating a LoadedImage from a LoadedImage-Handle'' (ld_open_loaded_image L j)) (\<lambda>loaded.
     pbind (context_from CString16FromStrError ''efi image name is not valid UTF-16''
       (pure (ld_cstring16 L (load_options options i)))) (\<lambda>opts.
     pbind (effect (ld_set_load_options L loaded opts)) (\<lambda>_.
     pbind (if DebugLevel \<le> log_level cfg then confirm_loop (pf_console F) fuel else pure (Ok ())) (\<lambda>_.
     uefi_context ''error booting loaded bootimage'' (ld_start_image L j))))) :: ('w, 'x greeter_error, _) prog"
  have tail: "starts_held held started j img (?tail j)" for j
    by (intro starts_held_bind start same.within_context same.within_return same.within_if same.within_confirm_loop opened console)
  have load: "on_machine (starts_only started A) (pbind (uefi_context ctx (ld_load_image L h p img)) ?tail)" for ctx p
  proof (rule withinI)
    fix w r t
    assume run: "pbind (uefi_context ctx (ld_load_image L h p img)) ?tail w = (r, t)"
    obtain r1 w1 where 1: "ld_load_image L h p img w = (r1, w1)" by fastforce
    have spec: "case ld_load_image L h p img w of
        (Ok i, w') \<Rightarrow> held w' = (held w)(i \<mapsto> img) \<and> started w' = started w | (_, w') \<Rightarrow> started w' = started w"
      using assms(1) by (simp add: image_firmware_def)
    show "starts_only started A w t"
    proof (cases r1)
      case (Ok j)
      with spec 1 have "held w1 j = Some img" "started w1 = started w" by simp_all
      moreover have "?tail j w1 = (r, t)" using run 1 Ok by (simp add: pbind_def uefi_context_def pmap_err_def)
      ultimately show ?thesis using tail [of j] assms(2) by (fastforce simp: starts_held_def starts_only_def)
    qed (use run 1 spec in \<open>auto simp: pbind_def uefi_context_def pmap_err_def starts_only_def\<close>)
  qed
  have "on_machine (starts_only started A) (find_random_esp_path F :: ('w, 'x greeter_error, _) prog)"
    by (rule within_mono [OF same_grow same.within_find_random_esp_path [OF F]])
  then show ?thesis unfolding chain_load_def by (rule grow.within_bind) (rule load)
qed

section \<open>Properties\<close>

text \<open>
  C3: the greeter starts nothing but what it is configured to boot. Whatever keys are pressed, drives
  answer and reads fail, and however its run ends, every image it has started is the content of the
  file of a configured boot entry as the search returned it, and is a PE file; what was started before
  stays as it was.
\<close>

theorem only_boot_entries_started:
  fixes F :: "'w platform" and L :: "('w, 'x) loader" and G :: "('r, 'k, 'x) formats"
  assumes "image_firmware held started F L" "main F G kdf L fuel h s = (r, s')"
  shows "\<exists>imgs. started (world s') = started (world s) @ imgs \<and> (\<forall>img\<in>set imgs. take 2 img = [0x4d, 0x5a] \<and>
    (\<exists>cfg w e s1 s2. load_config F L h (world s) = ((Ok cfg :: ('x greeter_error, _) outcome), w) \<and> e \<in> set (boot_entries cfg) \<and>
      resolve_and_read_file F G kdf cfg fuel (be_file e) s1 = (Ok img, s2)))"
proof -
  let ?A = "{img. take 2 img = [0x4d, 0x5a] \<and>
    (\<exists>cfg w e s1 s2. load_config F L h (world s) = ((Ok cfg :: ('x greeter_error, _) outcome), w) \<and> e \<in> set (boot_entries cfg) \<and>
      resolve_and_read_file F G kdf cfg fuel (be_file e) s1 = (Ok img, s2))}"
  let ?R = "starts_only started ?A"
  have F: "quiet_platform ?R F" and L: "quiet_loader ?R L"
    using assms(1) by (auto simp: image_firmware_def intro: quiet_platform_mono [OF same_grow] quiet_mono(6) [OF same_grow])
  have console: "quiet_console ?R (pf_console F)" using F by (simp add: quiet_platform_def)
  obtain r1 w1 where load: "load_config F L h (world s) = ((r1 :: ('x greeter_error, config) outcome), w1)" by fastforce
  have w1: "?R (world s) w1" by (rule withinD [OF grow.within_load_config [OF F L] load])
  have leave: "within world ?R (on_world (exit_greeter (pf_console F) fuel))"
    by (intro grow.within_on_world grow.within_exit console)
  have rest: "?R w1 (world s')"
  proof (cases r1)
    case (Ok cfg)
    have "within world ?R (run F G kdf L cfg fuel h)"
      by (rule grow.within_run [OF F], rule grow.within_handle_boot_entry [OF F L], rule chain_load_starts [OF assms(1)])
        (use load Ok in blast)
    then have "within world ?R (pbind (run_loop fuel (run F G kdf L cfg fuel h)) (\<lambda>_. on_world (exit_greeter (pf_console F) fuel)))"
      by (intro grow.within_bind grow.within_run_loop leave)
    from withinD [OF this, of "s\<lparr>world := w1\<rparr>" r s'] show ?thesis
      using assms(2) load Ok by (simp add: main_def zoom_def)
  next
    case (Err e)
    with withinD [OF leave, of "s\<lparr>world := w1\<rparr>" r s'] show ?thesis
      using assms(2) load by (simp add: main_def zoom_def)
  next
    case (Halt x)
    then show ?thesis using assms(2) load grow.R_refl by (auto simp: main_def zoom_def)
  qed
  from grow.R_trans [OF w1 rest] show ?thesis unfolding starts_only_def by blast
qed

section \<open>Witness\<close>

text \<open>
  A machine that records: one disk, a configuration with one entry on it, and the enter key pressed as
  soon as it is waited for. The image that is started resets the machine.
\<close>

record recorder =
  rc_held :: "nat \<Rightarrow> u8 list option"
  rc_started :: "u8 list list"
  rc_idle :: bool

definition recorder_console :: "recorder console" where
  "recorder_console = (pf_console idle_platform)\<lparr>con_read_key := (\<lambda>w.
     if rc_idle w then (Ok None, w\<lparr>rc_idle := False\<rparr>) else (Ok (Some (Printable 0xD)), w\<lparr>rc_idle := True\<rparr>))\<rparr>"

definition recorder_files :: "recorder file_system" where
  "recorder_files = (pf_files idle_platform)
     \<lparr>fs_protocol := (\<lambda>h w. (Ok 0, w)), fs_open_volume := (\<lambda>h w. (Ok 0, w)), fs_open := (\<lambda>h n w. (Ok 0, w)),
      fs_into_type := (\<lambda>h w. (Ok (RegularFile 0), w)), fs_file_size := (\<lambda>h w. (Ok 0, w)), fs_read := (\<lambda>h n w. (Ok [], w))\<rparr>"

definition recorder_entry :: boot_entry where
  "recorder_entry = \<lparr>be_name = '''', be_file = outer_file, be_initrd = None, be_additional_initrd_files = None,
     be_options = None, be_default = True\<rparr>"

definition recorder_config :: config where
  "recorder_config = \<lparr>keyslots = [], partitions = [(''outer'', outer_partition)], boot_entries = [recorder_entry], log_level = InfoLevel\<rparr>"

definition recorder_loader :: "(recorder, unit) loader" where
  "recorder_loader =
     \<lparr>ld_allocate_pages = (\<lambda>n w. (Ok 0x1000, w)), ld_store = (\<lambda>a d w. w),
      ld_load_image = (\<lambda>h p d w. (Ok 1, w\<lparr>rc_held := (rc_held w)(1 \<mapsto> d)\<rparr>)),
      ld_open_loaded_image = (\<lambda>h w. (Ok 2, w)), ld_device = (\<lambda>h w. 0), ld_locate_file_system = (\<lambda>p w. (Ok 3, w)),
      ld_set_load_options = (\<lambda>h o' w. w),
      ld_start_image = (\<lambda>h w. case rc_held w h of None \<Rightarrow> (Err STATUS_NOT_FOUND, w)
        | Some img \<Rightarrow> (Halt (ResetTo COLD), w\<lparr>rc_started := rc_started w @ [img]\<rparr>)),
      ld_cstring16 = (\<lambda>s. Ok []), ld_initramfs = (\<lambda>raw files. concat raw @ concat (map snd files)),
      ld_toml = (\<lambda>b. Ok ([], [outer_partition], [recorder_entry], InfoLevel))\<rparr>"

abbreviation recorder_machine :: "recorder platform" where
  "recorder_machine \<equiv> disk_machine recorder_console recorder_files"

lemma recorder_firmware: "image_firmware rc_held rc_started recorder_machine recorder_loader"
  unfolding image_firmware_def
proof (intro conjI)
  have "quiet_console (same_images rc_held rc_started) recorder_console"
    by (simp add: quiet_console_def recorder_console_def idle_platform_def within_def same_images_def)
  moreover have "quiet_files (same_images rc_held rc_started) recorder_files"
    by (simp add: quiet_files_def recorder_files_def within_def same_images_def)
  moreover have "quiet_services (same_images rc_held rc_started) calm_services"
    by (simp add: quiet_services_def calm_services_def call_status_def within_def same_images_def)
  ultimately show "quiet_platform (same_images rc_held rc_started) recorder_machine"
    by (simp add: quiet_platform_def disk_machine_def idle_platform_def within_def same_images_def)
qed (simp_all add: quiet_loader_def recorder_loader_def within_def same_images_def split: option.split)

lemma recorder_load: "load_config recorder_machine recorder_loader 0 w = (Ok recorder_config, w)"
  by (simp add: load_config_def recorder_loader_def pbind_def uefi_context_def context_from_def pmap_err_def pure_def disk_machine_def
      idle_platform_def read_full_file_def read_full_file_to_vec_def read_to_vec_def recorder_files_def collect_keyslots_def
      collect_partitions_def btree_collect_def recorder_config_def)

lemma recorder_choice:
  "ui_choose recorder_console (Suc fuel) (menu_options recorder_config) \<lparr>rc_held = a, rc_started = b, rc_idle = True\<rparr> =
     (Ok 0, \<lparr>rc_held = a, rc_started = b, rc_idle = True\<rparr>)"
  by (simp add: ui_choose_def consume_old_keypresses_def sleep_def recorder_console_def idle_platform_def pbind_def unwrapped_def
      uefi_context_def pmap_err_def pure_def menu_options_def recorder_config_def index_def write_str_def draw_menu_def Let_def SCAN_UP_def SCAN_DOWN_def)

lemma recorder_path: "find_random_esp_path recorder_machine w = (Ok (Some []), w)"
proof -
  have "ignoring (call_status (disconnect_controller (pf_services recorder_machine) h)) w = (Ok (), w)"
    "ignoring (call_status (connect_controller (pf_services recorder_machine) h)) w = (Ok (), w)" for h
    by (simp_all add: ignoring_def call_status_def disk_machine_def idle_platform_def calm_services_def to_result_def)
  note services = this
  have "pf_partition_handles recorder_machine w = (Ok [3, 4], w)"
    "pf_open_partition_info recorder_machine h w = (Ok \<lparr>esp_entry = (h = 4)\<rparr>, w)"
    "pf_open_device_path recorder_machine h w = (Ok [], w)" "pf_path_text recorder_machine [] w = (Ok (Some ''''), w)" for h
    by (simp_all add: disk_machine_def idle_platform_def)
  note calls = services this
  have "reconnect_all recorder_machine hs w = (Ok (), w)" for hs :: "nat list"
    by (induction hs) (simp_all add: pbind_def pure_def calls)
  note reconnected = this
  show ?thesis
    by (simp add: find_random_esp_path_def find_boot_partition_def disk_devices reconnected calls pbind_def uefi_context_def pmap_err_def pure_def
        path_text_def)
qed

theorem only_boot_entries_started_witness:
  "\<exists>s' img. main recorder_machine (ext4_formats [0x4d, 0x5a, 1]) (\<lambda>p s n k. None) recorder_loader (Suc (Suc (Suc (Suc 0)))) 0
      \<lparr>world = \<lparr>rc_held = (\<lambda>_. None), rc_started = [], rc_idle = True\<rparr>, keyslot_buffer = (\<lambda>_. None), masterkey_buffer = (\<lambda>_. None)\<rparr> =
      (Halt (ResetTo COLD), s') \<and> rc_started (world s') = [img] \<and> take 2 img = [0x4d, 0x5a]"
proof -
  let ?w = "\<lparr>rc_held = (\<lambda>_. None), rc_started = [], rc_idle = True\<rparr>"
  let ?s = "\<lparr>world = ?w, keyslot_buffer = (\<lambda>_. None), masterkey_buffer = (\<lambda>_. None :: unit option)\<rparr>"
  let ?G = "ext4_formats [0x4d, 0x5a, 1]" and ?n = "Suc (Suc (Suc (Suc 0)))"
  let ?booted = "\<lparr>world = \<lparr>rc_held = [1 \<mapsto> [0x4d, 0x5a, 1]], rc_started = [[0x4d, 0x5a, 1]], rc_idle = True\<rparr>,
    keyslot_buffer = (\<lambda>_. None), masterkey_buffer = (\<lambda>_. None :: unit option)\<rparr>"
  have fetch: "resolve_and_read_file recorder_machine ?G kdf recorder_config ?n outer_file ?s = (Ok [0x4d, 0x5a, 1], ?s)" for kdf
    by (rule disk_fetch) (simp add: recorder_config_def)
  have chain: "chain_load recorder_machine recorder_loader recorder_config ?n 0 [0x4d, 0x5a, 1] None None ?w =
      (Halt (ResetTo COLD), world ?booted)"
    by (simp add: chain_load_def recorder_path pbind_def recorder_loader_def uefi_context_def context_from_def pmap_err_def pure_def
        recorder_config_def less_eq_log_level_def)
  have boot: "handle_boot_entry recorder_machine ?G kdf recorder_loader recorder_config ?n 0 recorder_entry ?s = (Halt (ResetTo COLD), ?booted)" for kdf
    using fetch chain
    by (simp add: handle_boot_entry_def Let_def recorder_entry_def pbind_def pure_def zoom_def del: resolve_and_read_file.simps)
  have calls: "config_stdout recorder_machine ?w = (Ok (), ?w)" "pf_set_watchdog recorder_machine 0 0x31337 ?w = (Ok (), ?w)"
    "pf_console recorder_machine = recorder_console" "boot_entries recorder_config = [recorder_entry]"
    by (simp_all add: config_stdout_def disk_machine_def idle_platform_def pbind_def recorder_config_def)
  have round: "run recorder_machine ?G kdf recorder_loader recorder_config ?n 0 ?s = (Halt (ResetTo COLD), ?booted)" for kdf
    by (simp add: run_def pbind_def zoom_def uefi_context_def pmap_err_def calls recorder_choice boot index_def pure_def del: ui_choose_def)
  have run: "main recorder_machine ?G (\<lambda>p s n k. None) recorder_loader ?n 0 ?s = (Halt (ResetTo COLD), ?booted)"
    by (simp add: main_def zoom_def recorder_load pbind_def round)
  from only_boot_entries_started [OF recorder_firmware run] obtain img where "rc_started (world ?booted) = [img]" "take 2 img = [0x4d, 0x5a]"
    by auto
  with run show ?thesis by blast
qed

end
