(* ===== verification/Texts.thy ===== *)
theory Texts imports Errors Session begin

text \<open>
  What the program prints: the formatter of the error type of \<^verbatim>\<open>src/error.rs\<close>, the \<^verbatim>\<open>Debug\<close>
  implementations of \<^verbatim>\<open>opal/src/defs.rs\<close> in a release build, and the packet dump of
  \<^verbatim>\<open>opal/src/session.rs\<close>. The texts of values of other crates, and of derived \<^verbatim>\<open>Debug\<close> implementations,
  are a parameter, and so is the source location, which the compiler provides. A dump loses nothing of
  the packet.
\<close>

section \<open>Hexadecimal bytes\<close>

definition hex_digits :: string where
  "hex_digits = ''0123456789ABCDEF''"

text \<open>\<^verbatim>\<open>{:02X}\<close> of a byte.\<close>

definition hex2 :: "u8 \<Rightarrow> string" where
  "hex2 b = [hex_digits ! (unat b div 16), hex_digits ! (unat b mod 16)]"

text \<open>\<^verbatim>\<open>{:02X?}\<close> of an array.\<close>

fun commas :: "string list \<Rightarrow> string" where
  "commas [] = ''''"
| "commas [s] = s"
| "commas (s # ss) = s @ '', '' @ commas ss"

definition simple_token_debug :: "simple_token \<Rightarrow> string" where
  "simple_token_debug t = ''SimpleToken('' @ hex2 (token t) @ '')''"

definition bs8_debug :: "bs8 \<Rightarrow> string" where
  "bs8_debug b = ''BS8('' @ ''['' @ commas (map hex2 (bytes b)) @ '']'' @ '')''"

section \<open>The dump of a packet\<close>

text \<open>The bytes from the \<open>i\<close>-th on; \<^verbatim>\<open>'\n'\<close> is written as its code.\<close>

fun dump_bytes :: "nat \<Rightarrow> u8 list \<Rightarrow> string" where
  "dump_bytes i [] = ''''"
| "dump_bytes i (b # bs) =
     (if i mod 4 = 0 then [if i mod 16 = 0 then CHR 0x0A else CHR '' ''] else '''') @ hex2 b @ dump_bytes (Suc i) bs"

definition dump :: "string \<Rightarrow> u8 list \<Rightarrow> string" where
  "dump title buffer = title @ '':'' @ dump_bytes 0 buffer"

section \<open>Errors\<close>

record 'x texts =
  tx_opal :: "uefi_error error \<Rightarrow> string"
  tx_uefi :: "status \<Rightarrow> string"
  tx_io :: "'x io_error \<Rightarrow> string"
  tx_other :: "'x \<Rightarrow> string"

definition source_display :: "'x texts \<Rightarrow> 'x error_source \<Rightarrow> string" where
  "source_display T src =
     (case src of
        FileNotFound \<Rightarrow> ''file not found''
      | OpalSource e \<Rightarrow> ''opal: '' @ tx_opal T e
      | UefiSource s \<Rightarrow> ''uefi: '' @ tx_uefi T s
      | Utf8Source x \<Rightarrow> ''utf8: '' @ tx_other T x
      | TomlSource x \<Rightarrow> ''toml: '' @ tx_other T x
      | CString16FromStrError x \<Rightarrow> ''cstring16fromstr: '' @ tx_other T x
      | IoSource e \<Rightarrow> ''io: '' @ tx_io T e
      | LuksSource x \<Rightarrow> ''luks: '' @ tx_other T x
      | FatSource e \<Rightarrow> ''fat: '' @ tx_io T e)"

definition error_display :: "'x texts \<Rightarrow> string \<Rightarrow> 'x greeter_error \<Rightarrow> string" where
  "error_display T location e =
     err_context e @ (case err_source e of Some src \<Rightarrow> '', reason: '' @ source_display T src | None \<Rightarrow> '''') @
     '', at '' @ location"

section \<open>Reading a dump\<close>

definition hex_value :: "char \<Rightarrow> nat option" where
  "hex_value c = List.find (\<lambda>d. hex_digits ! d = c) [0..<16]"

fun undump :: "string \<Rightarrow> u8 list option" where
  "undump [] = Some []"
| "undump [c] = None"
| "undump (c # d # cs) =
     (if c = CHR 0x0A \<or> c = CHR '' '' then undump (d # cs)
      else case (hex_value c, hex_value d) of
        (Some h, Some l) \<Rightarrow> map_option ((#) (word_of_nat (16 * h + l))) (undump cs)
      | _ \<Rightarrow> None)"

lemma digits_16: "(\<forall>d<16. P d) \<longleftrightarrow> list_all P [0, 1, 2, 3, 4, 5, 6, 7, 8, 9, 10, 11, 12, 13, 14, 15 :: nat]"
proof -
  have "[0, 1, 2, 3, 4, 5, 6, 7, 8, 9, 10, 11, 12, 13, 14, 15] = [0..<16 :: nat]" by (simp add: upt_rec)
  then show ?thesis by (simp only:) (auto simp: list_all_iff)
qed

lemma hex_value_digit: "\<forall>d<16. hex_value (hex_digits ! d) = Some d"
  unfolding digits_16 by (simp add: hex_value_def hex_digits_def upt_rec)

lemma digit_no_space: "\<forall>d<16. hex_digits ! d \<noteq> CHR 0x0A \<and> hex_digits ! d \<noteq> CHR '' ''"
  unfolding digits_16 by (simp add: hex_digits_def)

lemma undump_hex2: "undump (hex2 b @ cs) = map_option ((#) b) (undump cs)"
proof -
  have b: "unat b div 16 < 16" "unat b mod 16 < 16" using unat_byte_bound [of b] by simp_all
  have "(word_of_nat (16 * (unat b div 16) + unat b mod 16) :: u8) = b" by simp
  then show ?thesis
    using b digit_no_space hex_value_digit by (simp add: hex2_def del: of_nat_add of_nat_mult)
qed

lemma undump_bytes: "undump (dump_bytes i bs) = Some bs"
proof (induction bs arbitrary: i)
  case (Cons b bs)
  have "undump (c # hex2 b @ cs) = undump (hex2 b @ cs)" if "c = CHR 0x0A \<or> c = CHR '' ''" for c cs
    using that by (simp add: hex2_def)
  with Cons show ?case by (simp add: undump_hex2)
qed simp

text \<open>What is dumped can be read back, byte for byte.\<close>

theorem dump_lossless: "undump (drop (Suc (length title)) (dump title buffer)) = Some buffer"
  by (simp add: dump_def undump_bytes)

end
