(* ===== verification/Spec2Isabelle.thy ===== *)
theory Spec2Isabelle imports Volumes Fuel Attempts Greeter Starts Texts begin

text \<open>
  A verification of \<^verbatim>\<open>opal-uefi-greeter\<close>: a UEFI program that unlocks self-encrypting drives over the
  TCG Opal protocol, finds a kernel image on them (through partition tables, LVM, LUKS, ext4 and FAT)
  and starts it. This header describes the program, how the theories follow it, what they show, and
  what they leave out.

  \<^bigskip>\<^bold>\<open>The program and its parts.\<close> \<^verbatim>\<open>src/src/main.rs\<close> is the greeter: \<^verbatim>\<open>main\<close> loads a configuration
  and runs a loop; \<^verbatim>\<open>run\<close> unlocks the configured Opal drives (\<^verbatim>\<open>handle_unlock_configured_opal_drives\<close>,
  \<^verbatim>\<open>unlock_opal\<close>), shows a menu, and boots the entry chosen (\<^verbatim>\<open>handle_boot_entry\<close>,
  \<^verbatim>\<open>construct_initramfs\<close>). Files are fetched by \<^verbatim>\<open>resolve_and_read_file\<close>, which follows the parents of
  a partition and searches every device (\<^verbatim>\<open>find_read_file\<close>, \<^verbatim>\<open>find_read_file_internal\<close>), unlocking what
  is locked on the way. It stands on: the readers of \<^verbatim>\<open>src/src/io.rs\<close>, the text interface
  \<^verbatim>\<open>src/src/ui.rs\<close>, the configuration \<^verbatim>\<open>src/src/config.rs\<close>, the error type \<^verbatim>\<open>src/src/error.rs\<close>, the
  NVMe and SATA pass-thru protocols under \<^verbatim>\<open>src/src/low_level\<close>, and the library \<^verbatim>\<open>src/opal\<close>: token writer
  and packet layouts (\<^verbatim>\<open>defs.rs\<close>), command builder and response parser (\<^verbatim>\<open>command.rs\<close>), discovery
  (\<^verbatim>\<open>io.rs\<close>), sessions (\<^verbatim>\<open>session.rs\<close>) and drives (\<^verbatim>\<open>lib.rs\<close>). A drive is reached through the trait
  \<^verbatim>\<open>SecureProtocol\<close>, which the two low-level devices implement.

  \<^bigskip>\<^bold>\<open>Conventions.\<close> A Rust computation ends in an \<open>outcome\<close>: a value (\<open>Ok\<close>), an error value (\<open>Err\<close>) or
  \<open>Halt\<close>, a control transfer that never comes back: \<open>Panic\<close>, \<open>ResetTo\<close> (a reset of the machine) or
  \<open>OutOfFuel\<close>, which is the model's and not the program's. Stateful code is a \<open>prog\<close>, a function from the
  state to the outcome and the next state, composed by \<open>pbind\<close> (Rust's \<^verbatim>\<open>?\<close>); \<open>zoom\<close> runs it on a part of
  the state. Machine integers are words of their width and wrap as in a release build; indices and
  slices out of bounds, casts of layouts and unwraps that fail are \<open>Panic\<close>. Structs are records, enums
  are datatypes, \<^verbatim>\<open>BTreeMap\<close>s with configured contents are association lists sorted by key. Names are
  those of the source, where HOL has not taken them.

  \<^bigskip>\<^bold>\<open>The theories, in the order of the code.\<close>
  \<^item> \<open>Prelude\<close>: outcomes and programs, byte strings, slices, aligned buffers (\<^verbatim>\<open>opal/src/util.rs\<close>);
    collections \<open>ok_iff\<close>, \<open>run_simps\<close>, \<open>wire_simps\<close>.
  \<^item> \<open>Opal_Consts\<close>, \<open>Tokens\<close>: the constants of \<^verbatim>\<open>defs.rs\<close> and its writer of tokens. \<open>Atoms\<close> specifies the
    wire format (\<open>decode_atom\<close>, \<open>carries\<close>) and shows that what is written decodes to what was meant.
  \<^item> \<open>Command\<close>: packet headers and \<^verbatim>\<open>OpalCommandBuilder\<close>; the three lengths and the padding.
    \<open>Response\<close>: \<^verbatim>\<open>OpalResponse\<close>, whose parser returns the atoms that a packet spells.
  \<^item> \<open>Secure_Io\<close>: the trait \<^verbatim>\<open>SecureProtocol\<close> as the record \<open>secure_protocol\<close>, and \<^verbatim>\<open>SecureDevice\<close>.
    \<open>Discovery\<close>: the loop over a discovery response is the fold over the features it describes.
  \<^item> \<open>Session\<close>: \<^verbatim>\<open>OpalSession\<close>, polling included. \<open>Trace\<close> logs what a session sends; \<open>Requests\<close> says what
    its requests mean; \<open>Verdict\<close> says how a reply is judged.
  \<^item> \<open>Drive\<close>: \<^verbatim>\<open>OpalDrive\<close>; every run of \<^verbatim>\<open>unlock\<close> by the packets it has sent, and its success on a
    drive that accepts. \<open>Wire\<close>: a packet decoder of its own, and that everything sent is well formed.
    \<open>Transparent\<close>: drives that look alike behave alike, so that logging changes nothing. \<open>Laws\<close>: what
    every drive keeps through an unlock, enterprise drives and runs that halt included.
  \<^item> \<open>Tper\<close>: a reference drive after the TCG specifications (session, credential, tries, lock columns,
    discovery), which decodes the packets with \<open>Wire\<close>. Unlocking any drive that conforms to it is
    presenting the derived key to it (\<open>present\<close>), if it sends session numbers in atoms of four bytes
    (\<open>answers_wide\<close>); a drive that sends them in the shortest atoms cannot be unlocked.
  \<^item> \<open>Uefi\<close>, \<open>Nvme\<close>, \<open>Ata\<close>: what the low-level code uses of the firmware, and its two implementations
    of \<open>secure_protocol\<close>; what they tell the controller during an unlock, and what they read from it.
  \<^item> \<open>Readers\<close>: \<^verbatim>\<open>BlockIoReader\<close>, \<^verbatim>\<open>OptimizedSeek\<close>, \<^verbatim>\<open>PartialReader\<close>. \<open>Streams\<close>: they read what the disk holds.
  \<^item> \<open>Errors\<close>, \<open>Config\<close>, \<open>Files\<close>, \<open>Ui\<close>: the error type, the configuration, files of the boot partition,
    prompts and menus.
  \<^item> \<open>Platform\<close>: the machine as one record \<open>platform\<close> of firmware calls, and the functions of \<^verbatim>\<open>main.rs\<close>
    that look at it. \<open>Search\<close>: passwords, unlocking, the search for a file, with the formats as the
    record \<open>formats\<close>. \<open>Boot\<close>: \<^verbatim>\<open>main\<close>, \<^verbatim>\<open>run\<close> and the boot handlers, with the record \<open>loader\<close>.
  \<^item> \<open>Attempts\<close>: \<^verbatim>\<open>unlock_opal\<close> against a conforming drive: the right password opens it, wrong ones lock it
    out. \<open>Greeter\<close>: how \<^verbatim>\<open>main\<close> ends, and what a disk without Opal does to it. \<open>Texts\<close>: what is printed.
  \<^item> \<open>Volumes\<close>: nested storage as a datatype, the file a path leads to (\<open>locate\<close>), and the proof that the
    search computes it. Its file systems are functions from path strings, as the crates read them, so that many
    strings may name one file; of a string that names a directory nothing is asked of the crates. \<open>Fuel\<close>: more
    fuel changes no run that has ended.
  \<^item> \<open>Frame\<close>: a relation on the machine that the firmware's calls keep is kept by every function of the
    greeter. \<open>Starts\<close>: hence nothing is started but the files of the configured boot entries.

  \<^bigskip>\<^bold>\<open>Interfaces.\<close> Seven contracts are locales, each interpreted on the code's own definitions.
  \<open>protocol_laws\<close> (\<open>Secure_Io\<close>): a secure protocol keeps its alignment and serial number; \<open>nvme\<close> and
  \<open>ata\<close> are the interpretations on the program's drives, \<open>tper\<close> the one on the reference drive. \<open>command_invariant\<close> (\<open>Laws\<close>): a relation that every
  command keeps whose payload spells atoms is kept by an unlock; \<open>wire\<close> interprets it for logs of
  well-formed packets. \<open>protocol_invariant\<close> (\<open>Laws\<close>): the same for a relation that every call of a protocol
  keeps, which gives a \<open>command_invariant\<close>; it is interpreted for the commands the two kinds of controller are given
  (\<open>nvme_commands\<close>, \<open>ata_commands\<close>), and \<open>protocol_laws\<close> gives it for the identity of the drive.
  \<open>stream\<close> and \<open>full_stream\<close> (\<open>Streams\<close>): reading returns the content at the cursor, seeking moves it;
  \<open>block_reader\<close>, \<open>disk_reader\<close> and \<open>partition_reader\<close> interpret them on the three readers.
  \<open>drive_morphism\<close> (\<open>Transparent\<close>): one drive seen through a function is another; \<open>tracing\<close> interprets it on
  the traced protocol, and its predicate is the hypothesis that a drive conforms to the reference.
  \<open>frame\<close> (\<open>Frame\<close>): a reflexive and transitive relation on the machine, with the rules for computations that
  stay within it; \<open>same\<close> and \<open>grow\<close> (\<open>Starts\<close>) interpret it for the images that are loaded and started.

  \<^bigskip>\<^bold>\<open>Parameters.\<close> Code outside the repository is an argument of the definitions that use it: the
  firmware's protocols (\<open>platform\<close>, \<open>console\<close>, \<open>nvme_express_passthru\<close>, \<open>ata_passthru\<close>), the drive, the
  key derivation (\<open>kdf\<close>), the crates for file systems and containers (\<open>formats\<close>), the image services and
  the writer of the initial ramdisk (\<open>loader\<close>). Theorems assume of them, by name, what their documentation
  says (\<open>represents\<close>, \<open>accepting\<close>, \<open>announces\<close>, \<open>image_firmware\<close> and others), and witnesses instantiate them by functions.

  \<^bigskip>\<^bold>\<open>Fuel.\<close> Loops that the code does not bound (polls, keys, attempts at a password, reads to the end of a
  file, nested storage, parents of a partition, rounds of the main loop) take fuel. It is never a limit of
  the program: a run of \<open>main\<close> that ends with some fuel ends in the same way with any more, as the
  monotonicity lemmas of \<open>Fuel\<close> show. That there is enough is part of the theorems: one unit for an
  unlock of a drive that answers at once (\<open>Drive.unlock_succeeds\<close>), one more read than there are bytes for a file
  (\<open>Streams.partition_read_terminates\<close>), as many steps as there are partitions for a chain of parents
  (\<open>Search.parent_chain_path\<close>), the depth of the nesting for the search
  (\<open>Volumes.search_computes_locate\<close>), as many steps as there are entries for the menu
  (\<open>Ui.next_selectable_cyclic\<close>). Where no fuel is enough, the loop of the program does not end, and that is
  a theorem, too (\<open>Search.wrong_keyfile_never_ends\<close>, \<open>Search.cyclic_parents_never_resolved\<close>).

  \<^bigskip>\<^bold>\<open>Not modelled.\<close> The decoding of TOML (the crates \<^verbatim>\<open>toml\<close> and \<^verbatim>\<open>serde\<close>, and the code that the latter
  derives); logging, but for the texts of \<open>Texts\<close>; initialising the firmware's services and the allocator; the fields
  of firmware structures that nobody reads. Memory is modelled by contents, not by addresses: the unsafe
  code that reinterprets structs as bytes is translated into the bytes of the layout it relies on.
  \<^verbatim>\<open>configtest/src/main.rs\<close> is a developer's tool that prints the partitions of a disk through a crate, and
  \<^verbatim>\<open>low_level/mod.rs\<close> only names modules.
\<close>

end
